(* ===== verification/Prelude.thy ===== *)
theory Prelude
  imports Main "HOL-Library.Word" "HOL-Library.Char_ord"
begin

text \<open>
  What the component theories share: the faults a C++ run can end in and the result
  type that carries them, the 32-bit \<open>int\<close> with its overflow check and its conversions,
  checked access to arrays and vectors, the pieces of \<open>std::string\<close> the code uses, and the
  lemma collections \<open>res_simps\<close> (running a checked computation) and \<open>view_simps\<close>
  (the abstract content of a buffer).
\<close>

named_theorems res_simps "evaluation of checked computations"
named_theorems view_simps "abstract content of concrete states"

section \<open>Faults and results\<close>

text \<open>
  A fault is a point where the C++ program has no defined continuation of its own:
  undefined behaviour (access outside an array, signed overflow, a null dereference,
  \<open>front\<close> or \<open>pop\<close> on an empty queue, division by zero, a read of an object that was never written), an uncaught exception of the
  standard library, a failed \<open>assert\<close>, or a call of \<open>exit\<close>.
\<close>

datatype fault =
    Out_Of_Bounds
  | Signed_Overflow
  | Null_Pointer
  | Empty_Queue
  | Division_By_Zero
  | Std_Out_Of_Range
  | Std_Length_Error
  | Bad_Function_Call
  | Assert_Failed
  | Indeterminate_Value
  | Process_Exit

type_synonym 'a res = "fault + 'a"

definition bindE :: "'e + 'a \<Rightarrow> ('a \<Rightarrow> 'e + 'b) \<Rightarrow> 'e + 'b" where
  "bindE m f = (case m of Inl e \<Rightarrow> Inl e | Inr x \<Rightarrow> f x)"

lemma bindE_Inl [simp, res_simps]: "bindE (Inl e) f = Inl e"
  by (simp add: bindE_def)

lemma bindE_Inr [simp, res_simps]: "bindE (Inr x) f = f x"
  by (simp add: bindE_def)

lemma bindE_eq_Inr: "bindE m f = Inr y \<longleftrightarrow> (\<exists>x. m = Inr x \<and> f x = Inr y)"
  by (cases m) auto

lemma bindE_eq_Inl: "bindE m f = Inl e \<longleftrightarrow> m = Inl e \<or> (\<exists>x. m = Inr x \<and> f x = Inl e)"
  by (cases m) auto

lemma bindE_assoc: "bindE (bindE m f) g = bindE m (\<lambda>x. bindE (f x) g)"
  by (cases m) auto

lemma bindE_cong [fundef_cong]:
  assumes "m = m'" and "\<And>x. m' = Inr x \<Longrightarrow> f x = f' x"
  shows "bindE m f = bindE m' f'"
  using assms by (cases m') auto

text \<open>
  Total correctness of a checked computation: it reaches no fault and its result
  satisfies \<open>P\<close>. The equations below run it like a weakest precondition.
\<close>

definition returns :: "'e + 'a \<Rightarrow> ('a \<Rightarrow> bool) \<Rightarrow> bool" where
  "returns m P = (case m of Inl e \<Rightarrow> False | Inr x \<Rightarrow> P x)"

lemma returns_Inl [simp]: "returns (Inl e) P \<longleftrightarrow> False"
  by (simp add: returns_def)

lemma returns_Inr [simp]: "returns (Inr x) P \<longleftrightarrow> P x"
  by (simp add: returns_def)

lemma returns_bindE [simp]: "returns (bindE m f) P \<longleftrightarrow> returns m (\<lambda>x. returns (f x) P)"
  by (cases m) auto

lemma returns_if [simp]:
  "returns (if c then m else m') P \<longleftrightarrow> (if c then returns m P else returns m' P)"
  by simp

lemma returnsE:
  assumes "returns m P"
  obtains x where "m = Inr x" and "P x"
  using assms by (cases m) auto

lemma returns_mono: "returns m P \<Longrightarrow> (\<And>x. P x \<Longrightarrow> Q x) \<Longrightarrow> returns m Q"
  by (cases m) auto

lemma returns_iff: "returns m P \<longleftrightarrow> (\<exists>x. m = Inr x \<and> P x)"
  by (cases m) auto

section \<open>The 32-bit signed integer\<close>

definition INT_MAX :: int where
  "INT_MAX = 2147483647"

definition INT_MIN :: int where
  "INT_MIN = - 2147483648"

definition fits_int :: "int \<Rightarrow> bool" where
  "fits_int n \<longleftrightarrow> INT_MIN \<le> n \<and> n \<le> INT_MAX"

text \<open>The value of an \<open>int\<close> expression: signed overflow is undefined behaviour.\<close>

definition chk :: "int \<Rightarrow> int res" where
  "chk n = (if fits_int n then Inr n else Inl Signed_Overflow)"

text \<open>
  The conversion of a 64-bit \<open>size_t\<close> value to \<open>int\<close>: two's complement wrap-around.
\<close>

definition wrap32 :: "int \<Rightarrow> int" where
  "wrap32 n = sint (word_of_int n :: 32 word)"

lemma chk_Inr [simp, res_simps]: "fits_int n \<Longrightarrow> chk n = Inr n"
  by (simp add: chk_def)

lemma chk_eq_Inr: "chk n = Inr m \<longleftrightarrow> fits_int n \<and> m = n"
  by (auto simp: chk_def)

lemma fits_intI [intro]: "INT_MIN \<le> n \<Longrightarrow> n \<le> INT_MAX \<Longrightarrow> fits_int n"
  by (simp add: fits_int_def)

lemma fits_int_nonneg: "0 \<le> n \<Longrightarrow> n \<le> INT_MAX \<Longrightarrow> fits_int n"
  by (simp add: fits_int_def INT_MIN_def)

lemma signed_take_bit_31_range:
  "- 2147483648 \<le> n \<Longrightarrow> n \<le> 2147483647 \<Longrightarrow> signed_take_bit 31 (n :: int) = n"
  by (rule signed_take_bit_int_eq_self) simp_all

lemma wrap32_fits [simp, res_simps]: "fits_int n \<Longrightarrow> wrap32 n = n"
  by (simp add: wrap32_def sint_sbintrunc' fits_int_def INT_MIN_def INT_MAX_def
      signed_take_bit_31_range)

lemma wrap32_nonneg: "0 \<le> n \<Longrightarrow> n \<le> INT_MAX \<Longrightarrow> wrap32 n = n"
  by (simp add: fits_int_nonneg)

section \<open>Checked access to arrays and vectors\<close>

text \<open>\<open>v[i]\<close> on a vector or an array of known size.\<close>

definition read_at :: "'a list \<Rightarrow> int \<Rightarrow> 'a res" where
  "read_at xs i =
     (if 0 \<le> i \<and> i < int (length xs) then Inr (xs ! nat i) else Inl Out_Of_Bounds)"

text \<open>The source side of \<open>memcpy(_, &v[i], n)\<close>: the \<open>n\<close> bytes from index \<open>i\<close>.\<close>

definition read_range :: "'a list \<Rightarrow> int \<Rightarrow> int \<Rightarrow> 'a list res" where
  "read_range xs i n =
     (if 0 \<le> i \<and> 0 \<le> n \<and> i + n \<le> int (length xs) then Inr (take (nat n) (drop (nat i) xs))
      else Inl Out_Of_Bounds)"

text \<open>The destination side of \<open>memcpy(&v[i], ys, n)\<close>.\<close>

definition write_range :: "'a list \<Rightarrow> int \<Rightarrow> 'a list \<Rightarrow> 'a list res" where
  "write_range xs i ys =
     (if 0 \<le> i \<and> i + int (length ys) \<le> int (length xs)
      then Inr (take (nat i) xs @ ys @ drop (nat i + length ys) xs)
      else Inl Out_Of_Bounds)"

text \<open>
  \<open>std::vector<char> v(n)\<close>, \<open>v.resize(n)\<close> or \<open>std::string s(n, c)\<close> from an \<open>int\<close>:
  a negative \<open>n\<close> becomes a \<open>size_t\<close> above the maximal size.
\<close>

definition new_vector :: "'a \<Rightarrow> int \<Rightarrow> 'a list res" where
  "new_vector c n = (if n < 0 then Inl Std_Length_Error else Inr (replicate (nat n) c))"

definition NUL :: char where
  "NUL = CHR 0x00"

lemma read_at_nat [res_simps]: "i < length xs \<Longrightarrow> read_at xs (int i) = Inr (xs ! i)"
  by (simp add: read_at_def)

lemma read_at_eq_Inr:
  "read_at xs i = Inr x \<longleftrightarrow> 0 \<le> i \<and> i < int (length xs) \<and> x = xs ! nat i"
  by (auto simp: read_at_def)

lemma read_range_nat [res_simps]:
  "i + n \<le> length xs \<Longrightarrow> read_range xs (int i) (int n) = Inr (take n (drop i xs))"
  by (simp add: read_range_def flip: of_nat_add)

lemma read_range_ok:
  "0 \<le> i \<Longrightarrow> 0 \<le> n \<Longrightarrow> i + n \<le> int (length xs) \<Longrightarrow>
   read_range xs i n = Inr (take (nat n) (drop (nat i) xs))"
  by (simp add: read_range_def)

lemma read_range_at:
  "v = xs @ s @ ys \<Longrightarrow> i = int (length xs) \<Longrightarrow> n = int (length s) \<Longrightarrow> read_range v i n = Inr s"
  by (simp add: read_range_def)

lemma read_at_at: "v = xs @ c # ys \<Longrightarrow> i = int (length xs) \<Longrightarrow> read_at v i = Inr c"
  by (simp add: read_at_def)

lemma write_range_nat [res_simps]:
  "i + length ys \<le> length xs \<Longrightarrow>
   write_range xs (int i) ys = Inr (take i xs @ ys @ drop (i + length ys) xs)"
  by (simp add: write_range_def flip: of_nat_add)

lemma write_range_ok:
  "0 \<le> i \<Longrightarrow> i + int (length ys) \<le> int (length xs) \<Longrightarrow>
   write_range xs i ys = Inr (take (nat i) xs @ ys @ drop (nat i + length ys) xs)"
  by (simp add: write_range_def)

lemma returns_chk [simp]: "returns (chk n) P \<longleftrightarrow> fits_int n \<and> P n"
  by (simp add: chk_def)

lemma returns_read_at [simp]:
  "returns (read_at xs i) P \<longleftrightarrow> 0 \<le> i \<and> i < int (length xs) \<and> P (xs ! nat i)"
  by (auto simp: read_at_def)

lemma returns_read_range [simp]:
  "returns (read_range xs i n) P \<longleftrightarrow>
   0 \<le> i \<and> 0 \<le> n \<and> i + n \<le> int (length xs) \<and> P (take (nat n) (drop (nat i) xs))"
  by (auto simp: read_range_def)

lemma returns_write_range [simp]:
  "returns (write_range xs i ys) P \<longleftrightarrow>
   0 \<le> i \<and> i + int (length ys) \<le> int (length xs) \<and>
   P (take (nat i) xs @ ys @ drop (nat i + length ys) xs)"
  by (auto simp: write_range_def)

lemma returns_new_vector [simp]:
  "returns (new_vector c n) P \<longleftrightarrow> 0 \<le> n \<and> P (replicate (nat n) c)"
  by (auto simp: new_vector_def)

lemma nat_int_diff [simp]: "nat (int a - int b) = a - b"
  by arith

lemma length_write_range: "write_range xs i ys = Inr zs \<Longrightarrow> length zs = length xs"
  by (auto simp: write_range_def split: if_splits)

lemma new_vector_nonneg [res_simps]: "0 \<le> n \<Longrightarrow> new_vector c n = Inr (replicate (nat n) c)"
  by (simp add: new_vector_def)

end
