(* ===== verification/Tcp_Buffer.thy ===== *)
theory Tcp_Buffer
  imports Prelude
begin

text \<open>
  The application-level socket buffer of \<open>net/tcp/tcp_buffer.h\<close> and
  \<open>net/tcp/tcp_buffer.cc\<close>: a vector with a read and a write index. The first half is the
  code, operation by operation. The second half shows that the buffer implements a queue
  of bytes (\<open>view\<close>), and states that contract as the locale \<open>byte_queue\<close> on which the
  codecs and the connection rely.
\<close>

section \<open>The code\<close>

record tcp_buffer =
  m_read_index :: int
  m_write_index :: int
  m_buffer :: "char list"

definition new_TcpBuffer :: "int \<Rightarrow> tcp_buffer res" where
  "new_TcpBuffer sz =
     bindE (new_vector NUL sz) (\<lambda>v.
     Inr \<lparr>m_read_index = 0, m_write_index = 0, m_buffer = v\<rparr>)"

definition readAble :: "tcp_buffer \<Rightarrow> int" where
  "readAble b = m_write_index b - m_read_index b"

definition getSize :: "tcp_buffer \<Rightarrow> int" where
  "getSize b = wrap32 (int (length (m_buffer b)))"

definition writeAble :: "tcp_buffer \<Rightarrow> int" where
  "writeAble b = wrap32 (int (length (m_buffer b)) - m_write_index b)"

text \<open>\<open>resizeBuffer\<close>: the readable bytes move to the front of a fresh vector.\<close>

definition resizeBuffer :: "tcp_buffer \<Rightarrow> int \<Rightarrow> tcp_buffer res" where
  "resizeBuffer b sz =
     bindE (new_vector NUL sz) (\<lambda>tmp.
     let c = min sz (readAble b) in
     bindE (read_range (m_buffer b) (m_read_index b) c) (\<lambda>src.
     bindE (write_range tmp 0 src) (\<lambda>tmp'.
     Inr (b\<lparr>m_buffer := tmp', m_read_index := 0, m_write_index := 0 + c\<rparr>))))"

text \<open>\<open>(int) (1.5 * n)\<close>: the product is exact in a \<open>double\<close>, the cast truncates.\<close>

definition scale_3_2 :: "int \<Rightarrow> int" where
  "scale_3_2 n = (if 0 \<le> n then 3 * n div 2 else - (3 * (- n) div 2))"

definition writeToBuffer :: "tcp_buffer \<Rightarrow> char list \<Rightarrow> tcp_buffer res" where
  "writeToBuffer b buf =
     (let sz = int (length buf) in
      bindE (if sz > writeAble b
             then bindE (chk (m_write_index b + sz)) (\<lambda>n.
                  bindE (chk (scale_3_2 n)) (\<lambda>new_size.
                  resizeBuffer b new_size))
             else Inr b) (\<lambda>b.
      bindE (write_range (m_buffer b) (m_write_index b) buf) (\<lambda>v.
      bindE (chk (m_write_index b + sz)) (\<lambda>w.
      Inr (b\<lparr>m_buffer := v, m_write_index := w\<rparr>)))))"

text \<open>\<open>adjustBuffer\<close>: once more than a third of the vector is consumed, move to the front.\<close>

definition adjustBuffer :: "tcp_buffer \<Rightarrow> tcp_buffer res" where
  "adjustBuffer b =
     (if m_read_index b > wrap32 (int (length (m_buffer b) div 3)) then
        let count = readAble b in
        bindE (read_range (m_buffer b) (m_read_index b) count) (\<lambda>src.
        bindE (write_range (replicate (length (m_buffer b)) NUL) 0 src) (\<lambda>v.
        Inr (b\<lparr>m_buffer := v, m_write_index := count, m_read_index := 0\<rparr>)))
      else Inr b)"

text \<open>\<open>readFromBuffer\<close> fills \<open>re\<close>; an empty buffer leaves \<open>re\<close> as it is.\<close>

definition readFromBuffer :: "tcp_buffer \<Rightarrow> char list \<Rightarrow> int \<Rightarrow> (char list \<times> tcp_buffer) res" where
  "readFromBuffer b re sz =
     (if readAble b = 0 then Inr (re, b)
      else
        let read_size = (if readAble b > sz then sz else readAble b) in
        bindE (new_vector NUL read_size) (\<lambda>tmp.
        bindE (read_range (m_buffer b) (m_read_index b) read_size) (\<lambda>src.
        bindE (write_range tmp 0 src) (\<lambda>tmp'.
        bindE (chk (m_read_index b + read_size)) (\<lambda>r.
        bindE (adjustBuffer (b\<lparr>m_read_index := r\<rparr>)) (\<lambda>b'.
        Inr (tmp', b')))))))"

definition clearBuffer :: "tcp_buffer \<Rightarrow> tcp_buffer" where
  "clearBuffer b = b\<lparr>m_buffer := [], m_read_index := 0, m_write_index := 0\<rparr>"

definition recycleRead :: "tcp_buffer \<Rightarrow> int \<Rightarrow> tcp_buffer res" where
  "recycleRead b index =
     bindE (chk (m_read_index b + index)) (\<lambda>j.
     if j > wrap32 (int (length (m_buffer b))) then Inr b
     else adjustBuffer (b\<lparr>m_read_index := j\<rparr>))"

definition recycleWrite :: "tcp_buffer \<Rightarrow> int \<Rightarrow> tcp_buffer res" where
  "recycleWrite b index =
     bindE (chk (m_write_index b + index)) (\<lambda>j.
     if j > wrap32 (int (length (m_buffer b))) then Inr b
     else adjustBuffer (b\<lparr>m_write_index := j\<rparr>))"

definition getBufferString :: "tcp_buffer \<Rightarrow> string res" where
  "getBufferString b =
     bindE (new_vector (CHR ''0'') (readAble b)) (\<lambda>re.
     bindE (read_range (m_buffer b) (m_read_index b) (readAble b)) (\<lambda>src.
     write_range re 0 src))"

definition getBufferVector :: "tcp_buffer \<Rightarrow> char list" where
  "getBufferVector b = m_buffer b"

section \<open>The buffer as a queue of bytes\<close>

text \<open>The bytes that are written and not yet consumed, oldest first.\<close>

definition view :: "tcp_buffer \<Rightarrow> char list" where
  "view b = take (nat (readAble b)) (drop (nat (m_read_index b)) (m_buffer b))"

definition buffer_wf :: "tcp_buffer \<Rightarrow> bool" where
  "buffer_wf b \<longleftrightarrow>
     0 \<le> m_read_index b \<and> m_read_index b \<le> m_write_index b \<and>
     m_write_index b \<le> int (length (m_buffer b)) \<and> int (length (m_buffer b)) \<le> INT_MAX"

text \<open>
  Up to this many bytes in front of the write index, the growth by one half in
  \<open>writeToBuffer\<close> stays within an \<open>int\<close>: the greatest \<open>n\<close> with \<open>3 * n div 2 \<le> INT_MAX\<close>.
\<close>

definition WRITE_LIMIT :: int where
  "WRITE_LIMIT = 1431655765"

definition buffer_room :: "tcp_buffer \<Rightarrow> nat \<Rightarrow> bool" where
  "buffer_room b n \<longleftrightarrow> m_write_index b + int n \<le> WRITE_LIMIT"

lemma buffer_wfE [elim]:
  assumes "buffer_wf b"
  obtains r w where "m_read_index b = int r" and "m_write_index b = int w"
    and "r \<le> w" and "w \<le> length (m_buffer b)" and "int (length (m_buffer b)) \<le> INT_MAX"
    and "readAble b = int (w - r)" and "view b = take (w - r) (drop r (m_buffer b))"
proof (rule that [of "nat (m_read_index b)" "nat (m_write_index b)"])
qed (use assms in \<open>auto simp: buffer_wf_def readAble_def view_def nat_diff_distrib\<close>)

lemma length_view: "buffer_wf b \<Longrightarrow> int (length (view b)) = readAble b"
  by (erule buffer_wfE) simp

lemma view_update [view_simps]:
  "view \<lparr>m_read_index = int r, m_write_index = int w, m_buffer = v\<rparr> = take (w - r) (drop r v)"
  by (simp add: view_def readAble_def)

subsection \<open>Every operation keeps the buffer well formed and acts on the queue\<close>

lemma returns_new_TcpBuffer:
  assumes "0 \<le> n" and "n \<le> INT_MAX"
  shows "returns (new_TcpBuffer n)
           (\<lambda>b. buffer_wf b \<and> view b = [] \<and> m_write_index b = 0 \<and> getSize b = n)"
  using assms
  by (simp add: new_TcpBuffer_def buffer_wf_def view_def readAble_def getSize_def wrap32_nonneg)

lemma wrap32_third:
  "int n \<le> INT_MAX \<Longrightarrow> wrap32 (int (n div 3)) = int (n div 3)"
  by (rule wrap32_nonneg) (simp_all add: INT_MAX_def)

text \<open>Every operation that moves an index leaves at most a third of the vector consumed.\<close>

definition settled :: "tcp_buffer \<Rightarrow> bool" where
  "settled b \<longleftrightarrow> m_read_index b \<le> int (length (m_buffer b) div 3)"

lemma adjustBuffer_settled:
  "int (length (m_buffer b)) \<le> INT_MAX \<Longrightarrow> adjustBuffer b = Inr b' \<Longrightarrow> settled b'"
  by (auto simp: adjustBuffer_def settled_def wrap32_third Let_def bindE_eq_Inr split: if_splits)

lemma recycleWrite_settled:
  "int (length (m_buffer b)) \<le> INT_MAX \<Longrightarrow> recycleWrite b n = Inr b' \<Longrightarrow> settled b \<Longrightarrow> settled b'"
  by (auto simp: recycleWrite_def bindE_eq_Inr split: if_splits intro: adjustBuffer_settled
      elim!: adjustBuffer_settled [rotated])

lemma returns_adjustBuffer:
  assumes "buffer_wf b"
  shows "returns (adjustBuffer b)
           (\<lambda>b'. buffer_wf b' \<and> view b' = view b \<and> m_write_index b' \<le> m_write_index b \<and>
                 length (m_buffer b') = length (m_buffer b))"
  using assms
proof (rule buffer_wfE)
  fix r w
  assume "m_read_index b = int r" "m_write_index b = int w" "r \<le> w" "w \<le> length (m_buffer b)"
    "int (length (m_buffer b)) \<le> INT_MAX" "readAble b = int (w - r)"
    "view b = take (w - r) (drop r (m_buffer b))"
  then show ?thesis
    by (auto simp: adjustBuffer_def Let_def buffer_wf_def view_def readAble_def wrap32_third)
qed

lemma returns_resizeBuffer:
  assumes "buffer_wf b" and "readAble b \<le> n" and "n \<le> INT_MAX"
  shows "returns (resizeBuffer b n)
           (\<lambda>b'. buffer_wf b' \<and> view b' = view b \<and> m_write_index b' = readAble b \<and>
                 int (length (m_buffer b')) = n)"
  using assms(1)
proof (rule buffer_wfE)
  fix r w
  assume b: "m_read_index b = int r" "m_write_index b = int w" "r \<le> w" "w \<le> length (m_buffer b)"
    "int (length (m_buffer b)) \<le> INT_MAX" "readAble b = int (w - r)"
    "view b = take (w - r) (drop r (m_buffer b))"
  from assms(2) b have "0 \<le> n" by simp
  with assms b show ?thesis
    by (auto simp: resizeBuffer_def Let_def buffer_wf_def view_def readAble_def min_def)
qed

lemma scale_3_2_ge: "0 \<le> n \<Longrightarrow> n \<le> scale_3_2 n"
  by (simp add: scale_3_2_def)

text \<open>Writing within the vector, the branch that does not resize.\<close>

lemma returns_write_in_place:
  assumes "buffer_wf b" and "m_write_index b + int (length buf) \<le> int (length (m_buffer b))"
  shows "returns (bindE (write_range (m_buffer b) (m_write_index b) buf) (\<lambda>v.
                  bindE (chk (m_write_index b + int (length buf))) (\<lambda>w.
                  Inr (b\<lparr>m_buffer := v, m_write_index := w\<rparr>))))
           (\<lambda>b'. buffer_wf b' \<and> view b' = view b @ buf \<and>
                 m_write_index b' = m_write_index b + int (length buf))"
  using assms(1)
proof (rule buffer_wfE)
  fix r w
  assume b: "m_read_index b = int r" "m_write_index b = int w" "r \<le> w" "w \<le> length (m_buffer b)"
    "int (length (m_buffer b)) \<le> INT_MAX" "readAble b = int (w - r)"
    "view b = take (w - r) (drop r (m_buffer b))"
  with assms(2) have "fits_int (int w + int (length buf))"
    by (intro fits_int_nonneg) auto
  with assms(2) b show ?thesis
    by (auto simp: buffer_wf_def view_def readAble_def nat_add_distrib drop_take)
qed

lemma returns_writeToBuffer:
  assumes wf: "buffer_wf b" and room: "buffer_room b (length buf)"
  shows "returns (writeToBuffer b buf)
           (\<lambda>b'. buffer_wf b' \<and> view b' = view b @ buf \<and>
                 m_write_index b' \<le> m_write_index b + int (length buf))"
proof (cases "int (length buf) > writeAble b")
  case False
  from wf have "writeAble b = int (length (m_buffer b)) - m_write_index b"
    by (auto simp: writeAble_def buffer_wf_def intro!: wrap32_nonneg)
  with False wf returns_write_in_place [of b buf] show ?thesis
    unfolding writeToBuffer_def by (simp add: returns_mono)
next
  case True
  let ?n = "m_write_index b + int (length buf)"
  from wf have n: "0 \<le> ?n" "readAble b \<le> ?n" by (auto simp: buffer_wf_def readAble_def)
  from room n have s: "scale_3_2 ?n \<le> INT_MAX" 
    by (simp add: buffer_room_def scale_3_2_def WRITE_LIMIT_def INT_MAX_def)
  from n scale_3_2_ge [of ?n] s have f: "fits_int ?n" "fits_int (scale_3_2 ?n)"
    by (auto intro!: fits_int_nonneg)
  from n s scale_3_2_ge [of ?n]
  have "returns (resizeBuffer b (scale_3_2 ?n))
          (\<lambda>b'. buffer_wf b' \<and> view b' = view b \<and> m_write_index b' = readAble b \<and>
                int (length (m_buffer b')) = scale_3_2 ?n)"
    by (intro returns_resizeBuffer [OF wf]) auto
  then obtain b1 where b1: "resizeBuffer b (scale_3_2 ?n) = Inr b1" "buffer_wf b1"
    "view b1 = view b" "m_write_index b1 = readAble b" "int (length (m_buffer b1)) = scale_3_2 ?n"
    by (blast elim: returnsE)
  from wf have "readAble b \<le> m_write_index b" by (auto simp: buffer_wf_def readAble_def)
  with b1 n scale_3_2_ge [of ?n]
  have "m_write_index b1 + int (length buf) \<le> int (length (m_buffer b1))" by simp
  from returns_write_in_place [OF b1(2) this]
  have "returns (bindE (write_range (m_buffer b1) (m_write_index b1) buf) (\<lambda>v.
                  bindE (chk (m_write_index b1 + int (length buf))) (\<lambda>w.
                  Inr (b1\<lparr>m_buffer := v, m_write_index := w\<rparr>))))
           (\<lambda>b'. buffer_wf b' \<and> view b' = view b @ buf \<and>
                 m_write_index b' \<le> m_write_index b + int (length buf))"
    using b1 \<open>readAble b \<le> m_write_index b\<close> by (elim returns_mono) auto
  with True f b1(1) show ?thesis by (simp add: writeToBuffer_def Let_def)
qed

text \<open>Consuming \<open>n\<close> readable bytes drops them from the queue.\<close>

lemma returns_advance:
  assumes "buffer_wf b" and "0 \<le> n" and "n \<le> readAble b"
  shows "returns (adjustBuffer (b\<lparr>m_read_index := m_read_index b + n\<rparr>))
           (\<lambda>b'. buffer_wf b' \<and> view b' = drop (nat n) (view b) \<and>
                 m_write_index b' \<le> m_write_index b \<and>
                 length (m_buffer b') = length (m_buffer b))"
    and "fits_int (m_read_index b + n)"
    and "m_read_index b + n \<le> wrap32 (int (length (m_buffer b)))"
proof -
  let ?b = "b\<lparr>m_read_index := m_read_index b + n\<rparr>"
  from assms have wf: "buffer_wf ?b" and v: "view ?b = drop (nat n) (view b)"
    by (auto simp: buffer_wf_def readAble_def view_def drop_take nat_add_distrib nat_diff_distrib
        add.commute intro!: arg_cong2 [where f = take])
  from returns_adjustBuffer [OF wf] show "returns (adjustBuffer ?b)
           (\<lambda>b'. buffer_wf b' \<and> view b' = drop (nat n) (view b) \<and>
                 m_write_index b' \<le> m_write_index b \<and>
                 length (m_buffer b') = length (m_buffer b))"
    by (elim returns_mono) (simp add: v)
  from assms show "fits_int (m_read_index b + n)"
    by (auto simp: buffer_wf_def readAble_def intro!: fits_int_nonneg)
  from assms show "m_read_index b + n \<le> wrap32 (int (length (m_buffer b)))"
    by (auto simp: buffer_wf_def readAble_def wrap32_nonneg)
qed

lemma returns_recycleRead:
  assumes "buffer_wf b" and "0 \<le> n" and "n \<le> readAble b"
  shows "returns (recycleRead b n)
           (\<lambda>b'. buffer_wf b' \<and> view b' = drop (nat n) (view b) \<and>
                 m_write_index b' \<le> m_write_index b \<and>
                 length (m_buffer b') = length (m_buffer b) \<and> settled b')"
proof -
  have "int (length (m_buffer (b\<lparr>m_read_index := m_read_index b + n\<rparr>))) \<le> INT_MAX"
    using assms(1) by (simp add: buffer_wf_def)
  from adjustBuffer_settled [OF this] returns_advance [OF assms] show ?thesis
    by (auto simp: recycleRead_def returns_iff)
qed

lemma returns_readFromBuffer:
  assumes "buffer_wf b" and "0 \<le> n" and "readAble b \<noteq> 0"
  shows "returns (readFromBuffer b re n)
           (\<lambda>(re', b'). buffer_wf b' \<and> re' = take (nat n) (view b) \<and>
                        view b' = drop (nat n) (view b) \<and> m_write_index b' \<le> m_write_index b)"
proof -
  let ?k = "if readAble b > n then n else readAble b"
  from assms have k: "0 \<le> ?k" "?k \<le> readAble b" by (auto simp: buffer_wf_def readAble_def)
  obtain b' where b': "adjustBuffer (b\<lparr>m_read_index := m_read_index b + ?k\<rparr>) = Inr b'"
    "buffer_wf b'" "view b' = drop (nat ?k) (view b)" "m_write_index b' \<le> m_write_index b"
    using returns_advance(1) [OF assms(1) k] by (blast elim: returnsE)
  have len: "length (view b) = nat (readAble b)"
    using length_view [OF assms(1)] by simp
  have src: "read_range (m_buffer b) (m_read_index b) ?k = Inr (take (nat ?k) (view b))"
    using assms(1) k by (auto simp: read_range_def buffer_wf_def readAble_def view_def min_def)
  from k len have wr: "write_range (replicate (nat ?k) NUL) 0 (take (nat ?k) (view b))
      = Inr (take (nat ?k) (view b))"
    by (simp add: write_range_def)
  have tk: "take (nat ?k) (view b) = take (nat n) (view b)"
    "drop (nat ?k) (view b) = drop (nat n) (view b)"
    using len by auto
  show ?thesis
    using assms(3) k returns_advance(2) [OF assms(1) k] b' tk src wr
    by (simp add: readFromBuffer_def Let_def del: returns_read_range returns_write_range)
qed

lemma returns_getBufferString:
  assumes "buffer_wf b"
  shows "getBufferString b = Inr (view b)"
proof -
  have "0 \<le> readAble b" "read_range (m_buffer b) (m_read_index b) (readAble b) = Inr (view b)"
    using assms by (auto simp: read_range_def buffer_wf_def readAble_def view_def)
  with length_view [OF assms] show ?thesis
    by (simp add: getBufferString_def new_vector_def write_range_def)
qed

text \<open>
  The socket side: \<open>read\<close> stores the bytes it got at the write index, in the free part of
  the vector, and \<open>recycleWrite\<close> accounts for them.
\<close>

lemma returns_socket_fill:
  assumes "buffer_wf b" and "int (length xs) \<le> int (length (m_buffer b)) - m_write_index b"
  shows "returns (bindE (write_range (m_buffer b) (m_write_index b) xs) (\<lambda>v.
                  recycleWrite (b\<lparr>m_buffer := v\<rparr>) (int (length xs))))
           (\<lambda>b'. buffer_wf b' \<and> view b' = view b @ xs \<and>
                 m_write_index b' \<le> m_write_index b + int (length xs) \<and>
                 length (m_buffer b') = length (m_buffer b))"
proof -
  let ?v = "take (nat (m_write_index b)) (m_buffer b) @ xs @
            drop (nat (m_write_index b) + length xs) (m_buffer b)"
  let ?b = "b\<lparr>m_buffer := ?v, m_write_index := m_write_index b + int (length xs)\<rparr>"
  from assms have "returns (Inr ?b :: tcp_buffer res)
     (\<lambda>b'. buffer_wf b' \<and> view b' = view b @ xs)"
    using returns_write_in_place [of b xs] by simp
  then have wf: "buffer_wf ?b" "view ?b = view b @ xs" by simp_all
  from assms have len: "length ?v = length (m_buffer b)" by (auto simp: buffer_wf_def)
  from assms have "m_write_index b + int (length xs) \<le> wrap32 (int (length ?v))"
    "fits_int (m_write_index b + int (length xs))"
    unfolding len by (auto simp: buffer_wf_def wrap32_nonneg intro!: fits_int_nonneg)
  moreover have "returns (adjustBuffer ?b)
     (\<lambda>b'. buffer_wf b' \<and> view b' = view b @ xs \<and>
           m_write_index b' \<le> m_write_index b + int (length xs) \<and>
           length (m_buffer b') = length (m_buffer b))"
  proof (rule returns_mono [OF returns_adjustBuffer [OF wf(1)]])
    fix x assume "buffer_wf x \<and> view x = view ?b \<and> m_write_index x \<le> m_write_index ?b \<and>
      length (m_buffer x) = length (m_buffer ?b)"
    moreover have "length (m_buffer ?b) = length (m_buffer b)" using len by simp
    ultimately show "buffer_wf x \<and> view x = view b @ xs \<and>
      m_write_index x \<le> m_write_index b + int (length xs) \<and>
      length (m_buffer x) = length (m_buffer b)"
      by (simp only: wf(2)) simp
  qed
  ultimately show ?thesis
    using assms by (simp add: recycleWrite_def buffer_wf_def)
qed

section \<open>The contract of the buffer\<close>

text \<open>
  What the codecs and the connection rely on: appending at the end, reading and dropping
  at the front, an invariant that all of them keep, and a bound on the bytes in use.
\<close>

locale byte_queue =
  fixes invar :: "'b \<Rightarrow> bool"
    and content :: "'b \<Rightarrow> char list"
    and used :: "'b \<Rightarrow> int"
    and limit :: int
    and put :: "'b \<Rightarrow> char list \<Rightarrow> 'b res"
    and get :: "'b \<Rightarrow> int \<Rightarrow> (char list \<times> 'b) res"
    and skip :: "'b \<Rightarrow> int \<Rightarrow> 'b res"
  assumes put: "invar b \<Longrightarrow> used b + int (length xs) \<le> limit \<Longrightarrow>
      returns (put b xs) (\<lambda>b'. invar b' \<and> content b' = content b @ xs \<and>
                               used b' \<le> used b + int (length xs))"
    and get: "invar b \<Longrightarrow> 0 \<le> n \<Longrightarrow>
      returns (get b n) (\<lambda>(xs, b'). invar b' \<and> xs = take (nat n) (content b) \<and>
                               content b' = drop (nat n) (content b) \<and> used b' \<le> used b)"
    and skip: "invar b \<Longrightarrow> 0 \<le> n \<Longrightarrow> n \<le> int (length (content b)) \<Longrightarrow>
      returns (skip b n) (\<lambda>b'. invar b' \<and> content b' = drop (nat n) (content b) \<and>
                               used b' \<le> used b)"

datatype queue_op = Put "char list" | Get nat

text \<open>A session of writes and reads: everything that was read, and the final buffer.\<close>

fun run_ops ::
  "('b \<Rightarrow> char list \<Rightarrow> 'b res) \<Rightarrow> ('b \<Rightarrow> int \<Rightarrow> (char list \<times> 'b) res) \<Rightarrow>
   'b \<Rightarrow> queue_op list \<Rightarrow> (char list \<times> 'b) res" where
  "run_ops put get b [] = Inr ([], b)"
| "run_ops put get b (Put xs # ops) = bindE (put b xs) (\<lambda>b. run_ops put get b ops)"
| "run_ops put get b (Get n # ops) =
     bindE (get b (int n)) (\<lambda>(xs, b).
     bindE (run_ops put get b ops) (\<lambda>(ys, b). Inr (xs @ ys, b)))"

fun written :: "queue_op list \<Rightarrow> char list" where
  "written [] = []"
| "written (Put xs # ops) = xs @ written ops"
| "written (Get n # ops) = written ops"

context byte_queue
begin

lemma run_ops_conserves:
  "invar b \<Longrightarrow> used b + int (length (written ops)) \<le> limit \<Longrightarrow>
   returns (run_ops put get b ops)
     (\<lambda>(out, b'). invar b' \<and> out @ content b' = content b @ written ops)"
proof (induction ops arbitrary: b)
  case Nil
  then show ?case by simp
next
  case (Cons op ops)
  show ?case
  proof (cases op)
    case (Put xs)
    with Cons.prems have "returns (put b xs) (\<lambda>b'. invar b' \<and> content b' = content b @ xs \<and>
      used b' \<le> used b + int (length xs))"
      by (intro put) auto
    then show ?thesis
    proof (rule returnsE)
      fix b1 assume "put b xs = Inr b1" "invar b1 \<and> content b1 = content b @ xs \<and>
        used b1 \<le> used b + int (length xs)"
      with Put Cons.prems(2) Cons.IH [of b1] show ?thesis by auto
    qed
  next
    case (Get n)
    from get [OF Cons.prems(1), of "int n"] obtain xs b1 where
      b1: "get b (int n) = Inr (xs, b1)" "invar b1" "xs @ content b1 = content b" "used b1 \<le> used b"
      by (auto elim!: returnsE)
    with Cons.prems(2) Get have
      "returns (run_ops put get b1 ops)
         (\<lambda>(out, b'). invar b' \<and> out @ content b' = content b1 @ written ops)"
      by (intro Cons.IH) auto
    with b1 Get show ?thesis
      by (auto elim!: returns_mono simp flip: b1(3))
  qed
qed

end

lemma writeToBuffer_used:
  assumes "buffer_wf b" and "m_write_index b + int (length xs) \<le> WRITE_LIMIT"
  shows "returns (writeToBuffer b xs) (\<lambda>b'. buffer_wf b' \<and> view b' = view b @ xs \<and>
           m_write_index b' \<le> m_write_index b + int (length xs))"
  using assms by (intro returns_writeToBuffer) (simp_all add: buffer_room_def)

interpretation tbq: byte_queue buffer_wf view m_write_index WRITE_LIMIT
  writeToBuffer "\<lambda>b. readFromBuffer b []" recycleRead
proof
  fix b :: tcp_buffer and xs :: "char list" and n :: int
  assume wf: "buffer_wf b"
  {
    assume "m_write_index b + int (length xs) \<le> WRITE_LIMIT"
    with wf show "returns (writeToBuffer b xs) (\<lambda>b'. buffer_wf b' \<and> view b' = view b @ xs \<and>
      m_write_index b' \<le> m_write_index b + int (length xs))"
      by (rule writeToBuffer_used)
  next
    assume n: "0 \<le> n"
    show "returns (readFromBuffer b [] n) (\<lambda>(xs, b'). buffer_wf b' \<and> xs = take (nat n) (view b) \<and>
      view b' = drop (nat n) (view b) \<and> m_write_index b' \<le> m_write_index b)"
    proof (cases "readAble b = 0")
      case True
      with length_view [OF wf] have "view b = []" by simp
      with True wf show ?thesis by (simp add: readFromBuffer_def)
    next
      case False
      with wf n show ?thesis by (rule returns_readFromBuffer)
    qed
  next
    assume n: "0 \<le> n" "n \<le> int (length (view b))"
    with returns_recycleRead [OF wf, of n] length_view [OF wf]
    show "returns (recycleRead b n) (\<lambda>b'. buffer_wf b' \<and> view b' = drop (nat n) (view b) \<and>
      m_write_index b' \<le> m_write_index b)"
      by (auto elim: returns_mono)
  }
qed

section \<open>Properties\<close>

text \<open>
  C3: In any session of writes and reads on a well-formed buffer, no operation reaches a
  fault, and the bytes that were read, followed by those still in the buffer, are the bytes
  that were in the buffer at the start, followed by everything written: nothing is lost,
  duplicated or reordered by growing the vector or by moving it to the front.
\<close>

theorem tcp_buffer_conserves_bytes:
  assumes "buffer_wf b" and "m_write_index b + int (length (written ops)) \<le> WRITE_LIMIT"
  shows "returns (run_ops writeToBuffer (\<lambda>b. readFromBuffer b []) b ops)
    (\<lambda>(out, b'). buffer_wf b' \<and> out @ view b' = view b @ written ops)"
  by (rule tbq.run_ops_conserves [OF assms])

lemma tcp_buffer_conserves_bytes_witness:
  "returns (run_ops writeToBuffer (\<lambda>b. readFromBuffer b [])
      \<lparr>m_read_index = 1, m_write_index = 3, m_buffer = ''xaby''\<rparr> [Put ''cdef'', Get 3, Put ''g'', Get 9])
    (\<lambda>(out, b'). buffer_wf b' \<and> out @ view b' = ''ab'' @ ''cdefg'')"
  using tcp_buffer_conserves_bytes [of "\<lparr>m_read_index = 1, m_write_index = 3, m_buffer = ''xaby''\<rparr>"
      "[Put ''cdef'', Get 3, Put ''g'', Get 9]"]
  by (simp add: buffer_wf_def INT_MAX_def WRITE_LIMIT_def view_def readAble_def)

text \<open>
  What the socket stores behind the write index becomes the end of the queue once
  \<open>recycleWrite\<close> accounts for it, and \<open>recycleRead\<close> then drops exactly the bytes that were
  sent; the vector keeps its size and both indices stay in it.
\<close>

theorem tcp_buffer_socket_fill_drain:
  assumes "buffer_wf b" and "int (length xs) \<le> int (length (m_buffer b)) - m_write_index b"
    and "n \<le> length (view b @ xs)"
  shows "returns (bindE (write_range (m_buffer b) (m_write_index b) xs) (\<lambda>v.
                  bindE (recycleWrite (b\<lparr>m_buffer := v\<rparr>) (int (length xs))) (\<lambda>b.
                  recycleRead b (int n))))
    (\<lambda>b'. buffer_wf b' \<and> view b' = drop n (view b @ xs) \<and>
          length (m_buffer b') = length (m_buffer b))"
proof -
  from returns_socket_fill [OF assms(1,2)] obtain v b1 where b1:
    "write_range (m_buffer b) (m_write_index b) xs = Inr v"
    "recycleWrite (b\<lparr>m_buffer := v\<rparr>) (int (length xs)) = Inr b1" "buffer_wf b1"
    "view b1 = view b @ xs" "length (m_buffer b1) = length (m_buffer b)"
    by (auto simp: returns_iff bindE_eq_Inr)
  from returns_recycleRead [OF b1(3), of "int n"] assms(3) length_view [OF b1(3)] b1
  show ?thesis by (auto elim!: returns_mono simp del: returns_write_range)
qed

lemma tcp_buffer_socket_fill_drain_witness:
  "returns (bindE (write_range ''xabyzw'' 3 ''cd'') (\<lambda>v.
            bindE (recycleWrite \<lparr>m_read_index = 1, m_write_index = 3, m_buffer = v\<rparr> 2) (\<lambda>b.
            recycleRead b 3)))
    (\<lambda>b'. buffer_wf b' \<and> view b' = ''d'' \<and> length (m_buffer b') = length ''xabyzw'')"
  using tcp_buffer_socket_fill_drain [of
      "\<lparr>m_read_index = 1, m_write_index = 3, m_buffer = ''xabyzw''\<rparr>" "''cd''" 3]
  by (simp add: buffer_wf_def INT_MAX_def view_def readAble_def del: returns_bindE)

end
