(* ===== verification/Fd_Event.thy ===== *)
theory Fd_Event
  imports Tcp_Buffer
begin

unbundle bit_operations_syntax

text \<open>
  File descriptor events: \<open>net/base/fd_event.h\<close> and \<open>net/base/fd_event.cc\<close>, without the
  calls into the reactor, which follow in \<open>Reactor\<close>. Callbacks are application code of any
  type \<open>'cb\<close>; a \<open>std::function\<close> that was never assigned is \<open>None\<close>. Coroutines and reactors
  are addresses. The flag words are 32 bits wide, as in \<open>epoll_event\<close>.
\<close>

section \<open>The code\<close>

datatype io_event = READ | WRITE | ETModel

definition io_flag :: "io_event \<Rightarrow> 32 word" where
  "io_flag event = (case event of READ \<Rightarrow> 1 | WRITE \<Rightarrow> 4 | ETModel \<Rightarrow> 0x80000000)"

record 'cb fd_event =
  m_fd :: int
  m_read_callback :: "'cb option"
  m_write_callback :: "'cb option"
  m_listen_events :: "32 word"
  m_reactor :: "nat option"
  m_coroutine :: "nat option"

definition new_FdEvent :: "int \<Rightarrow> 'cb fd_event" where
  "new_FdEvent fd =
     \<lparr>m_fd = fd, m_read_callback = None, m_write_callback = None, m_listen_events = 0,
      m_reactor = None, m_coroutine = None\<rparr>"

text \<open>The callback that \<open>handleEvent\<close> calls, if any; an unset one throws.\<close>

definition handleEvent :: "32 word \<Rightarrow> 'cb fd_event \<Rightarrow> 'cb option res" where
  "handleEvent flag e =
     (if flag = io_flag READ then
        (case m_read_callback e of None \<Rightarrow> Inl Bad_Function_Call | Some cb \<Rightarrow> Inr (Some cb))
      else if flag = io_flag WRITE then
        (case m_write_callback e of None \<Rightarrow> Inl Bad_Function_Call | Some cb \<Rightarrow> Inr (Some cb))
      else Inr None)"

definition setCallBack :: "io_event \<Rightarrow> 'cb \<Rightarrow> 'cb fd_event \<Rightarrow> 'cb fd_event" where
  "setCallBack flag cb e =
     (if flag = READ then e\<lparr>m_read_callback := Some cb\<rparr>
      else if flag = WRITE then e\<lparr>m_write_callback := Some cb\<rparr>
      else e)"

definition getCallBack :: "io_event \<Rightarrow> 'cb fd_event \<Rightarrow> 'cb option" where
  "getCallBack flag e =
     (if flag = READ then m_read_callback e
      else if flag = WRITE then m_write_callback e
      else None)"

definition setFd :: "int \<Rightarrow> 'cb fd_event \<Rightarrow> 'cb fd_event" where
  "setFd fd e = e\<lparr>m_fd := fd\<rparr>"

definition setReactor :: "nat option \<Rightarrow> 'cb fd_event \<Rightarrow> 'cb fd_event" where
  "setReactor r e = e\<lparr>m_reactor := r\<rparr>"

definition setCoroutine :: "nat \<Rightarrow> 'cb fd_event \<Rightarrow> 'cb fd_event" where
  "setCoroutine cor e = e\<lparr>m_coroutine := Some cor\<rparr>"

definition clearCoroutine :: "'cb fd_event \<Rightarrow> 'cb fd_event" where
  "clearCoroutine e = e\<lparr>m_coroutine := None\<rparr>"

text \<open>
  \<open>setNonBlock\<close>: \<open>flags\<close> holds the status flags of the kernel's open files, and \<open>fcntl\<close> on a
  descriptor that is open reads and writes them.
\<close>

definition O_NONBLOCK :: "32 word" where
  "O_NONBLOCK = 0x800"

definition setNonBlock :: "(int \<Rightarrow> 32 word) \<Rightarrow> 'cb fd_event \<Rightarrow> (int \<Rightarrow> 32 word)" where
  "setNonBlock flags e =
     (if m_fd e = -1 then flags
      else let flag = flags (m_fd e) in
        if flag AND O_NONBLOCK \<noteq> 0 then flags
        else flags(m_fd e := flag OR O_NONBLOCK))"

definition isNonBlock :: "(int \<Rightarrow> 32 word) \<Rightarrow> 'cb fd_event \<Rightarrow> bool" where
  "isNonBlock flags e =
     (if m_fd e = -1 then False else flags (m_fd e) AND O_NONBLOCK \<noteq> 0)"

subsection \<open>The container\<close>

text \<open>The events of all descriptors, one per index; a pointer to an event is its index.\<close>

definition new_FdEventContainer :: "nat \<Rightarrow> 'cb fd_event list" where
  "new_FdEventContainer sz = map (\<lambda>i. new_FdEvent (int i)) [0..<sz]"

definition GetFdContainer :: "'cb fd_event list option \<Rightarrow> 'cb fd_event list" where
  "GetFdContainer g_FdContainer =
     (case g_FdContainer of None \<Rightarrow> new_FdEventContainer 1000 | Some c \<Rightarrow> c)"

definition getFdEvent ::
  "int \<Rightarrow> 'cb fd_event list \<Rightarrow> (nat \<times> 'cb fd_event list) res" where
  "getFdEvent fd m_fds =
     (if fd < wrap32 (int (length m_fds)) then
        bindE (read_at m_fds fd) (\<lambda>re. Inr (nat fd, m_fds))
      else
        bindE (chk (scale_3_2 fd)) (\<lambda>n.
        let m_fds = m_fds @ map (\<lambda>i. new_FdEvent (int i)) [length m_fds ..< nat n] in
        bindE (read_at m_fds fd) (\<lambda>re. Inr (nat fd, m_fds))))"

section \<open>The container hands out the event of the descriptor\<close>

definition container_wf :: "'cb fd_event list \<Rightarrow> bool" where
  "container_wf m_fds \<longleftrightarrow>
     2 \<le> length m_fds \<and> int (length m_fds) \<le> INT_MAX \<and> (\<forall>i < length m_fds. m_fd (m_fds ! i) = int i)"

lemma container_wf_new: "2 \<le> n \<Longrightarrow> int n \<le> INT_MAX \<Longrightarrow> container_wf (new_FdEventContainer n)"
  by (simp add: container_wf_def new_FdEventContainer_def new_FdEvent_def)

lemma returns_getFdEvent:
  assumes wf: "container_wf m_fds" and fd: "0 \<le> fd" "fd \<le> WRITE_LIMIT"
  shows "returns (getFdEvent fd m_fds) (\<lambda>(i, m_fds'). i = nat fd \<and> i < length m_fds' \<and>
    m_fd (m_fds' ! i) = fd \<and> container_wf m_fds' \<and>
    take (length m_fds) m_fds' = m_fds \<and>
    (\<forall>j. length m_fds \<le> j \<longrightarrow> j < length m_fds' \<longrightarrow> m_fds' ! j = new_FdEvent (int j)))"
proof (cases "fd < int (length m_fds)")
  case True
  then show ?thesis using wf fd
    by (auto simp: getFdEvent_def container_wf_def wrap32_nonneg)
next
  case False
  let ?n = "scale_3_2 fd"
  let ?new = "map (\<lambda>i. new_FdEvent (int i)) [length m_fds ..< nat ?n] :: 'a fd_event list"
  from fd have n: "?n \<le> INT_MAX" "0 \<le> ?n" by (simp_all add: scale_3_2_def WRITE_LIMIT_def INT_MAX_def)
  from False wf have "2 \<le> fd" by (simp add: container_wf_def)
  then have lt: "fd < ?n" by (simp add: scale_3_2_def)
  from False lt have len: "length (m_fds @ ?new) = nat ?n" by simp
  have nth: "(m_fds @ ?new) ! j = new_FdEvent (int j)" if "length m_fds \<le> j" "j < length (m_fds @ ?new)" for j
    using that by (simp add: nth_append)
  have all: "m_fd ((m_fds @ ?new) ! j) = int j" if "j < length (m_fds @ ?new)" for j
    using that wf nth [of j] by (cases "j < length m_fds") (auto simp: nth_append container_wf_def new_FdEvent_def)
  have c: "container_wf (m_fds @ ?new)"
    using wf n len all unfolding container_wf_def by auto
  have "nat fd < length (m_fds @ ?new)" using len lt fd by simp
  moreover from this have "m_fd ((m_fds @ ?new) ! nat fd) = fd" using all fd by simp
  moreover have "fits_int ?n" using n by (rule fits_int_nonneg [rotated])
  moreover have "wrap32 (int (length m_fds)) = int (length m_fds)"
    using wf by (simp add: container_wf_def wrap32_nonneg)
  moreover have "read_at (m_fds @ ?new) fd = Inr ((m_fds @ ?new) ! nat fd)"
    using len lt fd by (simp add: read_at_def)
  ultimately show ?thesis
    using False c nth by (simp add: getFdEvent_def Let_def del: returns_read_at length_append)
qed

section \<open>Properties\<close>

text \<open>
  From a container of at least two events, every descriptor up to the size bound gets the
  event that carries its number; the events handed out before stay where they are, so a
  descriptor always has the same event.
\<close>

theorem fd_container_stable:
  assumes "container_wf m_fds" and "0 \<le> fd" and "fd \<le> WRITE_LIMIT"
  shows "returns (getFdEvent fd m_fds) (\<lambda>(i, m_fds'). container_wf m_fds' \<and>
    take (length m_fds) m_fds' = m_fds \<and> i < length m_fds' \<and> m_fd (m_fds' ! i) = fd \<and>
    getFdEvent fd m_fds' = Inr (i, m_fds'))"
proof (rule returns_mono [OF returns_getFdEvent [OF assms]])
  fix x :: "nat \<times> 'a fd_event list"
  assume "case x of (i, m_fds') \<Rightarrow> i = nat fd \<and> i < length m_fds' \<and> m_fd (m_fds' ! i) = fd \<and>
    container_wf m_fds' \<and> take (length m_fds) m_fds' = m_fds \<and>
    (\<forall>j. length m_fds \<le> j \<longrightarrow> j < length m_fds' \<longrightarrow> m_fds' ! j = new_FdEvent (int j))"
  then show "case x of (i, m_fds') \<Rightarrow> container_wf m_fds' \<and>
    take (length m_fds) m_fds' = m_fds \<and> i < length m_fds' \<and> m_fd (m_fds' ! i) = fd \<and>
    getFdEvent fd m_fds' = Inr (i, m_fds')"
    using assms(2) by (auto simp: getFdEvent_def container_wf_def wrap32_nonneg read_at_def)
qed

lemma fd_container_stable_witness:
  "returns (getFdEvent 5 (new_FdEventContainer 3)) (\<lambda>(i, m_fds'). m_fd (m_fds' ! i) = 5)"
proof -
  have "container_wf (new_FdEventContainer 3)" by (rule container_wf_new) (simp_all add: INT_MAX_def)
  from fd_container_stable [OF this, of 5] show ?thesis
    by (simp add: WRITE_LIMIT_def) (auto elim!: returns_mono)
qed

end
