(* ===== verification/Std_Lib.thy ===== *)
theory Std_Lib
  imports Prelude "HOL-Library.List_Lexorder"
begin

text \<open>
  What the code uses of the C++ standard library: searching and cutting \<open>std::string\<close>,
  \<open>atoi\<close>, \<open>to_string\<close>, \<open>toupper\<close>, and the ordered containers \<open>std::map\<close> and
  \<open>std::multimap\<close> as association lists sorted by key. The contract of a map is the locale
  \<open>ordered_map\<close>.
\<close>

section \<open>Strings\<close>

text \<open>\<open>s.find(pat)\<close>, with \<open>None\<close> for \<open>npos\<close>.\<close>

fun find_str :: "string \<Rightarrow> string \<Rightarrow> nat option" where
  "find_str pat [] = (if pat = [] then Some 0 else None)"
| "find_str pat (c # s) =
     (if take (length pat) (c # s) = pat then Some 0 else map_option Suc (find_str pat s))"

text \<open>\<open>s.find_first_of(cs)\<close> and \<open>s.find_last_of(cs)\<close>.\<close>

fun find_first_of :: "string \<Rightarrow> string \<Rightarrow> nat option" where
  "find_first_of cs [] = None"
| "find_first_of cs (c # s) = (if c \<in> set cs then Some 0 else map_option Suc (find_first_of cs s))"

fun find_last_of :: "string \<Rightarrow> string \<Rightarrow> nat option" where
  "find_last_of cs [] = None"
| "find_last_of cs (c # s) =
     (case find_last_of cs s of Some i \<Rightarrow> Some (Suc i)
      | None \<Rightarrow> if c \<in> set cs then Some 0 else None)"

text \<open>
  \<open>s.substr(pos, n)\<close>: both arguments are \<open>size_t\<close>, so a negative difference arrives as a
  value above every length. \<open>std::out_of_range\<close> when \<open>pos\<close> is past the end, else at most
  \<open>n\<close> bytes.
\<close>

definition substr :: "string \<Rightarrow> int \<Rightarrow> int \<Rightarrow> string res" where
  "substr s pos n =
     (if pos < 0 \<or> pos > int (length s) then Inl Std_Out_Of_Range
      else Inr (if n < 0 then drop (nat pos) s else take (nat n) (drop (nat pos) s)))"

text \<open>\<open>s.c_str()\<close> where a string is built from it: the bytes before the first zero byte.\<close>

definition c_str :: "string \<Rightarrow> string" where
  "c_str s = takeWhile (\<lambda>c. c \<noteq> NUL) s"

definition to_upper :: "char \<Rightarrow> char" where
  "to_upper c =
     (let n = (of_char c :: nat) in if 97 \<le> n \<and> n \<le> 122 then char_of (n - 32) else c)"

text \<open>\<open>sprintf\<close> of a line into \<open>char buf[512]\<close>.\<close>

definition sprintf_512 :: "string \<Rightarrow> unit res" where
  "sprintf_512 s = (if length s < 512 then Inr () else Inl Out_Of_Bounds)"

text \<open>\<open>atoi\<close>: white space, a sign, digits; a value that is no \<open>int\<close> is undefined.\<close>

definition is_space :: "char \<Rightarrow> bool" where
  "is_space c \<longleftrightarrow> (of_char c :: nat) = 32 \<or> (of_char c :: nat) \<in> {9..13}"

definition is_dec :: "char \<Rightarrow> bool" where
  "is_dec c \<longleftrightarrow> (of_char c :: nat) \<in> {48..57}"

definition dec_value :: "string \<Rightarrow> int" where
  "dec_value s = foldl (\<lambda>n c. 10 * n + (of_char c - 48)) 0 (takeWhile is_dec s)"

definition atoi :: "string \<Rightarrow> int res" where
  "atoi s =
     (case dropWhile is_space s of
        [] \<Rightarrow> Inr 0
      | c # t \<Rightarrow>
          if c = CHR ''-'' then chk (- dec_value t)
          else if c = CHR ''+'' then chk (dec_value t)
          else chk (dec_value (c # t)))"

text \<open>\<open>std::to_string\<close> and \<open>operator<<\<close> on an integer.\<close>

fun show_nat :: "nat \<Rightarrow> string" where
  "show_nat n = (if n < 10 then [char_of (n + 48)]
                 else show_nat (n div 10) @ [char_of (n mod 10 + 48)])"

declare show_nat.simps [simp del]

definition show_int :: "int \<Rightarrow> string" where
  "show_int n = (if n < 0 then CHR ''-'' # show_nat (nat (- n)) else show_nat (nat n))"

subsection \<open>Facts about searching\<close>

lemma find_str_at:
  assumes "pat \<noteq> []" and "hd pat \<notin> set xs"
  shows "find_str pat (xs @ pat @ ys) = Some (length xs)"
  using assms(2)
proof (induction xs)
  case Nil
  with assms(1) show ?case by (cases pat) auto
next
  case (Cons x xs)
  from assms(1) Cons.prems have "take (length pat) ((x # xs) @ pat @ ys) \<noteq> pat"
    by (cases pat) auto
  with Cons show ?case by simp
qed

lemma find_str_absent: "pat \<noteq> [] \<Longrightarrow> hd pat \<notin> set xs \<Longrightarrow> find_str pat xs = None"
proof (induction xs)
  case (Cons x xs)
  then have "take (length pat) (x # xs) \<noteq> pat" by (cases pat) auto
  with Cons show ?case by simp
qed simp

lemma find_char_iff: "find_str [c] s = None \<longleftrightarrow> c \<notin> set s"
  by (induction s) auto

lemma find_str_le: "find_str pat s = Some i \<Longrightarrow> i + length pat \<le> length s"
proof (induction s arbitrary: i)
  case (Cons c s)
  show ?case
  proof (cases "take (length pat) (c # s) = pat")
    case True
    then have "length pat \<le> length (c # s)"
      by (metis length_take min.cobounded1)
    with Cons.prems True show ?thesis by simp
  next
    case False
    with Cons show ?thesis by (auto split: if_splits)
  qed
qed (auto split: if_splits)

lemma find_first_of_at:
  "set xs \<inter> set cs = {} \<Longrightarrow> c \<in> set cs \<Longrightarrow> find_first_of cs (xs @ c # ys) = Some (length xs)"
  by (induction xs) auto

lemma find_first_of_absent: "set xs \<inter> set cs = {} \<Longrightarrow> find_first_of cs xs = None"
  by (induction xs) auto

lemma find_first_of_less: "find_first_of cs s = Some i \<Longrightarrow> i < length s"
  by (induction s arbitrary: i) (auto split: if_splits)

lemma find_last_of_absent: "set xs \<inter> set cs = {} \<Longrightarrow> find_last_of cs xs = None"
  by (induction xs) auto

lemma find_last_of_at:
  "set ys \<inter> set cs = {} \<Longrightarrow> c \<in> set cs \<Longrightarrow> find_last_of cs (xs @ c # ys) = Some (length xs)"
  by (induction xs) (auto simp: find_last_of_absent)

lemma substr_nat [res_simps]:
  "i \<le> length s \<Longrightarrow> substr s (int i) (int n) = Inr (take n (drop i s))"
  by (simp add: substr_def)

lemma substr_at:
  "s = xs @ ys @ zs \<Longrightarrow> i = int (length xs) \<Longrightarrow> n = int (length ys) \<Longrightarrow> substr s i n = Inr ys"
  by (simp add: substr_def)

lemma substr_tail: "s = xs @ ys \<Longrightarrow> i = int (length xs) \<Longrightarrow> n = int (length ys) \<Longrightarrow> substr s i n = Inr ys"
  by (simp add: substr_def)

lemma length_substr: "substr s i n = Inr t \<Longrightarrow> int (length t) \<le> int (length s) - i \<and> 0 \<le> i"
  by (auto simp: substr_def split: if_splits)

subsection \<open>Printing and reading numbers\<close>

lemma show_nat_digits: "c \<in> set (show_nat n) \<Longrightarrow> is_dec c"
proof (induction n rule: show_nat.induct)
  case (1 n)
  have d: "is_dec (char_of (k + 48))" if "k < 10" for k :: nat
    using that by (auto simp: is_dec_def)
  show ?case
  proof (cases "n < 10")
    case True
    then have "show_nat n = [char_of (n + 48)]" by (subst show_nat.simps) simp
    with True 1(2) show ?thesis by (simp add: d)
  next
    case False
    then have "show_nat n = show_nat (n div 10) @ [char_of (n mod 10 + 48)]"
      by (subst show_nat.simps) simp
    with 1(2) have "c \<in> set (show_nat (n div 10)) \<or> c = char_of (n mod 10 + 48)" by auto
    with 1(1) False show ?thesis using d [of "n mod 10"] by auto
  qed
qed

lemma show_nat_nonempty: "show_nat n \<noteq> []"
  by (subst show_nat.simps) simp

lemma dec_value_show_nat: "dec_value (show_nat n) = int n"
proof -
  have t: "takeWhile is_dec (show_nat n) = show_nat n" for n
    using show_nat_digits by (simp add: takeWhile_eq_all_conv)
  have c: "of_char (char_of (k + 48)) = (int k + 48 :: int)" if "k < 10" for k :: nat
  proof -
    have "of_char (char_of (k + 48)) = k + 48" using that by simp
    then have "int (of_char (char_of (k + 48))) = int (k + 48)" by simp
    then show ?thesis by (simp only: of_nat_of_char of_nat_add of_nat_numeral)
  qed
  show ?thesis
    unfolding dec_value_def t
  proof (induction n rule: show_nat.induct)
    case (1 n)
    let ?f = "\<lambda>n c. 10 * n + (of_char c - 48) :: int"
    show ?case
    proof (cases "n < 10")
      case True
      then have "show_nat n = [char_of (n + 48)]" by (subst show_nat.simps) simp
      with c [OF True] show ?thesis by simp
    next
      case False
      then have "show_nat n = show_nat (n div 10) @ [char_of (n mod 10 + 48)]"
        by (subst show_nat.simps) simp
      then have "foldl ?f 0 (show_nat n) = 10 * int (n div 10) + int (n mod 10)"
        using 1 False c [of "n mod 10"] by simp
      also have "\<dots> = int n" by presburger
      finally show ?thesis .
    qed
  qed
qed

lemma atoi_show_nat: "int n \<le> INT_MAX \<Longrightarrow> atoi (show_nat n) = Inr (int n)"
proof -
  assume n: "int n \<le> INT_MAX"
  obtain c t where ct: "show_nat n = c # t" using show_nat_nonempty by (cases "show_nat n") auto
  then have d: "is_dec c" using show_nat_digits [of c n] by simp
  then have "\<not> is_space c" "c \<noteq> CHR ''-''" "c \<noteq> CHR ''+''" by (auto simp: is_dec_def is_space_def)
  with dec_value_show_nat [of n] n show ?thesis
    by (simp add: atoi_def ct fits_int_nonneg)
qed

section \<open>Ordered maps\<close>

fun map_put :: "'k::linorder \<Rightarrow> 'v \<Rightarrow> ('k \<times> 'v) list \<Rightarrow> ('k \<times> 'v) list" where
  "map_put k v [] = [(k, v)]"
| "map_put k v ((k', v') # m) =
     (if k < k' then (k, v) # (k', v') # m
      else if k = k' then (k, v) # m else (k', v') # map_put k v m)"

definition map_get :: "('k \<times> 'v) list \<Rightarrow> 'k \<Rightarrow> 'v option" where
  "map_get m k = map_of m k"

definition map_erase :: "'k \<Rightarrow> ('k \<times> 'v) list \<Rightarrow> ('k \<times> 'v) list" where
  "map_erase k m = filter (\<lambda>e. fst e \<noteq> k) m"

text \<open>\<open>m.insert({k, v})\<close> keeps an existing entry.\<close>

definition map_insert :: "'k::linorder \<Rightarrow> 'v \<Rightarrow> ('k \<times> 'v) list \<Rightarrow> ('k \<times> 'v) list" where
  "map_insert k v m = (case map_get m k of Some _ \<Rightarrow> m | None \<Rightarrow> map_put k v m)"

text \<open>\<open>m[k]\<close> in an expression: a missing key is inserted with the default value \<open>d\<close>.\<close>

definition map_index :: "'v \<Rightarrow> 'k::linorder \<Rightarrow> ('k \<times> 'v) list \<Rightarrow> 'v \<times> ('k \<times> 'v) list" where
  "map_index d k m = (case map_get m k of Some v \<Rightarrow> (v, m) | None \<Rightarrow> (d, map_put k d m))"

definition map_wf :: "('k::linorder \<times> 'v) list \<Rightarrow> bool" where
  "map_wf m \<longleftrightarrow> sorted (map fst m) \<and> distinct (map fst m)"

lemma set_map_put: "set (map fst (map_put k v m)) = insert k (set (map fst m))"
  by (induction k v m rule: map_put.induct) auto

lemma map_wf_Nil: "map_wf []"
  by (simp add: map_wf_def)

lemma map_get_Nil: "map_get [] = (\<lambda>_. None)"
  by (simp add: map_get_def fun_eq_iff)

lemma map_wf_Cons:
  "map_wf ((k, v) # m) \<longleftrightarrow> (\<forall>k' \<in> set (map fst m). k < k') \<and> map_wf m"
  by (auto simp: map_wf_def order.strict_iff_order)

lemma map_wf_put: "map_wf m \<Longrightarrow> map_wf (map_put k v m)"
proof (induction k v m rule: map_put.induct)
  case (2 k v k' v' m)
  then show ?case
    using set_map_put [of k v m] by (auto simp: map_wf_Cons)
qed (simp add: map_wf_def)

lemma map_get_put: "map_wf m \<Longrightarrow> map_get (map_put k v m) = (map_get m)(k \<mapsto> v)"
proof (induction k v m rule: map_put.induct)
  case (2 k v k' v' m)
  then show ?case by (auto simp: map_get_def map_wf_Cons fun_eq_iff)
qed (simp add: map_get_def fun_eq_iff)

lemma map_wf_insert: "map_wf m \<Longrightarrow> map_wf (map_insert k v m)"
  by (simp add: map_insert_def map_wf_put split: option.split)

lemma map_get_put_other: "k' \<noteq> k \<Longrightarrow> map_get (map_put k v m) k' = map_get m k'"
  by (induction k v m rule: map_put.induct) (auto simp: map_get_def)

lemma map_wf_erase: "map_wf m \<Longrightarrow> map_wf (map_erase k m)"
  by (induction m) (auto simp: map_wf_Cons map_erase_def map_wf_def)

lemma map_get_erase: "map_get (map_erase k m) = (map_get m)(k := None)"
  by (induction m) (auto simp: map_get_def map_erase_def fun_eq_iff)

locale ordered_map =
  fixes invar :: "'m \<Rightarrow> bool"
    and empty :: 'm
    and lookup :: "'m \<Rightarrow> 'k \<Rightarrow> 'v option"
    and update :: "'k \<Rightarrow> 'v \<Rightarrow> 'm \<Rightarrow> 'm"
    and erase :: "'k \<Rightarrow> 'm \<Rightarrow> 'm"
  assumes invar_empty: "invar empty"
    and lookup_empty: "lookup empty = (\<lambda>_. None)"
    and invar_update: "invar m \<Longrightarrow> invar (update k v m)"
    and lookup_update: "invar m \<Longrightarrow> lookup (update k v m) = (lookup m)(k \<mapsto> v)"
    and invar_erase: "invar m \<Longrightarrow> invar (erase k m)"
    and lookup_erase: "invar m \<Longrightarrow> lookup (erase k m) = (lookup m)(k := None)"
begin

text \<open>A sequence of updates, the last one of a key winning.\<close>

lemma fold_update:
  "invar m \<Longrightarrow> invar (fold (\<lambda>(k, v). update k v) kvs m) \<and>
     lookup (fold (\<lambda>(k, v). update k v) kvs m) = lookup m ++ map_of (rev kvs)"
proof (induction kvs arbitrary: m)
  case (Cons kv kvs)
  then show ?case
    by (cases kv) (simp add: invar_update lookup_update map_add_upd_left fun_upd_def
        map_add_def fun_eq_iff split: option.splits)
qed simp

lemma invar_fold_update: "invar m \<Longrightarrow> invar (fold (\<lambda>(k, v). update k v) kvs m)"
  by (simp add: fold_update)

lemma lookup_fold_update:
  "invar m \<Longrightarrow> lookup (fold (\<lambda>(k, v). update k v) kvs m) = lookup m ++ map_of (rev kvs)"
  by (simp add: fold_update)

end

interpretation std_map: ordered_map map_wf "[]" map_get map_put map_erase
  by unfold_locales
    (simp_all add: map_wf_put map_get_put map_wf_erase map_get_erase map_wf_Nil map_get_Nil)

text \<open>A sorted association list is determined by its lookups.\<close>

lemma map_wf_eqI:
  assumes "map_wf m" and "map_wf m'" and "map_get m = map_get m'"
  shows "m = m'"
proof (rule map_sorted_distinct_set_unique [where f = fst])
  have eq: "(k, v) \<in> set m \<longleftrightarrow> (k, v) \<in> set m'" for k v
    using assms by (metis map_get_def map_wf_def map_of_eq_Some_iff)
  then show s: "set m = set m'" by auto
  from assms show "inj_on fst (set m \<union> set m')"
    unfolding s by (simp add: map_wf_def distinct_map)
qed (use assms in \<open>simp_all add: map_wf_def\<close>)

end
