(* ===== verification/Reactor.thy ===== *)
theory Reactor
  imports Fd_Event Std_Lib
begin

text \<open>
  The event loop: \<open>net/base/reactor.h\<close>, \<open>net/base/reactor.cc\<close>, and the methods of \<open>FdEvent\<close>
  that call it. The kernel's interest set is part of the reactor (\<open>m_epoll\<close>), the results of
  \<open>epoll_wait\<close> are arguments. Coroutines, tasks and callbacks are application code: \<open>exec\<close>
  runs one of them and may change everything, as they do through the public operations.
\<close>

section \<open>The reactor\<close>

datatype reactor_type = MainReactor | SubReactor

datatype epoll_data = Data_Fd int | Data_Ptr nat

type_synonym epoll_event = "32 word \<times> epoll_data"

record 'cb reactor =
  m_epoll :: "int \<Rightarrow> epoll_event option"
  m_open :: "int \<Rightarrow> bool"
  m_wake_fd :: int
  m_wakeups :: nat
  m_timer_fd :: int
  m_stop_flag :: bool
  m_is_looping :: bool
  m_fds :: "int list"
  m_pending_add_fds :: "(int \<times> epoll_event) list"
  m_pending_del_fds :: "int list"
  m_pending_tasks :: "'cb option list"
  m_reactor_type :: reactor_type

text \<open>
  \<open>epoll_ctl\<close>: adding fails for a descriptor that is already there or is not open, modifying
  and deleting fail for one that is not there.
\<close>

datatype epoll_op = CTL_ADD | CTL_MOD | CTL_DEL

definition epoll_ctl ::
  "epoll_op \<Rightarrow> int \<Rightarrow> epoll_event \<Rightarrow> 'cb reactor \<Rightarrow> bool \<times> 'cb reactor" where
  "epoll_ctl op fd event r =
     (case op of
        CTL_ADD \<Rightarrow> if m_open r fd \<and> m_epoll r fd = None
                   then (True, r\<lparr>m_epoll := (m_epoll r)(fd \<mapsto> event)\<rparr>) else (False, r)
      | CTL_MOD \<Rightarrow> if m_epoll r fd \<noteq> None
                   then (True, r\<lparr>m_epoll := (m_epoll r)(fd \<mapsto> event)\<rparr>) else (False, r)
      | CTL_DEL \<Rightarrow> if m_epoll r fd \<noteq> None
                   then (True, r\<lparr>m_epoll := (m_epoll r)(fd := None)\<rparr>) else (False, r))"

definition addWakeupFd :: "'cb reactor \<Rightarrow> 'cb reactor" where
  "addWakeupFd r =
     (let r = snd (epoll_ctl CTL_ADD (m_wake_fd r) (io_flag READ, Data_Fd (m_wake_fd r)) r)
      in r\<lparr>m_fds := m_fds r @ [m_wake_fd r]\<rparr>)"

text \<open>The constructor, once \<open>epoll_create\<close> and \<open>eventfd\<close> have succeeded.\<close>

definition new_Reactor :: "(int \<Rightarrow> bool) \<Rightarrow> int \<Rightarrow> 'cb reactor" where
  "new_Reactor opn wake_fd =
     addWakeupFd
       \<lparr>m_epoll = (\<lambda>_. None), m_open = opn, m_wake_fd = wake_fd, m_wakeups = 0, m_timer_fd = -1,
        m_stop_flag = False, m_is_looping = False, m_fds = [], m_pending_add_fds = [],
        m_pending_del_fds = [], m_pending_tasks = [], m_reactor_type = SubReactor\<rparr>"

definition wakeup :: "'cb reactor \<Rightarrow> 'cb reactor" where
  "wakeup r = (if \<not> m_is_looping r then r else r\<lparr>m_wakeups := m_wakeups r + 1\<rparr>)"

definition addEventInLoopThread :: "int \<Rightarrow> epoll_event \<Rightarrow> 'cb reactor \<Rightarrow> 'cb reactor" where
  "addEventInLoopThread fd event r =
     (let is_add = (fd \<notin> set (m_fds r));
          op = (if is_add then CTL_ADD else CTL_MOD)
      in case epoll_ctl op fd event r of (ok, r) \<Rightarrow>
           if \<not> ok then r
           else if is_add then r\<lparr>m_fds := m_fds r @ [fd]\<rparr> else r)"

definition delEventInLoopThread :: "int \<Rightarrow> 'cb reactor \<Rightarrow> 'cb reactor" where
  "delEventInLoopThread fd r =
     (if fd \<notin> set (m_fds r) then r
      else let r = snd (epoll_ctl CTL_DEL fd (0, Data_Fd fd) r)
           in r\<lparr>m_fds := remove1 fd (m_fds r)\<rparr>)"

text \<open>\<open>loop_thread\<close> says whether the caller runs on the reactor's own thread.\<close>

definition addEvent :: "bool \<Rightarrow> int \<Rightarrow> epoll_event \<Rightarrow> bool \<Rightarrow> 'cb reactor \<Rightarrow> 'cb reactor" where
  "addEvent loop_thread fd event is_wakeup r =
     (if fd = -1 then r
      else if loop_thread then addEventInLoopThread fd event r
      else let r = r\<lparr>m_pending_add_fds := map_insert fd event (m_pending_add_fds r)\<rparr>
           in if is_wakeup then wakeup r else r)"

definition delEvent :: "bool \<Rightarrow> int \<Rightarrow> bool \<Rightarrow> 'cb reactor \<Rightarrow> 'cb reactor" where
  "delEvent loop_thread fd is_wakeup r =
     (if fd = -1 then r
      else if loop_thread then delEventInLoopThread fd r
      else let r = r\<lparr>m_pending_del_fds := m_pending_del_fds r @ [fd]\<rparr>
           in if is_wakeup then wakeup r else r)"

definition addTask :: "'cb option \<Rightarrow> bool \<Rightarrow> 'cb reactor \<Rightarrow> 'cb reactor" where
  "addTask task is_wakeup r =
     (let r = r\<lparr>m_pending_tasks := m_pending_tasks r @ [task]\<rparr>
      in if is_wakeup then wakeup r else r)"

definition addTasks :: "'cb option list \<Rightarrow> bool \<Rightarrow> 'cb reactor \<Rightarrow> 'cb reactor" where
  "addTasks task is_wakeup r =
     (if task = [] then r
      else let r = r\<lparr>m_pending_tasks := m_pending_tasks r @ task\<rparr>
           in if is_wakeup then wakeup r else r)"

text \<open>\<open>addCoroutine\<close>: \<open>resume_task cor\<close> is the closure that resumes the coroutine.\<close>

definition addCoroutine :: "(nat \<Rightarrow> 'cb) \<Rightarrow> nat \<Rightarrow> bool \<Rightarrow> 'cb reactor \<Rightarrow> 'cb reactor" where
  "addCoroutine resume_task cor is_wakeup r = addTask (Some (resume_task cor)) is_wakeup r"

definition stop :: "'cb reactor \<Rightarrow> 'cb reactor" where
  "stop r = (if \<not> m_stop_flag r \<and> m_is_looping r then wakeup (r\<lparr>m_stop_flag := True\<rparr>) else r)"

definition setReactorType :: "reactor_type \<Rightarrow> 'cb reactor \<Rightarrow> 'cb reactor" where
  "setReactorType ty r = r\<lparr>m_reactor_type := ty\<rparr>"

section \<open>FdEvent on its reactor\<close>

text \<open>
  \<open>self\<close> is the address of the event, \<open>this_thread\<close> the reactor of the calling thread, which
  an event without one adopts; \<open>r\<close> is the reactor the event has after that.
\<close>

definition updateToReactor ::
  "nat \<Rightarrow> bool \<Rightarrow> nat \<Rightarrow> 'cb fd_event \<times> 'cb reactor \<Rightarrow> 'cb fd_event \<times> 'cb reactor" where
  "updateToReactor this_thread loop_thread self st =
     (case st of (e, r) \<Rightarrow>
        let e = (if m_reactor e = None then setReactor (Some this_thread) e else e)
        in (e, addEvent loop_thread (m_fd e) (m_listen_events e, Data_Ptr self) True r))"

definition addListenEvents ::
  "nat \<Rightarrow> bool \<Rightarrow> nat \<Rightarrow> io_event \<Rightarrow> 'cb fd_event \<times> 'cb reactor \<Rightarrow> 'cb fd_event \<times> 'cb reactor" where
  "addListenEvents this_thread loop_thread self event st =
     (case st of (e, r) \<Rightarrow>
        if m_listen_events e AND io_flag event \<noteq> 0 then (e, r)
        else updateToReactor this_thread loop_thread self
               (e\<lparr>m_listen_events := m_listen_events e OR io_flag event\<rparr>, r))"

definition delListenEvents ::
  "nat \<Rightarrow> bool \<Rightarrow> nat \<Rightarrow> io_event \<Rightarrow> 'cb fd_event \<times> 'cb reactor \<Rightarrow> 'cb fd_event \<times> 'cb reactor" where
  "delListenEvents this_thread loop_thread self event st =
     (case st of (e, r) \<Rightarrow>
        if m_listen_events e AND io_flag event \<noteq> 0 then
          updateToReactor this_thread loop_thread self
            (e\<lparr>m_listen_events := m_listen_events e AND NOT (io_flag event)\<rparr>, r)
        else (e, r))"

definition unregisterFromReactor ::
  "nat \<Rightarrow> bool \<Rightarrow> 'cb fd_event \<times> 'cb reactor \<Rightarrow> 'cb fd_event \<times> 'cb reactor" where
  "unregisterFromReactor this_thread loop_thread st =
     (case st of (e, r) \<Rightarrow>
        let e = (if m_reactor e = None then setReactor (Some this_thread) e else e);
            r = delEvent loop_thread (m_fd e) True r
        in (e\<lparr>m_listen_events := 0, m_read_callback := None, m_write_callback := None\<rparr>, r))"

section \<open>The queue of coroutines and the loop\<close>

record ('cb, 'w) sys =
  reactor :: "'cb reactor"
  fd_events :: "nat \<Rightarrow> 'cb fd_event"
  m_task_queue :: "nat list"
  world :: 'w

datatype 'cb act = Resume nat | Call 'cb

definition task_push :: "nat \<Rightarrow> ('cb, 'w) sys \<Rightarrow> ('cb, 'w) sys" where
  "task_push fd s = s\<lparr>m_task_queue := m_task_queue s @ [fd]\<rparr>"

definition task_pop :: "('cb, 'w) sys \<Rightarrow> nat option \<times> ('cb, 'w) sys" where
  "task_pop s =
     (case m_task_queue s of
        [] \<Rightarrow> (None, s)
      | re # rest \<Rightarrow> (Some re, s\<lparr>m_task_queue := rest\<rparr>))"

definition on_reactor :: "('cb reactor \<Rightarrow> 'cb reactor) \<Rightarrow> ('cb, 'w) sys \<Rightarrow> ('cb, 'w) sys" where
  "on_reactor f s = s\<lparr>reactor := f (reactor s)\<rparr>"

definition on_event :: "nat \<Rightarrow> ('cb fd_event \<Rightarrow> 'cb fd_event) \<Rightarrow> ('cb, 'w) sys \<Rightarrow> ('cb, 'w) sys" where
  "on_event p f s = s\<lparr>fd_events := (fd_events s)(p := f (fd_events s p))\<rparr>"

text \<open>\<open>Coroutine::Resume(ptr->getCoroutine())\<close> is given the coroutine of the event.\<close>

definition resume_of ::
  "('cb act \<Rightarrow> ('cb, 'w) sys \<Rightarrow> ('cb, 'w) sys) \<Rightarrow> nat \<Rightarrow> ('cb, 'w) sys \<Rightarrow> ('cb, 'w) sys" where
  "resume_of exec p s =
     (case m_coroutine (fd_events s p) of None \<Rightarrow> s | Some cor \<Rightarrow> exec (Resume cor) s)"

text \<open>
  The first part of an iteration: the remembered coroutine, the queue, the tasks. The queue
  can be refilled while it is emptied, so its loop has fuel; \<open>self\<close> is the reactor's address.
\<close>

fun drain_queue ::
  "nat \<Rightarrow> ('cb act \<Rightarrow> ('cb, 'w) sys \<Rightarrow> ('cb, 'w) sys) \<Rightarrow> nat \<Rightarrow> ('cb, 'w) sys \<Rightarrow> ('cb, 'w) sys option" where
  "drain_queue 0 exec self s = None"
| "drain_queue (Suc n) exec self s =
     (case task_pop s of
        (None, s) \<Rightarrow> Some s
      | (Some p, s) \<Rightarrow>
          drain_queue n exec self (resume_of exec p (on_event p (setReactor (Some self)) s)))"

definition run_tasks ::
  "('cb act \<Rightarrow> ('cb, 'w) sys \<Rightarrow> ('cb, 'w) sys) \<Rightarrow> ('cb, 'w) sys \<Rightarrow> ('cb, 'w) sys" where
  "run_tasks exec s =
     (let tmp_tasks = m_pending_tasks (reactor s);
          s = on_reactor (\<lambda>r. r\<lparr>m_pending_tasks := []\<rparr>) s
      in fold (\<lambda>t s. case t of None \<Rightarrow> s | Some cb \<Rightarrow> exec (Call cb) s) tmp_tasks s)"

text \<open>
  One event of \<open>epoll_wait\<close>; \<open>first\<close> is \<open>first_coroutine\<close>. The union \<open>data\<close> is read as a
  descriptor for the wake-up event alone; as an address, a descriptor points nowhere.
\<close>

definition handle_event ::
  "('cb act \<Rightarrow> ('cb, 'w) sys \<Rightarrow> ('cb, 'w) sys) \<Rightarrow> epoll_event \<Rightarrow> nat option \<times> ('cb, 'w) sys \<Rightarrow>
   (nat option \<times> ('cb, 'w) sys) res" where
  "handle_event exec one_event st =
     (case st of (first, s) \<Rightarrow>
      case one_event of (events, data) \<Rightarrow>
      if data = Data_Fd (m_wake_fd (reactor s)) \<and> events AND io_flag READ \<noteq> 0 then
        Inr (first, on_reactor (\<lambda>r. r\<lparr>m_wakeups := 0\<rparr>) s)
      else case data of
        Data_Fd _ \<Rightarrow> Inl Out_Of_Bounds
      | Data_Ptr p \<Rightarrow>
          let fd = m_fd (fd_events s p) in
          if events AND io_flag READ = 0 \<and> events AND io_flag WRITE = 0 then
            Inr (first, on_reactor (delEventInLoopThread fd) s)
          else case m_coroutine (fd_events s p) of
            Some cor \<Rightarrow>
              if first = None then Inr (Some cor, s)
              else if m_reactor_type (reactor s) = SubReactor then
                Inr (first, task_push p (on_event p (setReactor None)
                              (on_reactor (delEventInLoopThread fd) s)))
              else Inr (None, exec (Resume cor) s)
          | None \<Rightarrow>
              let read_cb = getCallBack READ (fd_events s p);
                  write_cb = getCallBack WRITE (fd_events s p)
              in if fd = m_timer_fd (reactor s) then
                   (case read_cb of None \<Rightarrow> Inl Bad_Function_Call
                                  | Some cb \<Rightarrow> Inr (first, exec (Call cb) s))
                 else
                   let s = (if events AND io_flag READ \<noteq> 0
                            then on_reactor (addTask read_cb False) s else s);
                       s = (if events AND io_flag WRITE \<noteq> 0
                            then on_reactor (addTask write_cb False) s else s)
                   in Inr (first, s))"

fun handle_events ::
  "('cb act \<Rightarrow> ('cb, 'w) sys \<Rightarrow> ('cb, 'w) sys) \<Rightarrow> epoll_event list \<Rightarrow> nat option \<times> ('cb, 'w) sys \<Rightarrow>
   (nat option \<times> ('cb, 'w) sys) res" where
  "handle_events exec [] st = Inr st"
| "handle_events exec (ev # evs) st = bindE (handle_event exec ev st) (handle_events exec evs)"

definition apply_pending :: "'cb reactor \<Rightarrow> 'cb reactor" where
  "apply_pending r =
     (let tmp_add = m_pending_add_fds r;
          tmp_del = m_pending_del_fds r;
          r = r\<lparr>m_pending_add_fds := [], m_pending_del_fds := []\<rparr>;
          r = fold (\<lambda>(fd, ev) r. addEventInLoopThread fd ev r) tmp_add r
      in fold delEventInLoopThread tmp_del r)"

text \<open>One turn of \<open>loop\<close>. \<open>wait\<close> is the result of \<open>epoll_wait\<close>, \<open>None\<close> for an error.\<close>

definition loop_iteration ::
  "nat \<Rightarrow> ('cb act \<Rightarrow> ('cb, 'w) sys \<Rightarrow> ('cb, 'w) sys) \<Rightarrow> nat \<Rightarrow> epoll_event list option \<Rightarrow>
   nat option \<times> ('cb, 'w) sys \<Rightarrow> (nat option \<times> ('cb, 'w) sys) res option" where
  "loop_iteration fuel exec self wait st =
     (case st of (first, s) \<Rightarrow>
        let s = (case first of None \<Rightarrow> s | Some cor \<Rightarrow> exec (Resume cor) s);
            first = None :: nat option
        in case (if m_reactor_type (reactor s) \<noteq> MainReactor then drain_queue fuel exec self s
                 else Some s) of
             None \<Rightarrow> None
           | Some s \<Rightarrow>
               let s = run_tasks exec s in
               Some (case wait of
                 None \<Rightarrow> Inr (first, s)
               | Some re_events \<Rightarrow>
                   bindE (handle_events exec (take 10 re_events) (first, s)) (\<lambda>(first, s).
                   Inr (first, on_reactor apply_pending s))))"

text \<open>\<open>loop\<close> over the results of \<open>epoll_wait\<close>; \<open>None\<close> when they run out before a stop.\<close>

fun loop_turns ::
  "nat \<Rightarrow> ('cb act \<Rightarrow> ('cb, 'w) sys \<Rightarrow> ('cb, 'w) sys) \<Rightarrow> nat \<Rightarrow> epoll_event list option list \<Rightarrow>
   nat option \<times> ('cb, 'w) sys \<Rightarrow> ('cb, 'w) sys res option" where
  "loop_turns fuel exec self waits (first, s) =
     (if m_stop_flag (reactor s) then
        Some (Inr (on_reactor (\<lambda>r. r\<lparr>m_is_looping := False\<rparr>) s))
      else case waits of
        [] \<Rightarrow> None
      | wait # waits \<Rightarrow>
          (case loop_iteration fuel exec self wait (first, s) of
             None \<Rightarrow> None
           | Some (Inl e) \<Rightarrow> Some (Inl e)
           | Some (Inr st) \<Rightarrow> loop_turns fuel exec self waits st))"

declare loop_turns.simps [simp del]

definition reactor_loop ::
  "nat \<Rightarrow> ('cb act \<Rightarrow> ('cb, 'w) sys \<Rightarrow> ('cb, 'w) sys) \<Rightarrow> nat \<Rightarrow> epoll_event list option list \<Rightarrow>
   ('cb, 'w) sys \<Rightarrow> ('cb, 'w) sys res option" where
  "reactor_loop fuel exec self waits s =
     (if m_is_looping (reactor s) then Some (Inr s)
      else loop_turns fuel exec self waits
             (None, on_reactor (\<lambda>r. r\<lparr>m_is_looping := True, m_stop_flag := False\<rparr>) s))"

section \<open>The reactor and the kernel agree\<close>

definition reactor_wf :: "'cb reactor \<Rightarrow> bool" where
  "reactor_wf r \<longleftrightarrow>
     distinct (m_fds r) \<and> (\<forall>fd. fd \<in> set (m_fds r) \<longleftrightarrow> m_epoll r fd \<noteq> None) \<and>
     map_wf (m_pending_add_fds r)"

lemma reactor_wf_add:
  assumes "reactor_wf r"
  shows "reactor_wf (addEventInLoopThread fd ev r)"
    and "m_epoll (addEventInLoopThread fd ev r) =
      (if m_open r fd \<or> m_epoll r fd \<noteq> None then (m_epoll r)(fd \<mapsto> ev) else m_epoll r)"
    and "m_open (addEventInLoopThread fd ev r) = m_open r"
  using assms
  by (cases "m_epoll r fd";
      auto simp: addEventInLoopThread_def epoll_ctl_def reactor_wf_def Let_def fun_eq_iff)+

lemma reactor_wf_del:
  assumes "reactor_wf r"
  shows "reactor_wf (delEventInLoopThread fd r)"
    and "m_epoll (delEventInLoopThread fd r) = (m_epoll r)(fd := None)"
    and "m_open (delEventInLoopThread fd r) = m_open r"
  using assms
  by (cases "m_epoll r fd";
      auto simp: delEventInLoopThread_def epoll_ctl_def reactor_wf_def Let_def fun_eq_iff)+

lemma fields_in_loop [simp]:
  "m_wake_fd (addEventInLoopThread fd ev r) = m_wake_fd r"
  "m_wake_fd (delEventInLoopThread fd r) = m_wake_fd r"
  "m_pending_add_fds (addEventInLoopThread fd ev r) = m_pending_add_fds r"
  "m_pending_add_fds (delEventInLoopThread fd r) = m_pending_add_fds r"
  "m_pending_del_fds (addEventInLoopThread fd ev r) = m_pending_del_fds r"
  "m_pending_del_fds (delEventInLoopThread fd r) = m_pending_del_fds r"
  "m_reactor_type (delEventInLoopThread fd r) = m_reactor_type r"
  "m_timer_fd (delEventInLoopThread fd r) = m_timer_fd r"
  by (simp_all add: addEventInLoopThread_def delEventInLoopThread_def epoll_ctl_def Let_def)

lemma wakeup_fields [simp]:
  "m_epoll (wakeup r) = m_epoll r" "m_fds (wakeup r) = m_fds r" "m_open (wakeup r) = m_open r"
  "m_wake_fd (wakeup r) = m_wake_fd r" "m_pending_add_fds (wakeup r) = m_pending_add_fds r"
  "m_pending_del_fds (wakeup r) = m_pending_del_fds r"
  by (simp_all add: wakeup_def)

lemma fold_add:
  assumes "reactor_wf r" and "\<forall>(fd, ev) \<in> set adds. m_open r fd" and "distinct (map fst adds)"
  shows "reactor_wf (fold (\<lambda>(fd, ev) r. addEventInLoopThread fd ev r) adds r) \<and>
    m_epoll (fold (\<lambda>(fd, ev) r. addEventInLoopThread fd ev r) adds r) x =
      (case map_of adds x of Some ev \<Rightarrow> Some ev | None \<Rightarrow> m_epoll r x)"
  using assms
proof (induction adds arbitrary: r)
  case (Cons a adds)
  obtain fd ev where a: "a = (fd, ev)" by (cases a)
  let ?r = "addEventInLoopThread fd ev r"
  from Cons.prems have "reactor_wf ?r" "\<forall>(fd, ev) \<in> set adds. m_open ?r fd"
    "m_epoll ?r = (m_epoll r)(fd \<mapsto> ev)"
    by (auto simp: a reactor_wf_add)
  moreover have "map_of adds fd = None" using Cons.prems(3) by (simp add: a map_of_eq_None_iff)
  ultimately show ?case
    using Cons.IH [of ?r] Cons.prems(3) by (simp add: a split: option.split)
qed simp

lemma fold_del:
  assumes "reactor_wf r"
  shows "reactor_wf (fold delEventInLoopThread dels r) \<and>
    m_epoll (fold delEventInLoopThread dels r) = (\<lambda>fd. if fd \<in> set dels then None else m_epoll r fd)"
  using assms by (induction dels arbitrary: r) (auto simp: reactor_wf_del fun_eq_iff)

lemma fold_fields [simp]:
  "m_wake_fd (fold (\<lambda>(fd, ev) r. addEventInLoopThread fd ev r) adds r) = m_wake_fd r"
  "m_pending_add_fds (fold (\<lambda>(fd, ev) r. addEventInLoopThread fd ev r) adds r) = m_pending_add_fds r"
  "m_pending_del_fds (fold (\<lambda>(fd, ev) r. addEventInLoopThread fd ev r) adds r) = m_pending_del_fds r"
  by (induction adds arbitrary: r) auto

lemma fold_del_fields [simp]:
  "m_wake_fd (fold delEventInLoopThread dels r) = m_wake_fd r"
  "m_pending_add_fds (fold delEventInLoopThread dels r) = m_pending_add_fds r"
  "m_pending_del_fds (fold delEventInLoopThread dels r) = m_pending_del_fds r"
  by (induction dels arbitrary: r) auto

lemma apply_pending_spec:
  assumes wf: "reactor_wf r" and opn: "\<forall>(fd, ev) \<in> set (m_pending_add_fds r). m_open r fd"
  shows "reactor_wf (apply_pending r) \<and>
    m_epoll (apply_pending r) =
      (\<lambda>fd. if fd \<in> set (m_pending_del_fds r) then None
            else case map_get (m_pending_add_fds r) fd of Some ev \<Rightarrow> Some ev | None \<Rightarrow> m_epoll r fd)"
proof -
  let ?r = "r\<lparr>m_pending_add_fds := [], m_pending_del_fds := []\<rparr>"
  let ?a = "fold (\<lambda>(fd, ev) r. addEventInLoopThread fd ev r) (m_pending_add_fds r) ?r"
  from wf have "reactor_wf ?r" by (simp add: reactor_wf_def map_wf_Nil)
  moreover have "distinct (map fst (m_pending_add_fds r))" using wf by (simp add: reactor_wf_def map_wf_def)
  ultimately have "reactor_wf ?a" "\<And>x. m_epoll ?a x =
      (case map_get (m_pending_add_fds r) x of Some ev \<Rightarrow> Some ev | None \<Rightarrow> m_epoll r x)"
    using fold_add [of ?r "m_pending_add_fds r"] opn
    by (simp_all add: map_get_def split: option.split)
  then show ?thesis using fold_del [of ?a "m_pending_del_fds r"]
    by (auto simp: apply_pending_def Let_def fun_eq_iff)
qed

section \<open>Reachable reactors\<close>

text \<open>
  A reactor during its life: its public operations in any order, from any thread, and the
  processing of what is pending. Application code does not touch the wake-up descriptor.
\<close>

inductive reactor_reach :: "'cb reactor \<Rightarrow> bool" where
  start: "opn w \<Longrightarrow> reactor_reach (new_Reactor opn w)"
| add: "reactor_reach r \<Longrightarrow> fd \<noteq> m_wake_fd r \<Longrightarrow> reactor_reach (addEvent lt fd ev wk r)"
| del: "reactor_reach r \<Longrightarrow> fd \<noteq> m_wake_fd r \<Longrightarrow> reactor_reach (delEvent lt fd wk r)"
| task: "reactor_reach r \<Longrightarrow> reactor_reach (addTask t wk r)"
| tasks: "reactor_reach r \<Longrightarrow> reactor_reach (addTasks ts wk r)"
| stop: "reactor_reach r \<Longrightarrow> reactor_reach (stop r)"
| set_type: "reactor_reach r \<Longrightarrow> reactor_reach (setReactorType ty r)"
| pending: "reactor_reach r \<Longrightarrow> reactor_reach (apply_pending r)"

definition wake_wf :: "'cb reactor \<Rightarrow> bool" where
  "wake_wf r \<longleftrightarrow> reactor_wf r \<and>
     m_epoll r (m_wake_fd r) = Some (io_flag READ, Data_Fd (m_wake_fd r)) \<and>
     m_wake_fd r \<notin> fst ` set (m_pending_add_fds r) \<and> m_wake_fd r \<notin> set (m_pending_del_fds r)"

lemma wake_wf_new: "opn w \<Longrightarrow> wake_wf (new_Reactor opn w)"
  by (auto simp: wake_wf_def reactor_wf_def new_Reactor_def addWakeupFd_def epoll_ctl_def map_wf_Nil)

lemma fst_set_map_insert: "fst ` set (map_insert k v m) = insert k (fst ` set m)"
  using set_map_put [of k v m]
  by (auto simp: map_insert_def map_get_def map_of_eq_None_iff domI split: option.split
      dest: map_of_SomeD intro: rev_image_eqI)

lemma wake_wf_addEvent: "wake_wf r \<Longrightarrow> fd \<noteq> m_wake_fd r \<Longrightarrow> wake_wf (addEvent lt fd ev wk r)"
  by (auto simp: addEvent_def wake_wf_def reactor_wf_add Let_def fst_set_map_insert)
    (auto simp: reactor_wf_def map_wf_insert)

lemma wake_wf_delEvent: "wake_wf r \<Longrightarrow> fd \<noteq> m_wake_fd r \<Longrightarrow> wake_wf (delEvent lt fd wk r)"
  by (auto simp: delEvent_def wake_wf_def reactor_wf_del Let_def) (auto simp: reactor_wf_def)

text \<open>Processing the pending requests, when some descriptors may have been closed meanwhile.\<close>

lemma fold_add_wf:
  assumes "reactor_wf r" and "w \<notin> fst ` set adds"
  shows "reactor_wf (fold (\<lambda>(fd, ev) r. addEventInLoopThread fd ev r) adds r) \<and>
    m_epoll (fold (\<lambda>(fd, ev) r. addEventInLoopThread fd ev r) adds r) w = m_epoll r w"
  using assms by (induction adds arbitrary: r) (auto simp: reactor_wf_add)

lemma wake_wf_apply_pending:
  assumes "wake_wf r"
  shows "wake_wf (apply_pending r)"
proof -
  let ?r = "r\<lparr>m_pending_add_fds := [], m_pending_del_fds := []\<rparr>"
  let ?a = "fold (\<lambda>(fd, ev) r. addEventInLoopThread fd ev r) (m_pending_add_fds r) ?r"
  from assms have "reactor_wf ?r" by (simp add: wake_wf_def reactor_wf_def map_wf_Nil)
  with assms have a: "reactor_wf ?a" "m_epoll ?a (m_wake_fd r) = m_epoll r (m_wake_fd r)"
    using fold_add_wf [of ?r "m_wake_fd r" "m_pending_add_fds r"] by (auto simp: wake_wf_def)
  with assms fold_del [of ?a "m_pending_del_fds r"] show ?thesis
    by (auto simp: wake_wf_def apply_pending_def Let_def)
qed

lemma wake_wf_tasks:
  assumes "wake_wf r"
  shows "wake_wf (addTask t wk r)" and "wake_wf (addTasks ts wk r)" and "wake_wf (stop r)"
    and "wake_wf (setReactorType ty r)"
  using assms
  by (auto simp: addTask_def addTasks_def stop_def setReactorType_def wake_wf_def reactor_wf_def
      wakeup_def Let_def)

lemma reactor_reach_wake_wf: "reactor_reach r \<Longrightarrow> wake_wf r"
  by (induction rule: reactor_reach.induct)
    (simp_all add: wake_wf_new wake_wf_apply_pending wake_wf_addEvent wake_wf_delEvent wake_wf_tasks)

text \<open>Setting the bits of a mask and clearing them again.\<close>

lemma mask_set_clear:
  fixes w f :: "32 word"
  assumes "w AND f = 0" and "f \<noteq> 0"
  shows "(w OR f) AND NOT f = w" and "(w OR f) AND f \<noteq> 0"
proof -
  have b: "\<not> (bit w n \<and> bit f n)" for n
    using assms(1) by (metis bit_0_eq bit_and_iff bot_apply bot_bool_def)
  show "(w OR f) AND NOT f = w"
    by (rule bit_word_eqI) (use b in \<open>auto simp: bit_simps\<close>)
  have "(w OR f) AND f = f"
    by (rule bit_word_eqI) (auto simp: bit_simps)
  with assms(2) show "(w OR f) AND f \<noteq> 0" by simp
qed

lemma reactor_wf_new: "opn w \<Longrightarrow> reactor_wf (new_Reactor opn w)"
  by (rule wake_wf_def [THEN iffD1, THEN conjunct1, OF wake_wf_new])

lemma reactor_wf_setReactorType: "reactor_wf r \<Longrightarrow> reactor_wf (setReactorType ty r)"
  by (simp add: reactor_wf_def setReactorType_def)

section \<open>Ready coroutines\<close>

text \<open>The events \<open>ps\<close> are readable, each belongs to a coroutine, and they are different descriptors.\<close>

definition ready_events :: "nat list \<Rightarrow> epoll_event list" where
  "ready_events ps = map (\<lambda>p. (io_flag READ, Data_Ptr p)) ps"

definition all_coroutines :: "nat list \<Rightarrow> ('cb, 'w) sys \<Rightarrow> bool" where
  "all_coroutines ps s \<longleftrightarrow> distinct ps \<and> (\<forall>p \<in> set ps. m_coroutine (fd_events s p) \<noteq> None)"

lemma handle_ready:
  assumes "m_coroutine (fd_events s p) = Some cor"
  shows "handle_event exec (io_flag READ, Data_Ptr p) (first, s) =
    (if first = None then Inr (Some cor, s)
     else if m_reactor_type (reactor s) = SubReactor then
       Inr (first, task_push p (on_event p (setReactor None)
              (on_reactor (delEventInLoopThread (m_fd (fd_events s p))) s)))
     else Inr (None, exec (Resume cor) s))"
  using assms by (simp add: handle_event_def Let_def io_flag_def)

lemma handle_ready_sub:
  assumes "m_reactor_type (reactor s) = SubReactor" and "all_coroutines ps s"
    and "reactor_wf (reactor s)"
  shows "\<exists>s'. handle_events exec (ready_events ps) (Some c, s) = Inr (Some c, s') \<and>
    m_task_queue s' = m_task_queue s @ ps \<and> reactor_wf (reactor s') \<and>
    m_epoll (reactor s') =
      (\<lambda>fd. if fd \<in> (\<lambda>p. m_fd (fd_events s p)) ` set ps then None else m_epoll (reactor s) fd) \<and>
    (\<forall>p. m_coroutine (fd_events s' p) = m_coroutine (fd_events s p))"
  using assms
proof (induction ps arbitrary: s)
  case Nil
  then show ?case by (simp add: ready_events_def)
next
  case (Cons p ps)
  let ?fd = "m_fd (fd_events s p)"
  let ?s = "task_push p (on_event p (setReactor None) (on_reactor (delEventInLoopThread ?fd) s))"
  have f: "m_coroutine (fd_events ?s q) = m_coroutine (fd_events s q)"
    "m_fd (fd_events ?s q) = m_fd (fd_events s q)" for q
    by (simp_all add: task_push_def on_event_def on_reactor_def setReactor_def)
  have r: "m_task_queue ?s = m_task_queue s @ [p]" "m_reactor_type (reactor ?s) = SubReactor"
    "reactor_wf (reactor ?s)" "m_epoll (reactor ?s) = (m_epoll (reactor s))(?fd := None)"
    using Cons.prems by (simp_all add: task_push_def on_event_def on_reactor_def reactor_wf_del)
  from Cons.prems(2) f have "all_coroutines ps ?s" by (auto simp: all_coroutines_def)
  from Cons.IH [OF r(2) this r(3)] obtain s' where s':
    "handle_events exec (ready_events ps) (Some c, ?s) = Inr (Some c, s')"
    "m_task_queue s' = m_task_queue ?s @ ps" "reactor_wf (reactor s')"
    "m_epoll (reactor s') =
      (\<lambda>fd. if fd \<in> (\<lambda>p. m_fd (fd_events ?s p)) ` set ps then None else m_epoll (reactor ?s) fd)"
    "\<forall>p. m_coroutine (fd_events s' p) = m_coroutine (fd_events ?s p)"
    by blast
  from Cons.prems(2) obtain cor where "m_coroutine (fd_events s p) = Some cor"
    by (auto simp: all_coroutines_def)
  from handle_ready [OF this] Cons.prems(1)
  have "handle_events exec (ready_events (p # ps)) (Some c, s) = Inr (Some c, s')"
    using s'(1) by (simp add: ready_events_def)
  then show ?case using s'(2-5) r f by (auto simp: fun_eq_iff)
qed

section \<open>Properties\<close>


definition example_reactor :: "string reactor" where
  "example_reactor =
     addEvent False 9 (io_flag WRITE, Data_Ptr 9) True
       (addEvent True 8 (io_flag READ, Data_Ptr 8) True (new_Reactor (\<lambda>fd. 0 \<le> fd) 5))"

lemma example_reactor_reach: "reactor_reach example_reactor"
  unfolding example_reactor_def
  by (intro reactor_reach.add reactor_reach.start)
    (simp_all add: new_Reactor_def addWakeupFd_def epoll_ctl_def addEvent_def Let_def)


text \<open>
  What other threads have asked for takes effect at the end of a turn: the descriptors to
  delete are out, the descriptors to add are in with the event they were added with, all others
  keep theirs. A descriptor on both lists is deleted, in whatever order the requests came.
\<close>

theorem reactor_applies_pending:
  assumes "reactor_wf r" and "\<forall>(fd, ev) \<in> set (m_pending_add_fds r). m_open r fd"
  shows "reactor_wf (apply_pending r) \<and> m_pending_add_fds (apply_pending r) = [] \<and>
    m_pending_del_fds (apply_pending r) = [] \<and>
    m_epoll (apply_pending r) fd =
      (if fd \<in> set (m_pending_del_fds r) then None
       else case map_get (m_pending_add_fds r) fd of Some ev \<Rightarrow> Some ev | None \<Rightarrow> m_epoll r fd)"
  using apply_pending_spec [OF assms] by (simp add: apply_pending_def Let_def)

lemma reactor_applies_pending_witness:
  "m_epoll (apply_pending (delEvent False 8 True example_reactor)) 9 = Some (io_flag WRITE, Data_Ptr 9) \<and>
   m_epoll (apply_pending (delEvent False 8 True example_reactor)) 8 = None"
proof -
  let ?r = "delEvent False 8 True example_reactor"
  have p: "m_pending_add_fds ?r = [(9, (io_flag WRITE, Data_Ptr 9))]" "m_pending_del_fds ?r = [8]"
    "m_open ?r = (\<lambda>fd. 0 \<le> fd)"
    by (simp_all add: delEvent_def example_reactor_def addEvent_def new_Reactor_def addWakeupFd_def
        epoll_ctl_def map_insert_def map_get_def wakeup_def addEventInLoopThread_def Let_def)
  have "m_wake_fd example_reactor = 5"
    by (simp add: example_reactor_def addEvent_def new_Reactor_def addWakeupFd_def epoll_ctl_def Let_def)
  then have "reactor_reach ?r" by (intro reactor_reach.del example_reactor_reach) simp
  then have "reactor_wf ?r" using reactor_reach_wake_wf by (auto simp: wake_wf_def)
  moreover have "\<forall>(fd, ev) \<in> set (m_pending_add_fds ?r). m_open ?r fd" using p by simp
  ultimately show ?thesis
    using reactor_applies_pending [of ?r 9] reactor_applies_pending [of ?r 8] p by (simp add: map_get_def)
qed

text \<open>
  A second registration of a descriptor from another thread within one turn is dropped:
  the kernel gets the first event mask, and the later one is lost.
\<close>

theorem reactor_drops_second_update:
  assumes "reactor_wf r" and "m_pending_add_fds r = []" and "m_pending_del_fds r = []"
    and "fd \<noteq> -1" and "m_open r fd"
  shows "m_epoll (apply_pending (addEvent False fd ev' wk' (addEvent False fd ev wk r))) fd = Some ev"
proof -
  let ?r = "addEvent False fd ev' wk' (addEvent False fd ev wk r)"
  have p: "m_pending_add_fds ?r = [(fd, ev)]" "m_pending_del_fds ?r = []" "m_open ?r = m_open r"
    using assms by (simp_all add: addEvent_def Let_def map_insert_def map_get_def)
  have "reactor_wf ?r"
    using assms(1,4) p(1) by (auto simp: reactor_wf_def addEvent_def Let_def map_wf_def)
  from apply_pending_spec [OF this] p assms(5) show ?thesis by (simp add: map_get_def)
qed

lemma reactor_drops_second_update_witness:
  "m_epoll (apply_pending (addEvent False 7 (4, Data_Ptr 7) True
      (addEvent False 7 (1, Data_Ptr 7) True (new_Reactor (\<lambda>fd. 0 \<le> fd) 5 :: string reactor)))) 7
     = Some (1, Data_Ptr 7)"
proof -
  have "reactor_wf (new_Reactor (\<lambda>fd. 0 \<le> fd) 5 :: string reactor)"
    by (rule reactor_wf_new) simp
  then show ?thesis
    by (rule reactor_drops_second_update)
      (simp_all add: new_Reactor_def addWakeupFd_def epoll_ctl_def)
qed

text \<open>
  C17: A sub-reactor that finds several coroutines ready keeps the first one for its next turn
  and passes every other one to the shared queue, in order and taken out of its own interest
  set, so that exactly one reactor will resume it.
\<close>

theorem sub_reactor_shares_ready_coroutines:
  assumes "m_reactor_type (reactor s) = SubReactor" and "all_coroutines (p # ps) s"
    and "reactor_wf (reactor s)"
  shows "\<exists>s' cor. m_coroutine (fd_events s p) = Some cor \<and>
    handle_events exec (ready_events (p # ps)) (None, s) = Inr (Some cor, s') \<and>
    m_task_queue s' = m_task_queue s @ ps \<and> reactor_wf (reactor s') \<and>
    (\<forall>q \<in> set ps. m_epoll (reactor s') (m_fd (fd_events s q)) = None)"
proof -
  from assms(2) obtain cor where c: "m_coroutine (fd_events s p) = Some cor"
    by (auto simp: all_coroutines_def)
  have "all_coroutines ps s" using assms(2) by (simp add: all_coroutines_def)
  from handle_ready_sub [OF assms(1) this assms(3), of exec cor] obtain s' where
    "handle_events exec (ready_events ps) (Some cor, s) = Inr (Some cor, s')"
    "m_task_queue s' = m_task_queue s @ ps" "reactor_wf (reactor s')"
    "\<forall>q \<in> set ps. m_epoll (reactor s') (m_fd (fd_events s q)) = None"
    by auto
  with c handle_ready [OF c, of exec None] show ?thesis
    by (auto simp: ready_events_def)
qed

definition example_sys :: "reactor_type \<Rightarrow> (string, nat list) sys" where
  "example_sys ty =
     \<lparr>reactor = setReactorType ty (new_Reactor (\<lambda>fd. 0 \<le> fd) 5),
      fd_events = (\<lambda>p. (new_FdEvent (int p))\<lparr>m_coroutine := Some (100 + p)\<rparr>),
      m_task_queue = [], world = []\<rparr>"

definition log_resume :: "string act \<Rightarrow> (string, nat list) sys \<Rightarrow> (string, nat list) sys" where
  "log_resume a s = (case a of Resume c \<Rightarrow> s\<lparr>world := world s @ [c]\<rparr> | Call cb \<Rightarrow> s)"

lemma example_sys_wf:
  "m_reactor_type (reactor (example_sys ty)) = ty" "reactor_wf (reactor (example_sys ty))"
  "all_coroutines [7, 8, 9] (example_sys ty)"
proof -
  show "m_reactor_type (reactor (example_sys ty)) = ty" "all_coroutines [7, 8, 9] (example_sys ty)"
    by (simp_all add: example_sys_def setReactorType_def all_coroutines_def)
  show "reactor_wf (reactor (example_sys ty))"
    by (simp add: example_sys_def reactor_wf_setReactorType reactor_wf_new)
qed

lemma sub_reactor_shares_ready_coroutines_witness:
  "\<exists>s' cor. handle_events log_resume (ready_events [7, 8, 9]) (None, example_sys SubReactor) = Inr (Some cor, s') \<and>
     m_task_queue s' = [8, 9]"
proof -
  have "m_task_queue (example_sys SubReactor) = []" by (simp add: example_sys_def)
  with sub_reactor_shares_ready_coroutines [of "example_sys SubReactor" 7 "[8, 9]" log_resume] example_sys_wf
  show ?thesis by auto
qed

text \<open>
  A main reactor that finds two coroutines ready resumes the second one and forgets the
  first: nothing remembers it any more, and it is not in the queue.
\<close>

theorem main_reactor_forgets_first:
  assumes "m_reactor_type (reactor s) = MainReactor"
    and "m_coroutine (fd_events s p) = Some c1" and "m_coroutine (fd_events s q) = Some c2"
  shows "handle_events exec (ready_events [p, q]) (None, s) = Inr (None, exec (Resume c2) s)"
  using assms(1) handle_ready [OF assms(2), of exec None] handle_ready [OF assms(3), of exec "Some c1"]
  by (simp add: ready_events_def)

lemma main_reactor_forgets_first_witness:
  "handle_events log_resume (ready_events [7, 8]) (None, example_sys MainReactor)
     = Inr (None, log_resume (Resume 108) (example_sys MainReactor))"
  by (rule main_reactor_forgets_first [where ?c1.0 = 107])
    (simp_all add: example_sys_def setReactorType_def)

lemma fd_event_sync:
  assumes "reactor_wf r" and "m_fd e \<noteq> -1" and "m_open r (m_fd e)"
    and "m_listen_events e AND io_flag event = 0" and "event \<noteq> ETModel"
    and "addListenEvents t True self event (e, r) = (e1, r1)"
  shows "m_listen_events e1 = m_listen_events e OR io_flag event \<and>
    m_epoll r1 (m_fd e) = Some (m_listen_events e1, Data_Ptr self) \<and>
    (\<forall>e2 r2. delListenEvents t True self event (e1, r1) = (e2, r2) \<longrightarrow>
       m_listen_events e2 = m_listen_events e \<and>
       m_epoll r2 (m_fd e) = Some (m_listen_events e, Data_Ptr self)) \<and>
    (\<forall>e2 r2. unregisterFromReactor t True (e1, r1) = (e2, r2) \<longrightarrow>
       m_listen_events e2 = 0 \<and> m_read_callback e2 = None \<and> m_write_callback e2 = None \<and>
       m_epoll r2 = (m_epoll r)(m_fd e := None))"
proof -
  let ?f = "io_flag event"
  let ?e = "if m_reactor e = None then setReactor (Some t) e else e"
  have "?f \<noteq> 0" by (cases event) (simp_all add: io_flag_def)
  note fl = mask_set_clear [OF assms(4) this]
  from assms(4,6) have a: "m_fd e1 = m_fd e" "m_listen_events e1 = m_listen_events e OR ?f"
    "m_reactor e1 \<noteq> None"
    "r1 = addEventInLoopThread (m_fd e) (m_listen_events e OR ?f, Data_Ptr self) r"
    using assms(2) by (auto simp: addListenEvents_def updateToReactor_def setReactor_def Let_def
        addEvent_def split: if_splits)
  have r1: "reactor_wf r1" "m_epoll r1 = (m_epoll r)(m_fd e \<mapsto> (m_listen_events e OR ?f, Data_Ptr self))"
    "m_open r1 = m_open r"
    using assms(1,3) by (simp_all add: a reactor_wf_add)
  have d: "delListenEvents t True self event (e1, r1) =
      (e1\<lparr>m_listen_events := m_listen_events e\<rparr>,
       addEventInLoopThread (m_fd e) (m_listen_events e, Data_Ptr self) r1)"
    using a(1-3) assms(2) fl by (auto simp: delListenEvents_def updateToReactor_def addEvent_def Let_def)
  have u: "unregisterFromReactor t True (e1, r1) =
      (e1\<lparr>m_listen_events := 0, m_read_callback := None, m_write_callback := None\<rparr>,
       delEventInLoopThread (m_fd e) r1)"
    using a(1-3) assms(2) by (auto simp: unregisterFromReactor_def delEvent_def Let_def)
  show ?thesis
    unfolding d u using a(1-3) r1 assms(2,3) by (simp add: reactor_wf_add reactor_wf_del)
qed

text \<open>
  On the reactor's thread, adding and removing listen flags keeps the kernel's interest in
  a descriptor equal to the flags the event records, and unregistering removes it together
  with the callbacks.
\<close>

theorem fd_event_in_sync:
  assumes "reactor_wf r" and "m_fd e \<noteq> -1" and "m_open r (m_fd e)"
    and "m_listen_events e AND io_flag event = 0" and "event \<noteq> ETModel"
    and "addListenEvents t True self event (e, r) = (e1, r1)"
  shows "m_listen_events e1 = m_listen_events e OR io_flag event \<and>
    m_epoll r1 (m_fd e) = Some (m_listen_events e1, Data_Ptr self) \<and>
    (\<forall>e2 r2. delListenEvents t True self event (e1, r1) = (e2, r2) \<longrightarrow>
       m_listen_events e2 = m_listen_events e \<and>
       m_epoll r2 (m_fd e) = Some (m_listen_events e, Data_Ptr self)) \<and>
    (\<forall>e2 r2. unregisterFromReactor t True (e1, r1) = (e2, r2) \<longrightarrow>
       m_listen_events e2 = 0 \<and> m_read_callback e2 = None \<and> m_write_callback e2 = None \<and>
       m_epoll r2 = (m_epoll r)(m_fd e := None))"
  using assms by (rule fd_event_sync)

lemma fd_event_in_sync_witness:
  "m_epoll (snd (addListenEvents 0 True 7 READ (new_FdEvent 7, new_Reactor (\<lambda>fd. 0 \<le> fd) 5 :: string reactor))) 7
     = Some (1, Data_Ptr 7)"
proof -
  let ?r = "new_Reactor (\<lambda>fd. 0 \<le> fd) 5 :: string reactor"
  obtain e1 r1 where a: "addListenEvents 0 True 7 READ (new_FdEvent 7, ?r) = (e1, r1)" by fastforce
  have "reactor_wf ?r" by (rule reactor_wf_new) simp
  moreover have "m_open ?r 7" by (simp add: new_Reactor_def addWakeupFd_def epoll_ctl_def)
  ultimately show ?thesis
    using fd_event_in_sync [OF _ _ _ _ _ a]
    by (simp only: a snd_conv) (simp add: new_FdEvent_def io_flag_def)
qed

end
