(* ===== verification/Run_Time.thy ===== *)
theory Run_Time
  imports Prelude
begin

text \<open>
  The per-coroutine run time of \<open>comm/run_time.h\<close>: the message number and the interface
  name that the log lines of a request carry, and the number the nested calls of that
  request reuse.
\<close>

record run_time =
  m_msg_no :: string
  m_interface_name :: string

definition new_RunTime :: run_time where
  "new_RunTime = \<lparr>m_msg_no = [], m_interface_name = []\<rparr>"

end
