(* ===== verification/Coroutine.thy ===== *)
theory Coroutine
  imports Run_Time
begin

text \<open>
  Coroutines: \<open>coroutine/coroutine.h\<close> and \<open>coroutine/coroutine.cc\<close>, seen from one thread. A
  coroutine is an address in a store, and its saved registers are one of four: never set up,
  about to enter \<open>CoFunction\<close>, saved in the middle of running, or behind the last \<open>Yield\<close> of
  \<open>CoFunction\<close>. \<open>coctx_swap\<close> saves into one context and continues in the other, which for the assembly
  itself is shown in Coctx;
  \<open>m_cpu\<close> is the coroutine whose context the processor runs. Callbacks are application code.
\<close>

section \<open>The code\<close>

datatype context_state = Zeroed | At_Entry | Suspended | Ended

record 'cb coroutine =
  m_cor_id :: int
  m_coctx :: context_state
  m_stack_size :: int
  m_stack_sp :: int
  m_is_in_cofunc :: bool
  m_run_time :: run_time
  m_can_resume :: bool
  m_index :: int
  m_call_back :: "'cb option"

record 'cb thread =
  t_main_coroutine :: "nat option"
  t_cur_coroutine :: "nat option"
  t_cur_run_time :: "nat option"
  t_coroutine_count :: int
  t_cur_coroutine_id :: int
  coroutines :: "nat \<Rightarrow> 'cb coroutine"
  m_cpu :: nat

definition blank_coroutine :: "'cb coroutine" where
  "blank_coroutine =
     \<lparr>m_cor_id = 0, m_coctx = Zeroed, m_stack_size = 0, m_stack_sp = 0, m_is_in_cofunc = False,
      m_run_time = new_RunTime, m_can_resume = True, m_index = -1, m_call_back = None\<rparr>"

definition set_coroutine :: "nat \<Rightarrow> ('cb coroutine \<Rightarrow> 'cb coroutine) \<Rightarrow> 'cb thread \<Rightarrow> 'cb thread" where
  "set_coroutine co f th = th\<lparr>coroutines := (coroutines th)(co := f (coroutines th co))\<rparr>"

text \<open>A thread before it has used coroutines; its own context is \<open>self\<close>.\<close>

definition new_thread :: "nat \<Rightarrow> 'cb thread" where
  "new_thread self =
     \<lparr>t_main_coroutine = None, t_cur_coroutine = None, t_cur_run_time = None,
      t_coroutine_count = 0, t_cur_coroutine_id = 1, coroutines = (\<lambda>_. blank_coroutine), m_cpu = self\<rparr>"

text \<open>
  The private constructor: the context of the running thread becomes a coroutine. The object
  is given the address \<open>m_cpu\<close>, under which the thread's context is known.
\<close>

definition new_main_coroutine :: "'cb thread \<Rightarrow> 'cb thread" where
  "new_main_coroutine th =
     (let co = m_cpu th in
      set_coroutine co (\<lambda>_. blank_coroutine)
        (th\<lparr>t_coroutine_count := t_coroutine_count th + 1, t_cur_coroutine := Some co\<rparr>))"

definition ensure_main :: "'cb thread \<Rightarrow> 'cb thread" where
  "ensure_main th =
     (if t_main_coroutine th = None
      then (new_main_coroutine th)\<lparr>t_main_coroutine := Some (m_cpu th)\<rparr> else th)"

definition new_Coroutine :: "nat \<Rightarrow> int \<Rightarrow> int \<Rightarrow> 'cb thread \<Rightarrow> 'cb thread res" where
  "new_Coroutine co sz stack_ptr th =
     (if stack_ptr = 0 then Inl Assert_Failed
      else
        let th = ensure_main th;
            id = t_cur_coroutine_id th
        in Inr (set_coroutine co
                  (\<lambda>_. blank_coroutine\<lparr>m_stack_size := sz, m_stack_sp := stack_ptr, m_cor_id := id\<rparr>)
                  (th\<lparr>t_cur_coroutine_id := id + 1, t_coroutine_count := t_coroutine_count th + 1\<rparr>)))"

definition setCallBack_cor :: "nat \<Rightarrow> 'cb \<Rightarrow> 'cb thread \<Rightarrow> bool \<times> 'cb thread" where
  "setCallBack_cor co cb th =
     (if t_main_coroutine th = Some co then (False, th)
      else if m_is_in_cofunc (coroutines th co) then (False, th)
      else (True, set_coroutine co
                    (\<lambda>c. c\<lparr>m_call_back := Some cb, m_coctx := At_Entry, m_can_resume := True\<rparr>) th))"

text \<open>The constructor with a callback; the destructor, of which the count is all that other objects see.\<close>

definition new_Coroutine_cb :: "nat \<Rightarrow> int \<Rightarrow> int \<Rightarrow> 'cb \<Rightarrow> 'cb thread \<Rightarrow> 'cb thread res" where
  "new_Coroutine_cb co sz stack_ptr cb th =
     (if stack_ptr = 0 then Inl Assert_Failed
      else
        let th = set_coroutine co (\<lambda>_. blank_coroutine\<lparr>m_stack_size := sz, m_stack_sp := stack_ptr\<rparr>) (ensure_main th);
            th = snd (setCallBack_cor co cb th);
            id = t_cur_coroutine_id th
        in Inr (set_coroutine co (\<lambda>c. c\<lparr>m_cor_id := id\<rparr>)
                  (th\<lparr>t_cur_coroutine_id := id + 1, t_coroutine_count := t_coroutine_count th + 1\<rparr>)))"

definition delete_Coroutine :: "'cb thread \<Rightarrow> 'cb thread" where
  "delete_Coroutine th = th\<lparr>t_coroutine_count := t_coroutine_count th - 1\<rparr>"

definition setCurrentRunTime :: "nat option \<Rightarrow> 'cb thread \<Rightarrow> 'cb thread" where
  "setCurrentRunTime v th = th\<lparr>t_cur_run_time := v\<rparr>"

definition setCanResume :: "nat \<Rightarrow> bool \<Rightarrow> 'cb thread \<Rightarrow> 'cb thread" where
  "setCanResume co v = set_coroutine co (\<lambda>c. c\<lparr>m_can_resume := v\<rparr>)"

definition setIsInCoFunc :: "nat \<Rightarrow> bool \<Rightarrow> 'cb thread \<Rightarrow> 'cb thread" where
  "setIsInCoFunc co v = set_coroutine co (\<lambda>c. c\<lparr>m_is_in_cofunc := v\<rparr>)"

definition setIndex :: "nat \<Rightarrow> int \<Rightarrow> 'cb thread \<Rightarrow> 'cb thread" where
  "setIndex co i = set_coroutine co (\<lambda>c. c\<lparr>m_index := i\<rparr>)"

definition GetCurrentCoroutine :: "'cb thread \<Rightarrow> nat \<times> 'cb thread" where
  "GetCurrentCoroutine th =
     (case t_cur_coroutine th of
        Some co \<Rightarrow> (co, th)
      | None \<Rightarrow> (m_cpu th, (new_main_coroutine th)\<lparr>t_main_coroutine := Some (m_cpu th)\<rparr>))"

definition GetMainCoroutine :: "'cb thread \<Rightarrow> nat \<times> 'cb thread" where
  "GetMainCoroutine th =
     (case t_main_coroutine th of
        Some co \<Rightarrow> (co, th)
      | None \<Rightarrow> (m_cpu th, (new_main_coroutine th)\<lparr>t_main_coroutine := Some (m_cpu th)\<rparr>))"

definition IsMainCoroutine :: "'cb thread \<Rightarrow> bool" where
  "IsMainCoroutine th \<longleftrightarrow>
     t_main_coroutine th = None \<or> t_cur_coroutine th = t_main_coroutine th"

text \<open>
  \<open>coctx_swap(&from, &to)\<close>: continuing in a context that was never set up jumps to address
  zero, and one that is behind the end of \<open>CoFunction\<close> has no caller to return to.
\<close>

definition coctx_swap :: "nat \<Rightarrow> nat \<Rightarrow> context_state \<Rightarrow> 'cb thread \<Rightarrow> 'cb thread res" where
  "coctx_swap from to saved th =
     (let th = set_coroutine from (\<lambda>c. c\<lparr>m_coctx := saved\<rparr>) th in
      case m_coctx (coroutines th to) of
        Zeroed \<Rightarrow> Inl Null_Pointer
      | Ended \<Rightarrow> Inl Indeterminate_Value
      | _ \<Rightarrow> Inr (th\<lparr>m_cpu := to\<rparr>))"

text \<open>\<open>Yield\<close>; \<open>saved\<close> is \<open>Ended\<close> for the last call in \<open>CoFunction\<close>.\<close>

definition Yield_with :: "context_state \<Rightarrow> 'cb thread \<Rightarrow> 'cb thread res" where
  "Yield_with saved th =
     (case t_main_coroutine th of
        None \<Rightarrow> Inr th
      | Some main \<Rightarrow>
          (case t_cur_coroutine th of
             None \<Rightarrow> Inl Null_Pointer
           | Some co \<Rightarrow>
               if co = main then Inr th
               else coctx_swap co main saved
                      (th\<lparr>t_cur_coroutine := Some main, t_cur_run_time := None\<rparr>)))"

definition Yield :: "'cb thread \<Rightarrow> 'cb thread res" where
  "Yield th = Yield_with Suspended th"

text \<open>\<open>co\<close> is \<open>None\<close> for a null pointer.\<close>

definition Resume_cor :: "nat option \<Rightarrow> 'cb thread \<Rightarrow> 'cb thread res" where
  "Resume_cor co th =
     (if t_cur_coroutine th \<noteq> t_main_coroutine th then Inr th
      else case t_main_coroutine th of
        None \<Rightarrow> Inr th
      | Some main \<Rightarrow>
          (case co of
             None \<Rightarrow> Inr th
           | Some co \<Rightarrow>
               if \<not> m_can_resume (coroutines th co) then Inr th
               else if t_cur_coroutine th = Some co then Inr th
               else coctx_swap main co Suspended
                      (th\<lparr>t_cur_coroutine := Some co, t_cur_run_time := Some co\<rparr>)))"

text \<open>
  \<open>CoFunction\<close> up to the call of the callback, which it names, and from its return on.
\<close>

definition CoFunction_enter :: "nat \<Rightarrow> 'cb thread \<Rightarrow> ('cb \<times> 'cb thread) res" where
  "CoFunction_enter co th =
     (let th = setIsInCoFunc co True th in
      case m_call_back (coroutines th co) of
        None \<Rightarrow> Inl Bad_Function_Call
      | Some cb \<Rightarrow> Inr (cb, th))"

definition CoFunction_leave :: "nat \<Rightarrow> 'cb thread \<Rightarrow> 'cb thread res" where
  "CoFunction_leave co th = Yield_with Ended (setIsInCoFunc co False th)"

section \<open>Reachable threads\<close>

text \<open>
  What a thread does: it creates and prepares coroutines at fresh addresses, resumes them, and
  the running one enters its callback, yields, or comes to its end. A coroutine that has ended
  is not resumed before it has a new callback.
\<close>

inductive thread_reach :: "'cb thread \<Rightarrow> bool" where
  start: "thread_reach (new_thread self)"
| current: "thread_reach th \<Longrightarrow> GetCurrentCoroutine th = (co, th') \<Longrightarrow> thread_reach th'"
| main: "thread_reach th \<Longrightarrow> GetMainCoroutine th = (co, th') \<Longrightarrow> thread_reach th'"
| create: "thread_reach th \<Longrightarrow> co \<noteq> m_cpu th \<Longrightarrow> t_main_coroutine th \<noteq> Some co \<Longrightarrow>
    new_Coroutine co sz sp th = Inr th' \<Longrightarrow> thread_reach th'"
| callback: "thread_reach th \<Longrightarrow> m_cpu th \<noteq> co \<Longrightarrow> setCallBack_cor co cb th = (ok, th') \<Longrightarrow> thread_reach th'"
| can_resume: "thread_reach th \<Longrightarrow> thread_reach (setCanResume co v th)"
| index: "thread_reach th \<Longrightarrow> thread_reach (setIndex co i th)"
| resume: "thread_reach th \<Longrightarrow> Resume_cor co th = Inr th' \<Longrightarrow> thread_reach th'"
| enter: "thread_reach th \<Longrightarrow> CoFunction_enter (m_cpu th) th = Inr (cb, th') \<Longrightarrow> thread_reach th'"
| yield: "thread_reach th \<Longrightarrow> Yield th = Inr th' \<Longrightarrow> thread_reach th'"
| leave: "thread_reach th \<Longrightarrow> CoFunction_leave (m_cpu th) th = Inr th' \<Longrightarrow> thread_reach th'"

text \<open>
  Once the thread has a main coroutine, the current coroutine is the one whose context runs;
  away from the main one, the main context is saved, so that a yield can come back to it.
\<close>

definition thread_wf :: "'cb thread \<Rightarrow> bool" where
  "thread_wf th \<longleftrightarrow>
     (case t_main_coroutine th of
        None \<Rightarrow> t_cur_coroutine th = None
      | Some main \<Rightarrow>
          t_cur_coroutine th = Some (m_cpu th) \<and>
          (m_cpu th \<noteq> main \<longrightarrow> m_coctx (coroutines th main) = Suspended))"

lemma thread_wf_new_main:
  "thread_wf ((new_main_coroutine th)\<lparr>t_main_coroutine := Some (m_cpu th)\<rparr>)"
  by (simp add: thread_wf_def new_main_coroutine_def set_coroutine_def Let_def)

lemma m_cpu_set_coroutine [simp]:
  "m_cpu (set_coroutine co f th) = m_cpu th"
  "t_main_coroutine (set_coroutine co f th) = t_main_coroutine th"
  "t_cur_coroutine (set_coroutine co f th) = t_cur_coroutine th"
  "t_cur_run_time (set_coroutine co f th) = t_cur_run_time th"
  "coroutines (set_coroutine co f th) = (coroutines th)(co := f (coroutines th co))"
  by (simp_all add: set_coroutine_def)

lemma thread_wf_set_coroutine:
  assumes "thread_wf th" and "t_main_coroutine th \<noteq> Some co \<or> (\<forall>c. m_coctx (f c) = m_coctx c)"
  shows "thread_wf (set_coroutine co f th)"
  using assms by (auto simp: thread_wf_def split: option.splits)

lemma thread_wf_swap:
  assumes "thread_wf th" and "t_main_coroutine th = Some main" and "m_cpu th = from" and "from \<noteq> to"
    and "from = main \<and> saved = Suspended \<or> to = main"
    and "coctx_swap from to saved (th\<lparr>t_cur_coroutine := Some to, t_cur_run_time := r\<rparr>) = Inr th'"
  shows "thread_wf th'"
  using assms
  by (auto simp: coctx_swap_def thread_wf_def Let_def split: context_state.splits)

lemma thread_wf_Yield_with:
  assumes "thread_wf th" and "Yield_with saved th = Inr th'"
  shows "thread_wf th'"
proof (cases "t_main_coroutine th")
  case None
  with assms show ?thesis by (simp add: Yield_with_def)
next
  case (Some main)
  with assms(1) have c: "t_cur_coroutine th = Some (m_cpu th)" by (simp add: thread_wf_def)
  show ?thesis
  proof (cases "m_cpu th = main")
    case True
    with assms c Some show ?thesis by (simp add: Yield_with_def)
  next
    case False
    with assms c Some show ?thesis
      by (intro thread_wf_swap [OF assms(1) Some refl False, of saved None]) (simp_all add: Yield_with_def)
  qed
qed

lemma thread_wf_Resume:
  assumes "thread_wf th" and "Resume_cor co th = Inr th'"
  shows "thread_wf th'"
proof (cases "th' = th")
  case True
  with assms show ?thesis by simp
next
  case False
  with assms(2) obtain main c where m: "t_main_coroutine th = Some main" "co = Some c" "main \<noteq> c"
    "t_cur_coroutine th = Some main"
    "coctx_swap main c Suspended (th\<lparr>t_cur_coroutine := Some c, t_cur_run_time := Some c\<rparr>) = Inr th'"
    by (auto simp: Resume_cor_def split: if_splits option.splits)
  with assms(1) have "m_cpu th = main" by (simp add: thread_wf_def)
  from thread_wf_swap [OF assms(1) m(1) this m(3) _ m(5)] show ?thesis by simp
qed

lemma thread_reach_wf: "thread_reach th \<Longrightarrow> thread_wf th"
proof (induction rule: thread_reach.induct)
  case (start self)
  then show ?case by (simp add: thread_wf_def new_thread_def)
next
  case (current th co th')
  then show ?case using thread_wf_new_main [of th]
    by (auto simp: GetCurrentCoroutine_def split: option.splits)
next
  case (main th co th')
  then show ?case using thread_wf_new_main [of th]
    by (auto simp: GetMainCoroutine_def split: option.splits)
next
  case (create th co sz sp th')
  let ?th = "ensure_main th"
  have w: "thread_wf ?th" "t_main_coroutine ?th \<noteq> Some co"
    using create thread_wf_new_main [of th] by (auto simp: ensure_main_def)
  let ?th2 = "?th\<lparr>t_cur_coroutine_id := t_cur_coroutine_id ?th + 1,
      t_coroutine_count := t_coroutine_count ?th + 1\<rparr>"
  have "thread_wf ?th2" "t_main_coroutine ?th2 \<noteq> Some co" using w by (simp_all add: thread_wf_def split: option.splits)
  then have "thread_wf (set_coroutine co f ?th2)" for f by (intro thread_wf_set_coroutine) auto
  with create(4) show ?case by (auto simp: new_Coroutine_def Let_def split: if_splits)
next
  case (callback th co cb ok th')
  then show ?case
    by (auto simp: setCallBack_cor_def intro: thread_wf_set_coroutine split: if_splits)
next
  case (can_resume th co v)
  then show ?case by (simp add: setCanResume_def thread_wf_set_coroutine)
next
  case (index th co i)
  then show ?case by (simp add: setIndex_def thread_wf_set_coroutine)
next
  case (resume th co th')
  then show ?case using thread_wf_Resume by blast
next
  case (enter th cb th')
  then show ?case
    by (auto simp: CoFunction_enter_def Let_def setIsInCoFunc_def thread_wf_set_coroutine
        split: option.splits)
next
  case (yield th th')
  then show ?case using thread_wf_Yield_with by (auto simp: Yield_def)
next
  case (leave th th')
  then have "thread_wf (setIsInCoFunc (m_cpu th) False th)"
    by (simp add: setIsInCoFunc_def thread_wf_set_coroutine)
  with leave(2) show ?case using thread_wf_Yield_with by (auto simp: CoFunction_leave_def)
qed

lemma Yield_reach:
  assumes "thread_reach th" and "t_main_coroutine th = Some main"
  shows "t_cur_coroutine th = Some (m_cpu th) \<and>
    returns (Yield th) (\<lambda>th'. m_cpu th' = main \<and> t_cur_coroutine th' = Some main)"
proof -
  from thread_reach_wf [OF assms(1)] assms(2) have
    w: "t_cur_coroutine th = Some (m_cpu th)"
      "m_cpu th \<noteq> main \<Longrightarrow> m_coctx (coroutines th main) = Suspended"
    by (simp_all add: thread_wf_def)
  then show ?thesis
    using assms(2) by (auto simp: Yield_def Yield_with_def coctx_swap_def Let_def)
qed

section \<open>Properties\<close>

text \<open>
  In every state a thread can reach, the coroutine the code takes for the current one is
  the one whose context the processor runs, and when that is not the main coroutine, the main
  context is saved, so that \<open>Yield\<close> always comes back to the main coroutine without a fault.
\<close>

theorem yield_returns_to_main:
  assumes "thread_reach th" and "t_main_coroutine th = Some main"
  shows "t_cur_coroutine th = Some (m_cpu th) \<and>
    returns (Yield th) (\<lambda>th'. m_cpu th' = main \<and> t_cur_coroutine th' = Some main)"
  using assms by (rule Yield_reach)

definition example_ready :: "string thread" where
  "example_ready =
     (let th = snd (GetMainCoroutine (new_thread 0));
          th = (case new_Coroutine 7 128 4096 th of Inr th \<Rightarrow> th | Inl _ \<Rightarrow> th)
      in snd (setCallBack_cor 7 ''task'' th))"

definition example_thread :: "string thread" where
  "example_thread =
     (case Resume_cor (Some 7) example_ready of Inr th \<Rightarrow> th | Inl _ \<Rightarrow> example_ready)"

lemma example_ready_reach: "thread_reach example_ready"
proof -
  let ?t1 = "snd (GetMainCoroutine (new_thread 0 :: string thread))"
  have r1: "thread_reach ?t1"
    by (rule thread_reach.main [OF thread_reach.start [of 0] prod.collapse [symmetric]])
  have f1: "m_cpu ?t1 = 0" "t_main_coroutine ?t1 = Some 0" "t_cur_coroutine ?t1 = Some 0"
    by (simp_all add: GetMainCoroutine_def new_thread_def new_main_coroutine_def Let_def)
  obtain t2 where t2: "new_Coroutine 7 128 4096 ?t1 = Inr t2" by (simp add: new_Coroutine_def Let_def)
  then have f2: "m_cpu t2 = 0" using f1 by (auto simp: new_Coroutine_def Let_def ensure_main_def)
  have r2: "thread_reach t2" by (rule thread_reach.create [OF r1 _ _ t2]) (simp_all add: f1)
  obtain ok t3 where t3: "setCallBack_cor 7 ''task'' t2 = (ok, t3)" by fastforce
  have r3: "thread_reach t3" by (rule thread_reach.callback [OF r2 _ t3]) (simp add: f2)
  have "example_ready = t3" by (simp add: example_ready_def Let_def t2 t3)
  with r3 show ?thesis by simp
qed

lemma example_ready_state:
  "t_main_coroutine example_ready = Some 0" "m_cpu example_ready = 0"
  "m_coctx (coroutines example_ready 7) = At_Entry" "m_can_resume (coroutines example_ready 7)"
  by code_simp+

lemma example_thread_reach: "thread_reach example_thread"
proof -
  have "t_cur_coroutine example_ready = Some 0" by code_simp
  with example_ready_state obtain th where th: "Resume_cor (Some 7) example_ready = Inr th"
    by (simp add: Resume_cor_def coctx_swap_def Let_def)
  with thread_reach.resume [OF example_ready_reach th] show ?thesis by (simp add: example_thread_def)
qed

lemma yield_returns_to_main_witness:
  "returns (Yield example_thread) (\<lambda>th'. m_cpu th' = 0) \<and> m_cpu example_thread = 7"
proof -
  have "t_main_coroutine example_thread = Some 0" "t_cur_coroutine example_thread = Some 7" by code_simp+
  with yield_returns_to_main [OF example_thread_reach] show ?thesis by (auto elim!: returns_mono)
qed

text \<open>
  A prepared or suspended coroutine that may be resumed runs after \<open>Resume\<close> from the main
  coroutine, with its own run time current, and the next yield leaves the thread in the main
  coroutine with the coroutine suspended and everything else about it unchanged; resuming from
  inside another coroutine, or resuming one that may not be resumed, changes nothing.
\<close>

theorem resume_then_yield:
  assumes "thread_reach th" and "t_main_coroutine th = Some main" and "co \<noteq> main"
    and "m_coctx (coroutines th co) = At_Entry \<or> m_coctx (coroutines th co) = Suspended"
  shows "if m_cpu th = main \<and> m_can_resume (coroutines th co) then
      returns (Resume_cor (Some co) th) (\<lambda>th1. m_cpu th1 = co \<and> t_cur_run_time th1 = Some co \<and>
        returns (Yield th1) (\<lambda>th2. m_cpu th2 = main \<and> t_cur_run_time th2 = None \<and>
          coroutines th2 co = (coroutines th co)\<lparr>m_coctx := Suspended\<rparr>))
    else Resume_cor (Some co) th = Inr th"
proof -
  from thread_reach_wf [OF assms(1)] assms(2) have
    w: "t_cur_coroutine th = Some (m_cpu th)" by (simp add: thread_wf_def)
  with assms(2-4) show ?thesis
    by (auto simp: Resume_cor_def Yield_def Yield_with_def coctx_swap_def Let_def)
qed

lemma resume_then_yield_witness:
  "returns (Resume_cor (Some 7) example_ready) (\<lambda>th1. m_cpu th1 = 7 \<and>
     returns (Yield th1) (\<lambda>th2. m_cpu th2 = 0))"
  using resume_then_yield [OF example_ready_reach example_ready_state(1), of 7] example_ready_state
  by (auto elim!: returns_mono)

text \<open>The two ways to make a coroutine with a callback agree.\<close>

lemma new_Coroutine_cb_eq:
  assumes "co \<noteq> m_cpu th" and "t_main_coroutine th \<noteq> Some co"
  shows "new_Coroutine_cb co sz sp cb th = bindE (new_Coroutine co sz sp th) (\<lambda>th. Inr (snd (setCallBack_cor co cb th)))"
  using assms
  by (simp add: new_Coroutine_cb_def new_Coroutine_def setCallBack_cor_def ensure_main_def new_main_coroutine_def
      set_coroutine_def blank_coroutine_def Let_def)

end
