(* ===== verification/Memory.thy ===== *)
theory Memory
  imports Prelude
begin

text \<open>
  The stacks of the coroutines: \<open>coroutine/memory.h\<close> and \<open>coroutine/memory.cc\<close>. A block of
  memory is handed out in equal parts. Addresses are integers, and the address \<open>malloc\<close>
  returns is an argument. The locale \<open>block_store\<close> is what the coroutine pool relies on.
\<close>

section \<open>The code\<close>

record memory =
  m_block_size :: int
  m_block_count :: int
  m_size :: int
  m_start :: int
  m_end :: int
  m_ref_counts :: int
  m_blocks :: "bool list"

definition new_Memory :: "int \<Rightarrow> int \<Rightarrow> int \<Rightarrow> memory res" where
  "new_Memory start block_size block_count =
     bindE (chk (block_count * block_size)) (\<lambda>sz.
     bindE (new_vector False block_count) (\<lambda>blocks.
     Inr \<lparr>m_block_size = block_size, m_block_count = block_count, m_size = sz, m_start = start,
          m_end = start + sz - 1, m_ref_counts = 0, m_blocks = blocks\<rparr>))"

text \<open>The search of \<open>getBlock\<close>: the first block that is free.\<close>

fun first_free :: "bool list \<Rightarrow> nat option" where
  "first_free [] = None"
| "first_free (b # bs) = (if \<not> b then Some 0 else map_option Suc (first_free bs))"

definition getBlock :: "memory \<Rightarrow> int option \<times> memory" where
  "getBlock m =
     (case first_free (m_blocks m) of
        None \<Rightarrow> (None, m)
      | Some t \<Rightarrow>
          (Some (m_start m + int t * m_block_size m),
           m\<lparr>m_blocks := (m_blocks m)[t := True], m_ref_counts := m_ref_counts m + 1\<rparr>))"

definition backBlock :: "int \<Rightarrow> memory \<Rightarrow> memory res" where
  "backBlock s m =
     (if s > m_end m \<or> s < m_start m then Inr m
      else if m_block_size m = 0 then Inl Division_By_Zero
      else
        let i = (s - m_start m) div m_block_size m in
        if 0 \<le> i \<and> i < int (length (m_blocks m))
        then Inr (m\<lparr>m_blocks := (m_blocks m)[nat i := False], m_ref_counts := m_ref_counts m - 1\<rparr>)
        else Inl Out_Of_Bounds)"

definition hasBlock :: "int \<Rightarrow> memory \<Rightarrow> bool" where
  "hasBlock s m \<longleftrightarrow> s \<ge> m_start m \<and> s \<le> m_end m"

text \<open>The destructor: a memory whose \<open>malloc\<close> gave null is left alone.\<close>

definition delete_Memory :: "memory \<Rightarrow> memory" where
  "delete_Memory m = (if m_start m = 0 \<or> m_start m = -1 then m else m\<lparr>m_start := 0, m_ref_counts := 0\<rparr>)"

section \<open>The contract of a block store\<close>

locale block_store =
  fixes invar :: "'m \<Rightarrow> bool"
    and owned :: "'m \<Rightarrow> int set"
    and alloc :: "'m \<Rightarrow> int option \<times> 'm"
    and release :: "int \<Rightarrow> 'm \<Rightarrow> 'm res"
  assumes alloc_Some: "invar m \<Longrightarrow> alloc m = (Some a, m') \<Longrightarrow>
      invar m' \<and> a \<notin> owned m \<and> owned m' = insert a (owned m)"
    and alloc_None: "invar m \<Longrightarrow> alloc m = (None, m') \<Longrightarrow> m' = m"
    and release: "invar m \<Longrightarrow> a \<in> owned m \<Longrightarrow>
      returns (release a m) (\<lambda>m'. invar m' \<and> owned m' = owned m - {a})"

text \<open>A session of allocations and releases; the user holds the list of blocks it got.\<close>

datatype block_op = Alloc | Release nat

fun run_blocks ::
  "('m \<Rightarrow> int option \<times> 'm) \<Rightarrow> (int \<Rightarrow> 'm \<Rightarrow> 'm res) \<Rightarrow> block_op list \<Rightarrow> int list \<times> 'm \<Rightarrow>
   (int list \<times> 'm) res" where
  "run_blocks alloc release [] st = Inr st"
| "run_blocks alloc release (Alloc # ops) (held, m) =
     (case alloc m of
        (None, m) \<Rightarrow> run_blocks alloc release ops (held, m)
      | (Some a, m) \<Rightarrow> run_blocks alloc release ops (held @ [a], m))"
| "run_blocks alloc release (Release i # ops) (held, m) =
     (if i < length held then
        bindE (release (held ! i) m) (\<lambda>m.
        run_blocks alloc release ops (take i held @ drop (Suc i) held, m))
      else run_blocks alloc release ops (held, m))"

lemma set_without_nth:
  assumes "distinct xs" and "i < length xs"
  shows "set (take i xs @ drop (Suc i) xs) = set xs - {xs ! i}"
    and "distinct (take i xs @ drop (Suc i) xs)"
proof -
  have "xs = take i xs @ xs ! i # drop (Suc i) xs" using assms(2) by (rule id_take_nth_drop)
  with assms(1) have d: "distinct (take i xs @ xs ! i # drop (Suc i) xs)" by simp
  then have "set (take i xs @ xs ! i # drop (Suc i) xs) - {xs ! i} = set (take i xs @ drop (Suc i) xs)"
    by auto
  with \<open>xs = _\<close> show "set (take i xs @ drop (Suc i) xs) = set xs - {xs ! i}" by metis
  from d show "distinct (take i xs @ drop (Suc i) xs)" by simp
qed

context block_store
begin

text \<open>Whatever the order of allocations and releases, the blocks that are held are distinct.\<close>

lemma run_blocks_distinct:
  "invar m \<Longrightarrow> distinct held \<Longrightarrow> set held = owned m \<Longrightarrow>
   returns (run_blocks alloc release ops (held, m))
     (\<lambda>(held', m'). distinct held' \<and> set held' = owned m' \<and> invar m')"
proof (induction ops arbitrary: held m)
  case (Cons op ops)
  show ?case
  proof (cases op)
    case Alloc
    obtain r m1 where a: "alloc m = (r, m1)" by fastforce
    show ?thesis
    proof (cases r)
      case None
      with a alloc_None [OF Cons.prems(1)] have "m1 = m" by simp
      with Alloc a None Cons.IH [OF Cons.prems] show ?thesis by simp
    next
      case (Some x)
      with a alloc_Some [OF Cons.prems(1)] have
        "invar m1" "x \<notin> owned m" "owned m1 = insert x (owned m)" by auto
      with Cons.prems Cons.IH [of m1 "held @ [x]"] Alloc a Some show ?thesis by simp
    qed
  next
    case (Release i)
    show ?thesis
    proof (cases "i < length held")
      case False
      with Release Cons.IH [OF Cons.prems] show ?thesis by simp
    next
      case True
      then have "held ! i \<in> owned m" using Cons.prems(3) nth_mem by blast
      from release [OF Cons.prems(1) this] obtain m1 where
        r: "release (held ! i) m = Inr m1" "invar m1" "owned m1 = owned m - {held ! i}"
        by (auto elim!: returnsE)
      with set_without_nth [OF Cons.prems(2) True] Cons.prems(3)
        Cons.IH [of m1 "take i held @ drop (Suc i) held"] True Release
      show ?thesis by simp
    qed
  qed
qed simp

end

section \<open>The memory keeps the contract\<close>

definition memory_wf :: "memory \<Rightarrow> bool" where
  "memory_wf m \<longleftrightarrow> 0 < m_block_size m \<and> m_block_count m = int (length (m_blocks m)) \<and>
     m_size m = m_block_count m * m_block_size m \<and> m_end m = m_start m + m_size m - 1 \<and>
     m_ref_counts m = int (length (filter id (m_blocks m)))"

definition block_addr :: "memory \<Rightarrow> nat \<Rightarrow> int" where
  "block_addr m i = m_start m + int i * m_block_size m"

definition taken :: "memory \<Rightarrow> int set" where
  "taken m = {block_addr m i | i. i < length (m_blocks m) \<and> m_blocks m ! i}"

lemma first_free_Some: "first_free bs = Some t \<Longrightarrow> t < length bs \<and> \<not> bs ! t"
  by (induction bs arbitrary: t) (auto split: if_splits)

lemma first_free_None: "first_free bs = None \<Longrightarrow> set bs \<subseteq> {True}"
  by (induction bs) (auto split: if_splits)

lemma count_set: "i < length bs \<Longrightarrow> \<not> bs ! i \<Longrightarrow> length (filter id (bs[i := True])) = Suc (length (filter id bs))"
  by (induction bs arbitrary: i) (auto simp: nth_Cons split: nat.splits)

lemma count_unset: "i < length bs \<Longrightarrow> bs ! i \<Longrightarrow> Suc (length (filter id (bs[i := False]))) = length (filter id bs)"
  by (induction bs arbitrary: i) (auto simp: nth_Cons split: nat.splits)

lemma block_addr_inj: "memory_wf m \<Longrightarrow> block_addr m i = block_addr m j \<longleftrightarrow> i = j"
  by (auto simp: block_addr_def memory_wf_def)

lemma taken_update:
  assumes wf: "memory_wf m" and i: "i < length (m_blocks m)"
    and m': "m_blocks m' = (m_blocks m)[i := v]" "m_start m' = m_start m" "m_block_size m' = m_block_size m"
  shows "taken m' = (if v then insert (block_addr m i) (taken m) else taken m - {block_addr m i})"
proof -
  have a: "block_addr m' j = block_addr m j" for j by (simp add: block_addr_def m')
  have t: "taken m = block_addr m ` {j. j < length (m_blocks m) \<and> m_blocks m ! j}"
    "taken m' = block_addr m ` {j. j < length (m_blocks m') \<and> m_blocks m' ! j}"
    by (auto simp: taken_def a)
  have "{j. j < length (m_blocks m') \<and> m_blocks m' ! j} =
      (if v then insert i {j. j < length (m_blocks m) \<and> m_blocks m ! j}
       else {j. j < length (m_blocks m) \<and> m_blocks m ! j} - {i})"
    using i by (auto simp: m'(1) nth_list_update)
  moreover have "inj (block_addr m)" using block_addr_inj [OF wf] by (auto intro: injI)
  ultimately show ?thesis by (simp add: t image_set_diff)
qed

lemma block_in_range:
  assumes wf: "memory_wf m" and i: "i < length (m_blocks m)"
  shows "m_start m \<le> block_addr m i" and "block_addr m i + m_block_size m - 1 \<le> m_end m"
    and "(block_addr m i - m_start m) div m_block_size m = int i"
proof -
  from wf have b: "0 < m_block_size m" by (simp add: memory_wf_def)
  then show "m_start m \<le> block_addr m i" "(block_addr m i - m_start m) div m_block_size m = int i"
    by (simp_all add: block_addr_def)
  from i have "(int i + 1) * m_block_size m \<le> int (length (m_blocks m)) * m_block_size m"
    using b by (intro mult_right_mono) auto
  with wf show "block_addr m i + m_block_size m - 1 \<le> m_end m"
    by (simp add: block_addr_def memory_wf_def algebra_simps)
qed

interpretation mem: block_store memory_wf taken getBlock backBlock
proof
  fix m m' :: memory and a :: int
  assume wf: "memory_wf m"
  {
    assume g: "getBlock m = (Some a, m')"
    then obtain t where t: "first_free (m_blocks m) = Some t" "a = block_addr m t"
      "m' = m\<lparr>m_blocks := (m_blocks m)[t := True], m_ref_counts := m_ref_counts m + 1\<rparr>"
      by (auto simp: getBlock_def block_addr_def split: option.splits)
    note f = first_free_Some [OF t(1)]
    have "a \<notin> taken m" using f block_addr_inj [OF wf] by (auto simp: taken_def t(2))
    moreover have "taken m' = insert a (taken m)"
      using taken_update [OF wf, of t m' True] f t by simp
    moreover have "memory_wf m'" using wf f by (simp add: memory_wf_def t(3) count_set)
    ultimately show "memory_wf m' \<and> a \<notin> taken m \<and> taken m' = insert a (taken m)" by simp
  next
    assume "getBlock m = (None, m')"
    then show "m' = m" by (auto simp: getBlock_def split: option.splits)
  next
    assume "a \<in> taken m"
    then obtain i where i: "i < length (m_blocks m)" "m_blocks m ! i" "a = block_addr m i"
      by (auto simp: taken_def)
    let ?m = "m\<lparr>m_blocks := (m_blocks m)[i := False], m_ref_counts := m_ref_counts m - 1\<rparr>"
    have "m_block_size m > 0" using wf by (simp add: memory_wf_def)
    then have "backBlock a m = Inr ?m"
      using block_in_range [OF wf i(1)] i by (simp add: backBlock_def Let_def)
    moreover have "taken ?m = taken m - {a}"
      using taken_update [OF wf i(1), of ?m False] i(3) by simp
    moreover have "memory_wf ?m"
      using wf count_unset [OF i(1,2)] by (simp add: memory_wf_def)
    ultimately show "returns (backBlock a m) (\<lambda>m'. memory_wf m' \<and> taken m' = taken m - {a})" by simp
  }
qed

lemma new_Memory_wf:
  assumes "0 < block_size" and "0 \<le> block_count" and "block_count * block_size \<le> INT_MAX"
  shows "returns (new_Memory start block_size block_count)
    (\<lambda>m. memory_wf m \<and> taken m = {} \<and> length (m_blocks m) = nat block_count)"
  using assms by (auto simp: new_Memory_def memory_wf_def taken_def fits_int_nonneg)

section \<open>Properties\<close>

text \<open>
  C28: Starting from a fresh memory, in any session of allocations and releases of what was
  allocated, no operation reaches a fault, and the blocks held at any time are different,
  lie inside the memory and do not overlap: two coroutines never share a stack.
\<close>

theorem memory_blocks_disjoint:
  assumes "0 < block_size" and "0 \<le> block_count" and "block_count * block_size \<le> INT_MAX"
  shows "returns (bindE (new_Memory start block_size block_count) (\<lambda>m.
                  run_blocks getBlock backBlock ops ([], m)))
    (\<lambda>(held, m). distinct held \<and> (\<forall>a \<in> set held. \<forall>b \<in> set held. a \<noteq> b \<longrightarrow>
       {a ..< a + m_block_size m} \<inter> {b ..< b + m_block_size m} = {}) \<and>
     (\<forall>a \<in> set held. m_start m \<le> a \<and> a + m_block_size m - 1 \<le> m_end m))"
proof -
  from new_Memory_wf [OF assms] obtain m0 where m0: "new_Memory start block_size block_count = Inr m0"
    "memory_wf m0" "taken m0 = {}" by (auto elim!: returnsE)
  have "set [] = taken m0" using m0(3) by simp
  from mem.run_blocks_distinct [OF m0(2) _ this, of ops] obtain held m where r:
    "run_blocks getBlock backBlock ops ([], m0) = Inr (held, m)" "distinct held" "set held = taken m"
    "memory_wf m" by (auto elim!: returnsE)
  have "{a ..< a + m_block_size m} \<inter> {b ..< b + m_block_size m} = {}"
    if ab: "a \<in> taken m" "b \<in> taken m" "a \<noteq> b" for a b
  proof -
    from ab obtain i j where ij: "a = block_addr m i" "b = block_addr m j" "i \<noteq> j"
      by (auto simp: taken_def)
    from r(4) have s: "0 < m_block_size m" by (simp add: memory_wf_def)
    have step: "block_addr m x + m_block_size m \<le> block_addr m y" if "x < y" for x y
    proof -
      have "(int x + 1) * m_block_size m \<le> int y * m_block_size m"
        using that s by (intro mult_right_mono) auto
      then show ?thesis by (simp add: block_addr_def algebra_simps)
    qed
    from ij(3) have "i < j \<or> j < i" by arith
    with step ij s show ?thesis by fastforce
  qed
  moreover have "m_start m \<le> a \<and> a + m_block_size m - 1 \<le> m_end m" if "a \<in> taken m" for a
    using that block_in_range [OF r(4)] by (auto simp: taken_def)
  ultimately show ?thesis using m0(1) r by simp
qed

lemma memory_blocks_disjoint_witness:
  "returns (bindE (new_Memory 4096 64 3) (\<lambda>m.
      run_blocks getBlock backBlock [Alloc, Alloc, Release 0, Alloc, Alloc, Alloc] ([], m)))
    (\<lambda>(held, m). distinct held)"
proof -
  have "(0 :: int) < 64" "(0 :: int) \<le> 3" "3 * 64 \<le> INT_MAX" by (simp_all add: INT_MAX_def)
  from memory_blocks_disjoint [OF this, of 4096 "[Alloc, Alloc, Release 0, Alloc, Alloc, Alloc]"]
  show ?thesis by (elim returns_mono) auto
qed

end
