(* ===== verification/Coroutine_Pool.thy ===== *)
theory Coroutine_Pool
  imports Coroutine Memory
begin

text \<open>
  The pool of coroutines: \<open>coroutine/coroutine_pool.h\<close> and \<open>coroutine/coroutine_pool.cc\<close>. It
  owns one memory for the stacks of its own coroutines and further ones, taken when all of
  those are in use. New objects and new memory need addresses; these are arguments.
\<close>

section \<open>The code\<close>

record coroutine_pool =
  m_pool_size :: int
  m_pool_stack_size :: int
  m_free_cors :: "(nat \<times> bool) list"
  m_memory_pool :: "memory list"

text \<open>
  The constructor's loop: coroutine \<open>i\<close> gets the next block and the index \<open>i\<close>. A null block
  fails the assertion of the coroutine's constructor.
\<close>

fun create_cors ::
  "nat list \<Rightarrow> int \<Rightarrow> int \<Rightarrow> memory \<Rightarrow> 'cb thread \<Rightarrow> ((nat \<times> bool) list \<times> memory \<times> 'cb thread) res" where
  "create_cors [] i sz m th = Inr ([], m, th)"
| "create_cors (co # cos) i sz m th =
     (case getBlock m of (blk, m) \<Rightarrow>
      bindE (new_Coroutine co sz (case blk of None \<Rightarrow> 0 | Some a \<Rightarrow> a) th) (\<lambda>th.
      bindE (create_cors cos (i + 1) sz m (setIndex co i th)) (\<lambda>(cors, m, th).
      Inr ((co, False) # cors, m, th))))"

definition new_CoroutinePool ::
  "nat list \<Rightarrow> int \<Rightarrow> int \<Rightarrow> 'cb thread \<Rightarrow> (coroutine_pool \<times> 'cb thread) res" where
  "new_CoroutinePool addrs start stack_size th =
     (let th = snd (GetCurrentCoroutine th); pool_size = int (length addrs) in
      bindE (new_Memory start stack_size pool_size) (\<lambda>tmp.
      bindE (create_cors addrs 0 stack_size tmp th) (\<lambda>(cors, tmp, th).
      Inr (\<lparr>m_pool_size = pool_size, m_pool_stack_size = stack_size, m_free_cors = cors,
            m_memory_pool = [tmp]\<rparr>, th))))"

text \<open>The first coroutine that is neither handed out nor inside its callback.\<close>

fun find_free :: "'cb thread \<Rightarrow> (nat \<times> bool) list \<Rightarrow> nat option" where
  "find_free th [] = None"
| "find_free th ((co, used) # cors) =
     (if \<not> m_is_in_cofunc (coroutines th co) \<and> \<not> used then Some 0
      else map_option Suc (find_free th cors))"

fun first_block :: "memory list \<Rightarrow> (int \<times> memory list) option" where
  "first_block [] = None"
| "first_block (m # ms) =
     (case getBlock m of
        (Some a, m) \<Rightarrow> Some (a, m # ms)
      | (None, m) \<Rightarrow> map_option (\<lambda>(a, ms). (a, m # ms)) (first_block ms))"

text \<open>\<open>co\<close> and \<open>start\<close> are the addresses of a new coroutine and of a new memory, if needed.\<close>

definition getCoroutineInstanse ::
  "nat \<Rightarrow> int \<Rightarrow> coroutine_pool \<times> 'cb thread \<Rightarrow> (nat \<times> coroutine_pool \<times> 'cb thread) res" where
  "getCoroutineInstanse co start st =
     (case st of (p, th) \<Rightarrow>
      case find_free th (take (nat (m_pool_size p)) (m_free_cors p)) of
        Some i \<Rightarrow>
          let c = fst (m_free_cors p ! i) in
          Inr (c, p\<lparr>m_free_cors := (m_free_cors p)[i := (c, True)]\<rparr>, th)
      | None \<Rightarrow>
          (case first_block (tl (m_memory_pool p)) of
             Some (a, ms) \<Rightarrow>
               bindE (new_Coroutine co (m_pool_stack_size p) a th) (\<lambda>th.
               Inr (co, p\<lparr>m_memory_pool := hd (m_memory_pool p) # ms\<rparr>, th))
           | None \<Rightarrow>
               bindE (new_Memory start (m_pool_stack_size p) (m_pool_size p)) (\<lambda>m.
               case getBlock m of (blk, m) \<Rightarrow>
               bindE (new_Coroutine co (m_pool_stack_size p) (case blk of None \<Rightarrow> 0 | Some a \<Rightarrow> a) th) (\<lambda>th.
               Inr (co, p\<lparr>m_memory_pool := m_memory_pool p @ [m]\<rparr>, th)))))"

fun back_to :: "int \<Rightarrow> memory list \<Rightarrow> memory list res" where
  "back_to s [] = Inr []"
| "back_to s (m # ms) =
     bindE (if hasBlock s m then backBlock s m else Inr m) (\<lambda>m.
     bindE (back_to s ms) (\<lambda>ms. Inr (m # ms)))"

definition returnCoroutine ::
  "nat \<Rightarrow> coroutine_pool \<times> 'cb thread \<Rightarrow> (coroutine_pool \<times> 'cb thread) res" where
  "returnCoroutine co st =
     (case st of (p, th) \<Rightarrow>
      let i = m_index (coroutines th co) in
      if 0 \<le> i \<and> i < m_pool_size p then
        (if i < int (length (m_free_cors p)) then
           Inr (p\<lparr>m_free_cors := (m_free_cors p)[nat i := (fst (m_free_cors p ! nat i), False)]\<rparr>, th)
         else Inl Out_Of_Bounds)
      else
        bindE (back_to (m_stack_sp (coroutines th co)) (tl (m_memory_pool p))) (\<lambda>ms.
        Inr (p\<lparr>m_memory_pool := hd (m_memory_pool p) # ms\<rparr>, th)))"

section \<open>Handing out the pool's own coroutines\<close>

text \<open>
  The pool's coroutines are different objects, each with its position as its index.
\<close>

definition pool_wf :: "coroutine_pool \<times> 'cb thread \<Rightarrow> bool" where
  "pool_wf st \<longleftrightarrow>
     (case st of (p, th) \<Rightarrow>
        m_pool_size p = int (length (m_free_cors p)) \<and> distinct (map fst (m_free_cors p)) \<and>
        (\<forall>i < length (m_free_cors p).
           m_index (coroutines th (fst (m_free_cors p ! i))) = int i) \<and>
        m_memory_pool p \<noteq> [])"

definition handed_out :: "coroutine_pool \<Rightarrow> nat set" where
  "handed_out p = {co. (co, True) \<in> set (m_free_cors p)}"

lemma find_free_Some:
  "find_free th cors = Some i \<Longrightarrow>
   i < length cors \<and> \<not> snd (cors ! i) \<and> \<not> m_is_in_cofunc (coroutines th (fst (cors ! i)))"
  by (induction th cors arbitrary: i rule: find_free.induct) (auto split: if_splits)

lemma find_free_None:
  "find_free th cors = None \<longleftrightarrow> (\<forall>(co, used) \<in> set cors. used \<or> m_is_in_cofunc (coroutines th co))"
  by (induction th cors rule: find_free.induct) auto

lemma handed_out_update:
  assumes "distinct (map fst (m_free_cors p))" and "i < length (m_free_cors p)"
    and "p' = p\<lparr>m_free_cors := (m_free_cors p)[i := (fst (m_free_cors p ! i), v)]\<rparr>"
  shows "handed_out p' = (if v then insert (fst (m_free_cors p ! i)) (handed_out p)
                          else handed_out p - {fst (m_free_cors p ! i)})"
proof -
  let ?l = "m_free_cors p"
  have inj: "fst (?l ! j) = fst (?l ! i) \<longleftrightarrow> j = i" if "j < length ?l" for j
    using assms(1,2) that by (metis distinct_conv_nth length_map nth_map)
  have h: "co \<in> handed_out p \<longleftrightarrow> (\<exists>j < length ?l. ?l ! j = (co, True))" for co
    by (auto simp: handed_out_def in_set_conv_nth)
  have h': "co \<in> handed_out p' \<longleftrightarrow> (\<exists>j < length ?l. ?l[i := (fst (?l ! i), v)] ! j = (co, True))" for co
    by (auto simp: handed_out_def in_set_conv_nth assms(3))
  have "co \<in> handed_out p' \<longleftrightarrow> (if co = fst (?l ! i) then v else co \<in> handed_out p)" for co
  proof (cases "co = fst (?l ! i)")
    case True
    have "?l[i := (fst (?l ! i), v)] ! j = (co, True) \<longleftrightarrow> j = i \<and> v" if "j < length ?l" for j
      using inj [OF that] that True assms(2) by (cases "?l ! j") (auto simp: nth_list_update)
    then show ?thesis using assms(2) True unfolding h' by auto
  next
    case False
    have "?l[i := (fst (?l ! i), v)] ! j = (co, True) \<longleftrightarrow> ?l ! j = (co, True)" if "j < length ?l" for j
    proof (cases "j = i")
      case True
      then have "?l[i := (fst (?l ! i), v)] ! j = (fst (?l ! i), v)" using assms(2) by simp
      moreover have "?l ! j \<noteq> (co, True)" using True False by auto
      ultimately show ?thesis using False by auto
    next
      case False
      then show ?thesis by simp
    qed
    then show ?thesis using False unfolding h h' by auto
  qed
  then have "x \<in> handed_out p' \<longleftrightarrow> x \<in> (if v then insert (fst (?l ! i)) (handed_out p) else handed_out p - {fst (?l ! i)})" for x
    by (cases v; cases "x = fst (?l ! i)") (simp_all only: if_True if_False insert_iff Diff_iff simp_thms singleton_iff empty_iff)
  then show ?thesis by (rule set_eqI)
qed

lemma pool_wf_update:
  assumes "pool_wf (p, th)" and "i < length (m_free_cors p)"
  shows "pool_wf (p\<lparr>m_free_cors := (m_free_cors p)[i := (fst (m_free_cors p ! i), v)]\<rparr>, th)"
proof -
  let ?l = "m_free_cors p" and ?l' = "(m_free_cors p)[i := (fst (m_free_cors p ! i), v)]"
  have "map fst ?l' = (map fst ?l)[i := map fst ?l ! i]"
    by (simp add: map_update nth_map [OF assms(2)] del: nth_map list_update_id)
  then have m: "map fst ?l' = map fst ?l" by simp
  have "fst (?l' ! j) = fst (?l ! j)" if "j < length ?l" for j
    using that by (cases "j = i") simp_all
  with assms m show ?thesis by (simp add: pool_wf_def)
qed

text \<open>The coroutines and the sizes of a pool never change.\<close>

definition same_pool :: "coroutine_pool \<Rightarrow> coroutine_pool \<Rightarrow> bool" where
  "same_pool p p' \<longleftrightarrow> map fst (m_free_cors p') = map fst (m_free_cors p) \<and>
     m_pool_size p' = m_pool_size p \<and> m_pool_stack_size p' = m_pool_stack_size p"

lemma same_pool_update:
  "i < length (m_free_cors p) \<Longrightarrow> same_pool p (p\<lparr>m_free_cors := (m_free_cors p)[i := (fst (m_free_cors p ! i), v)]\<rparr>)"
  using nth_map [of i "m_free_cors p" fst] by (simp add: same_pool_def map_update del: nth_map) (metis list_update_id)

lemma getCoroutineInstanse_own:
  assumes wf: "pool_wf (p, th)" and free: "(co, False) \<in> set (m_free_cors p)"
    "\<not> m_is_in_cofunc (coroutines th co)"
  shows "\<exists>c p'. getCoroutineInstanse n start (p, th) = Inr (c, p', th) \<and> pool_wf (p', th) \<and>
    c \<notin> handed_out p \<and> handed_out p' = insert c (handed_out p) \<and>
    \<not> m_is_in_cofunc (coroutines th c) \<and> m_memory_pool p' = m_memory_pool p \<and> same_pool p p'"
proof -
  have t: "take (nat (m_pool_size p)) (m_free_cors p) = m_free_cors p"
    using wf by (simp add: pool_wf_def)
  have "find_free th (m_free_cors p) \<noteq> None"
    using free unfolding find_free_None by auto
  then obtain i where i: "find_free th (m_free_cors p) = Some i" by auto
  note f = find_free_Some [OF i]
  let ?c = "fst (m_free_cors p ! i)"
  have d: "distinct (map fst (m_free_cors p))" using wf by (simp add: pool_wf_def)
  have "?c \<notin> handed_out p"
  proof
    assume "?c \<in> handed_out p"
    then obtain j where j: "j < length (m_free_cors p)" "m_free_cors p ! j = (?c, True)"
      by (auto simp: handed_out_def in_set_conv_nth)
    then have "map fst (m_free_cors p) ! j = map fst (m_free_cors p) ! i" using f by simp
    then have "j = i" using nth_eq_iff_index_eq [OF d, of j i] f j(1) by simp
    with j(2) f show False by (cases "m_free_cors p ! i") auto
  qed
  with handed_out_update [OF d _ refl, of i True] pool_wf_update [OF wf, of i True] f i same_pool_update [of i p True]
  show ?thesis by (simp add: getCoroutineInstanse_def t Let_def)
qed

lemma returnCoroutine_own:
  assumes wf: "pool_wf (p, th)" and co: "co \<in> fst ` set (m_free_cors p)"
  shows "\<exists>p'. returnCoroutine co (p, th) = Inr (p', th) \<and> pool_wf (p', th) \<and>
    handed_out p' = handed_out p - {co} \<and> (co, False) \<in> set (m_free_cors p') \<and>
    m_memory_pool p' = m_memory_pool p \<and> same_pool p p'"
proof -
  from co obtain i where i: "i < length (m_free_cors p)" "fst (m_free_cors p ! i) = co"
    by (auto simp: in_set_conv_nth)
  from wf i have ix: "m_index (coroutines th co) = int i" "m_pool_size p = int (length (m_free_cors p))"
    and d: "distinct (map fst (m_free_cors p))" by (auto simp: pool_wf_def)
  have "(co, False) \<in> set ((m_free_cors p)[i := (co, False)])" using i(1) by (rule set_update_memI)
  with handed_out_update [OF d i(1) refl, of False] pool_wf_update [OF wf i(1), of False] i ix same_pool_update [OF i(1), of False]
  show ?thesis by (simp add: returnCoroutine_def Let_def)
qed

section \<open>Properties\<close>

definition example_pool :: "coroutine_pool \<times> string thread" where
  "example_pool =
     (\<lparr>m_pool_size = 2, m_pool_stack_size = 64, m_free_cors = [(5, False), (6, False)],
       m_memory_pool = [\<lparr>m_block_size = 64, m_block_count = 2, m_size = 128, m_start = 4096,
         m_end = 4223, m_ref_counts = 2, m_blocks = [True, True]\<rparr>]\<rparr>,
      setIndex 6 1 (setIndex 5 0 (new_thread 0)))"

lemma example_pool_wf: "pool_wf example_pool"
  by (simp add: pool_wf_def example_pool_def setIndex_def new_thread_def blank_coroutine_def
      All_less_Suc numeral_2_eq_2)

text \<open>
  While the pool has a free coroutine of its own, a request gets one that nobody holds and
  that is not inside a callback, without any new memory; giving it back makes it available
  again and changes nothing for the others.
\<close>

theorem pool_hands_out_once:
  assumes "pool_wf (p, th)" and "(co, False) \<in> set (m_free_cors p)"
    and "\<not> m_is_in_cofunc (coroutines th co)"
  shows "\<exists>c p1 p2. getCoroutineInstanse n start (p, th) = Inr (c, p1, th) \<and>
    c \<notin> handed_out p \<and> handed_out p1 = insert c (handed_out p) \<and> m_memory_pool p1 = m_memory_pool p \<and>
    returnCoroutine c (p1, th) = Inr (p2, th) \<and> handed_out p2 = handed_out p \<and> pool_wf (p2, th)"
proof -
  from getCoroutineInstanse_own [OF assms] obtain c p1 where
    g: "getCoroutineInstanse n start (p, th) = Inr (c, p1, th)" "pool_wf (p1, th)" "c \<notin> handed_out p"
    "handed_out p1 = insert c (handed_out p)" "m_memory_pool p1 = m_memory_pool p" by blast
  have "c \<in> handed_out p1" using g(4) by simp
  then have "c \<in> fst ` set (m_free_cors p1)" by (force simp: handed_out_def)
  from returnCoroutine_own [OF g(2) this] g show ?thesis by auto
qed

lemma pool_hands_out_once_witness:
  "\<exists>c p1 p2. getCoroutineInstanse 9 0 example_pool = Inr (c, p1, snd example_pool) \<and>
     returnCoroutine c (p1, snd example_pool) = Inr (p2, snd example_pool)"
proof -
  have e: "(fst example_pool, snd example_pool) = example_pool" by simp
  have "(5, False) \<in> set (m_free_cors (fst example_pool))"
    "\<not> m_is_in_cofunc (coroutines (snd example_pool) 5)"
    by (simp_all add: example_pool_def setIndex_def new_thread_def blank_coroutine_def)
  from pool_hands_out_once [OF _ this, of 9 0] example_pool_wf show ?thesis by auto
qed

text \<open>
  A coroutine that is parked for ever inside its callback, as the code of every closed
  server connection leaves it, is lost to the pool: after it has been given back it is still
  never handed out, and no new callback can be set on it.
\<close>

theorem pool_loses_parked_coroutine:
  assumes "pool_wf (p, th)" and "co \<in> fst ` set (m_free_cors p)"
    and "m_is_in_cofunc (coroutines th co)" and "n \<notin> fst ` set (m_free_cors p)"
  shows "\<exists>p'. returnCoroutine co (p, th) = Inr (p', th) \<and> co \<notin> handed_out p' \<and>
    (\<forall>c q th'. getCoroutineInstanse n start (p', th) = Inr (c, q, th') \<longrightarrow> c \<noteq> co) \<and>
    fst (setCallBack_cor co cb th) = False"
proof -
  from returnCoroutine_own [OF assms(1,2)] obtain p' where
    r: "returnCoroutine co (p, th) = Inr (p', th)" "pool_wf (p', th)" "co \<notin> handed_out p'" "same_pool p p'" by blast
  from r(4) have fs: "fst ` set (m_free_cors p') = fst ` set (m_free_cors p)"
    by (metis list.set_map same_pool_def)
  have "c \<noteq> co" if g: "getCoroutineInstanse n start (p', th) = Inr (c, q, th')" for c q th'
  proof (cases "find_free th (take (nat (m_pool_size p')) (m_free_cors p'))")
    case None
    with g have "c = n"
      by (cases "first_block (tl (m_memory_pool p'))")
        (auto simp: getCoroutineInstanse_def bindE_eq_Inr split_beta)
    with assms(2,4) show ?thesis by auto
  next
    case (Some i)
    have t: "take (nat (m_pool_size p')) (m_free_cors p') = m_free_cors p'"
      using r(2) by (simp add: pool_wf_def)
    from Some g find_free_Some [OF Some] show ?thesis
      using assms(3) by (auto simp: getCoroutineInstanse_def Let_def t)
  qed
  moreover have "fst (setCallBack_cor co cb th) = False"
    using assms(3) by (simp add: setCallBack_cor_def)
  ultimately show ?thesis using r by blast
qed

lemma pool_loses_parked_coroutine_witness:
  "fst (setCallBack_cor 5 ''again'' (setIsInCoFunc 5 True (snd example_pool))) = False"
proof -
  let ?th = "setIsInCoFunc 5 True (snd example_pool)"
  have "pool_wf (fst example_pool, ?th)"
    by (simp add: pool_wf_def example_pool_def setIndex_def setIsInCoFunc_def new_thread_def
        blank_coroutine_def All_less_Suc numeral_2_eq_2)
  moreover have "m_is_in_cofunc (coroutines ?th 5)" by (simp add: setIsInCoFunc_def)
  moreover have "5 \<in> fst ` set (m_free_cors (fst example_pool))" "9 \<notin> fst ` set (m_free_cors (fst example_pool))"
    by (simp_all add: example_pool_def)
  ultimately show ?thesis using pool_loses_parked_coroutine [of "fst example_pool" ?th 5 9 0 "''again''"]
    by blast
qed

end
