(* ===== verification/Io_Thread.thy ===== *)
theory Io_Thread
  imports Reactor Coroutine_Pool
begin

text \<open>
  The threads that serve connections: \<open>net/tcp/io_thread.h\<close> and \<open>net/tcp/io_thread.cc\<close>. A thread
  is its reactor with the number the system gives it; the semaphores of its start are the flag
  \<open>io_started\<close>. The random number and the calling thread are arguments.
\<close>

section \<open>The code\<close>

record 'cb io_thread =
  io_reactor :: "'cb reactor"
  m_thread :: nat
  m_thread_index :: int
  io_started :: bool

record 'cb io_thread_pool =
  m_size :: int
  m_io_index :: int
  m_io_threads :: "'cb io_thread list"

text \<open>
  \<open>IOThread::IOThread\<close> and the part of \<open>main\<close> it waits for: the reactor of the new thread is
  made a sub reactor. The thread then waits for \<open>start\<close>.
\<close>

definition new_IOThread :: "'cb reactor \<Rightarrow> nat \<Rightarrow> 'cb io_thread" where
  "new_IOThread r tid =
     \<lparr>io_reactor = setReactorType SubReactor r, m_thread = tid, m_thread_index = -1, io_started = False\<rparr>"

definition setThreadIndex :: "int \<Rightarrow> 'cb io_thread \<Rightarrow> 'cb io_thread" where
  "setThreadIndex i t = t\<lparr>m_thread_index := i\<rparr>"

definition new_IOThreadPool :: "('cb reactor \<times> nat) list \<Rightarrow> 'cb io_thread_pool" where
  "new_IOThreadPool ts =
     \<lparr>m_size = int (length ts), m_io_index = -1,
      m_io_threads = map (\<lambda>(i, r, tid). setThreadIndex (int i) (new_IOThread r tid)) (enumerate 0 ts)\<rparr>"

definition io_start :: "'cb io_thread_pool \<Rightarrow> 'cb io_thread_pool" where
  "io_start p = p\<lparr>m_io_threads := map (\<lambda>t. t\<lparr>io_started := True\<rparr>) (m_io_threads p)\<rparr>"

text \<open>\<open>getIOThread\<close> gives the index of the thread.\<close>

definition getIOThread :: "'cb io_thread_pool \<Rightarrow> (nat \<times> 'cb io_thread_pool) res" where
  "getIOThread p =
     (let i = (if m_io_index p = m_size p \<or> m_io_index p = -1 then 0 else m_io_index p) in
      bindE (read_at (m_io_threads p) i) (\<lambda>_. Inr (nat i, p\<lparr>m_io_index := i + 1\<rparr>)))"

definition on_thread :: "nat \<Rightarrow> ('cb reactor \<Rightarrow> 'cb reactor) \<Rightarrow> 'cb io_thread_pool \<Rightarrow> 'cb io_thread_pool" where
  "on_thread i f p =
     p\<lparr>m_io_threads := (m_io_threads p)[i := (m_io_threads p ! i)\<lparr>io_reactor := f (io_reactor (m_io_threads p ! i))\<rparr>]\<rparr>"

definition broadcastTask :: "'cb option \<Rightarrow> 'cb io_thread_pool \<Rightarrow> 'cb io_thread_pool" where
  "broadcastTask cb p =
     p\<lparr>m_io_threads := map (\<lambda>t. t\<lparr>io_reactor := addTask cb True (io_reactor t)\<rparr>) (m_io_threads p)\<rparr>"

definition addTaskByIndex :: "int \<Rightarrow> 'cb option \<Rightarrow> 'cb io_thread_pool \<Rightarrow> 'cb io_thread_pool" where
  "addTaskByIndex index cb p =
     (if 0 \<le> index \<and> index < m_size p then on_thread (nat index) (addTask cb True) p else p)"

text \<open>
  \<open>addCoroutineToRandomThread\<close>: \<open>random\<close> is the result of \<open>rand()\<close>, \<open>cur\<close> the thread of the
  caller, \<open>None\<close> when it is not an IO thread.
\<close>

definition random_index :: "nat \<Rightarrow> nat option \<Rightarrow> bool \<Rightarrow> 'cb io_thread_pool \<Rightarrow> int res" where
  "random_index random cur self p =
     (if m_size p = 0 then Inl Division_By_Zero
      else
        let i = int random mod m_size p in
        if self then Inr i
        else case cur of
          None \<Rightarrow> Inl Null_Pointer
        | Some t \<Rightarrow>
            bindE (read_at (m_io_threads p) i) (\<lambda>th.
            Inr (if m_thread th = t then
                   let i = i + 1 in if i = m_size p then i - 2 else i
                 else i)))"

definition addCoroutineToRandomThread ::
  "(nat \<Rightarrow> 'cb) \<Rightarrow> nat \<Rightarrow> nat option \<Rightarrow> nat \<Rightarrow> bool \<Rightarrow> 'cb io_thread_pool \<Rightarrow> 'cb io_thread_pool res" where
  "addCoroutineToRandomThread resume_task random cur cor self p =
     (if m_size p = 1 then
        bindE (read_at (m_io_threads p) 0) (\<lambda>_. Inr (on_thread 0 (addCoroutine resume_task cor True) p))
      else
        bindE (random_index random cur self p) (\<lambda>i.
        bindE (read_at (m_io_threads p) i) (\<lambda>_.
        Inr (on_thread (nat i) (addCoroutine resume_task cor True) p))))"

text \<open>
  The variants that take a callback draw a coroutine from the caller's pool and give it the
  callback; \<open>co\<close> and \<open>start\<close> are the addresses that may be needed for it.
\<close>

definition cor_with ::
  "nat \<Rightarrow> int \<Rightarrow> 'cb \<Rightarrow> coroutine_pool \<times> 'cb thread \<Rightarrow> (nat \<times> coroutine_pool \<times> 'cb thread) res" where
  "cor_with co start cb cp =
     bindE (getCoroutineInstanse co start cp) (\<lambda>(c, pool, th).
     Inr (c, pool, snd (setCallBack_cor c cb th)))"

definition addCallbackToRandomThread ::
  "(nat \<Rightarrow> 'cb) \<Rightarrow> nat \<Rightarrow> nat option \<Rightarrow> nat \<Rightarrow> int \<Rightarrow> 'cb \<Rightarrow> bool \<Rightarrow>
   (coroutine_pool \<times> 'cb thread) \<times> 'cb io_thread_pool \<Rightarrow>
   (nat \<times> (coroutine_pool \<times> 'cb thread) \<times> 'cb io_thread_pool) res" where
  "addCallbackToRandomThread resume_task random cur co start cb self st =
     (case st of (cp, p) \<Rightarrow>
      bindE (cor_with co start cb cp) (\<lambda>(c, cp).
      bindE (addCoroutineToRandomThread resume_task random cur c self p) (\<lambda>p. Inr (c, cp, p))))"

definition addCoroutineToThreadByIndex ::
  "(nat \<Rightarrow> 'cb) \<Rightarrow> nat \<Rightarrow> int \<Rightarrow> int \<Rightarrow> 'cb \<Rightarrow> (coroutine_pool \<times> 'cb thread) \<times> 'cb io_thread_pool \<Rightarrow>
   (nat option \<times> (coroutine_pool \<times> 'cb thread) \<times> 'cb io_thread_pool) res" where
  "addCoroutineToThreadByIndex resume_task co start index cb st =
     (case st of (cp, p) \<Rightarrow>
      if index \<ge> wrap32 (int (length (m_io_threads p))) \<or> index < 0 then Inr (None, cp, p)
      else bindE (cor_with co start cb cp) (\<lambda>(c, cp).
           Inr (Some c, cp, on_thread (nat index) (addCoroutine resume_task c True) p)))"

text \<open>\<open>addCoroutineToEachThread\<close>, with the addresses for each thread, and the threads from \<open>i\<close> on.\<close>

fun addCoroutineToEachThread ::
  "(nat \<Rightarrow> 'cb) \<Rightarrow> (nat \<times> int) list \<Rightarrow> nat \<Rightarrow> 'cb \<Rightarrow> (coroutine_pool \<times> 'cb thread) \<times> 'cb io_thread_pool \<Rightarrow>
   ((coroutine_pool \<times> 'cb thread) \<times> 'cb io_thread_pool) res" where
  "addCoroutineToEachThread resume_task [] i cb st = Inr st"
| "addCoroutineToEachThread resume_task ((co, start) # addrs) i cb (cp, p) =
     (if i < length (m_io_threads p) then
        bindE (cor_with co start cb cp) (\<lambda>(c, cp).
        addCoroutineToEachThread resume_task addrs (Suc i) cb
          (cp, on_thread i (addCoroutine resume_task c True) p))
      else Inr (cp, p))"

section \<open>Choosing a thread\<close>

definition io_pool_wf :: "'cb io_thread_pool \<Rightarrow> bool" where
  "io_pool_wf p \<longleftrightarrow>
     m_size p = int (length (m_io_threads p)) \<and> m_io_threads p \<noteq> [] \<and>
     distinct (map m_thread (m_io_threads p)) \<and>
     (m_io_index p = -1 \<or> 0 \<le> m_io_index p \<and> m_io_index p \<le> m_size p)"

definition next_thread :: "'cb io_thread_pool \<Rightarrow> nat" where
  "next_thread p = (if m_io_index p = -1 then 0 else nat (m_io_index p)) mod length (m_io_threads p)"

lemma new_IOThreadPool_wf:
  "ts \<noteq> [] \<Longrightarrow> distinct (map snd ts) \<Longrightarrow> io_pool_wf (new_IOThreadPool ts) \<and> next_thread (new_IOThreadPool ts) = 0"
proof -
  have "map m_thread (m_io_threads (new_IOThreadPool ts)) = map snd ts"
    by (simp add: new_IOThreadPool_def comp_def setThreadIndex_def new_IOThread_def case_prod_beta
        list_eq_iff_nth_eq nth_enumerate_eq)
  then show "ts \<noteq> [] \<Longrightarrow> distinct (map snd ts) \<Longrightarrow> io_pool_wf (new_IOThreadPool ts) \<and> next_thread (new_IOThreadPool ts) = 0"
    by (simp add: io_pool_wf_def next_thread_def) (simp add: new_IOThreadPool_def enumerate_eq_zip)
qed

lemma getIOThread_next:
  assumes "io_pool_wf p"
  shows "\<exists>p'. getIOThread p = Inr (next_thread p, p') \<and> io_pool_wf p' \<and>
    m_io_threads p' = m_io_threads p \<and> next_thread p' = Suc (next_thread p) mod length (m_io_threads p)"
proof -
  let ?n = "length (m_io_threads p)"
  have n: "0 < ?n" "m_size p = int ?n" using assms by (simp_all add: io_pool_wf_def)
  let ?i = "if m_io_index p = m_size p \<or> m_io_index p = -1 then 0 else m_io_index p"
  have i: "0 \<le> ?i" "?i < int ?n" "nat ?i = next_thread p"
    using assms n by (auto simp: io_pool_wf_def next_thread_def)
  have "nat (?i + 1) = Suc (next_thread p)" using Suc_nat_eq_nat_zadd1 [OF i(1)] i(3) by simp
  then show ?thesis
    using assms i n by (auto simp: getIOThread_def Let_def read_at_def io_pool_wf_def next_thread_def [of "_\<lparr>m_io_index := _\<rparr>"])
qed

text \<open>The indices of \<open>k\<close> calls in a row.\<close>

fun draw_threads :: "nat \<Rightarrow> 'cb io_thread_pool \<Rightarrow> nat list res" where
  "draw_threads 0 p = Inr []"
| "draw_threads (Suc k) p = bindE (getIOThread p) (\<lambda>(i, p). bindE (draw_threads k p) (\<lambda>is. Inr (i # is)))"

lemma draw_threads_from:
  assumes "io_pool_wf p"
  shows "draw_threads k p = Inr (map (\<lambda>j. (next_thread p + j) mod length (m_io_threads p)) [0..<k])"
  using assms
proof (induction k arbitrary: p)
  case (Suc k)
  from getIOThread_next [OF Suc.prems] obtain p' where p': "getIOThread p = Inr (next_thread p, p')" "io_pool_wf p'"
    "m_io_threads p' = m_io_threads p" "next_thread p' = Suc (next_thread p) mod length (m_io_threads p)" by blast
  have "map (\<lambda>j. (next_thread p + j) mod length (m_io_threads p)) [0..<Suc k] =
      next_thread p mod length (m_io_threads p) #
      map (\<lambda>j. (Suc (next_thread p) + j) mod length (m_io_threads p)) [0..<k]"
    by (simp add: upt_conv_Cons map_Suc_upt [symmetric] comp_def del: upt_Suc)
  moreover have "next_thread p mod length (m_io_threads p) = next_thread p" by (simp add: next_thread_def)
  ultimately show ?case using Suc.IH [OF p'(2)] p' by (simp add: mod_simps del: upt_Suc)
qed simp

section \<open>Properties\<close>

text \<open>
  Connections are dealt out in turn: on a new pool of \<open>n\<close> threads, the \<open>j\<close>-th call of
  \<open>getIOThread\<close> gives the thread \<open>j mod n\<close>, for any number of calls and without a fault.
\<close>

theorem io_threads_in_turn:
  assumes "ts \<noteq> []" and "distinct (map snd ts)"
  shows "draw_threads k (new_IOThreadPool ts) = Inr (map (\<lambda>j. j mod length ts) [0..<k])"
proof -
  have "length (m_io_threads (new_IOThreadPool ts)) = length ts" by (simp add: new_IOThreadPool_def enumerate_eq_zip)
  with draw_threads_from [of "new_IOThreadPool ts" k] new_IOThreadPool_wf [OF assms] show ?thesis by simp
qed

definition example_threads :: "(string reactor \<times> nat) list" where
  "example_threads = map (\<lambda>i. (new_Reactor (\<lambda>fd. 0 \<le> fd) (int i), i)) [11, 12, 13]"

lemma io_threads_in_turn_witness:
  "draw_threads 5 (new_IOThreadPool example_threads) = Inr [0, 1, 2, 0, 1]"
proof -
  have "map (\<lambda>j. j mod length example_threads) [0..<5] = [0, 1, 2, 0, 1]" by (simp add: example_threads_def upt_rec)
  with io_threads_in_turn [of example_threads 5] show ?thesis by (simp add: example_threads_def)
qed

text \<open>
  A coroutine for another thread goes to a thread of the pool that is not the caller's,
  whatever the random number; but when the caller is not an IO thread, such as the main thread
  of the server, the code dereferences a null pointer.
\<close>

theorem random_thread_is_another:
  assumes "io_pool_wf p" and "1 < m_size p"
  shows "returns (random_index random (Some t) False p) (\<lambda>i. 0 \<le> i \<and> i < m_size p \<and>
      m_thread (m_io_threads p ! nat i) \<noteq> t) \<and>
    addCoroutineToRandomThread resume_task random None cor False p = Inl Null_Pointer"
proof -
  let ?n = "m_size p" and ?l = "m_io_threads p"
  define i where "i = int random mod ?n"
  have n: "?n = int (length ?l)" using assms(1) by (simp add: io_pool_wf_def)
  have i: "0 \<le> i" "i < ?n" using assms(2) by (simp_all add: i_def)
  have inj: "m_thread (?l ! a) = m_thread (?l ! b) \<longleftrightarrow> a = b" if "a < length ?l" "b < length ?l" for a b
    using nth_eq_iff_index_eq [of "map m_thread ?l" a b] that assms(1) by (simp add: io_pool_wf_def)
  let ?j = "if i + 1 = ?n then i - 1 else i + 1"
  have j: "0 \<le> ?j" "?j < ?n" "nat ?j \<noteq> nat i" using i assms(2) by auto
  have "m_thread (?l ! nat ?j) \<noteq> m_thread (?l ! nat i)"
    using inj [of "nat ?j" "nat i"] i j n by auto
  moreover have "random_index random (Some t) False p = Inr (if m_thread (?l ! nat i) = t then ?j else i)"
    unfolding random_index_def Let_def i_def [symmetric] read_at_def n [symmetric] using i assms(2) by simp
  moreover have "random_index random None False p = Inl Null_Pointer"
    using assms(2) by (simp add: random_index_def)
  ultimately show ?thesis
    using i j assms(2) by (auto simp: addCoroutineToRandomThread_def)
qed

lemma random_thread_is_another_witness:
  "returns (random_index 5 (Some 13) False (new_IOThreadPool example_threads)) (\<lambda>i. 0 \<le> i \<and> i < 3 \<and>
      m_thread (m_io_threads (new_IOThreadPool example_threads) ! nat i) \<noteq> 13)"
proof -
  have "io_pool_wf (new_IOThreadPool example_threads)"
    using new_IOThreadPool_wf [of example_threads] by (simp add: example_threads_def)
  moreover have "m_size (new_IOThreadPool example_threads) = 3" by (simp add: new_IOThreadPool_def example_threads_def)
  ultimately show ?thesis using random_thread_is_another [of "new_IOThreadPool example_threads" 5 13] by simp
qed

end
