(* ===== verification/Abstract_Data.thy ===== *)
theory Abstract_Data
  imports Prelude
begin

text \<open>
  The base of every protocol object, \<open>net/base/abstract_data.h\<close>. The derived classes are
  record extensions of \<open>abstract_data\<close>.
\<close>

record abstract_data =
  decode_succ :: bool
  encode_succ :: bool

end
