(* ===== verification/Abstract_Codec.thy ===== *)
theory Abstract_Codec
  imports Tcp_Buffer Abstract_Data
begin

text \<open>
  The interface between a connection and its codec: \<open>net/base/abstract_codec.h\<close>. A codec
  names its protocol, and its \<open>decode\<close> takes at most one message from the front of the read
  buffer. The locale \<open>frame_codec\<close> is what the loop of \<open>TcpConnection::execute\<close> relies on;
  both codecs interpret it.
\<close>

datatype protocal_type = FlconcPb_Protocal | Http_Protocal

text \<open>
  The loop of \<open>TcpConnection::execute\<close>, over any codec and any treatment \<open>h\<close> of a decoded
  message: it ends when the buffer is empty or a decoding does not succeed. Nothing in the
  code bounds it, so it has fuel; \<open>None\<close> is a loop that has used it up.
\<close>

fun frame_loop ::
  "nat \<Rightarrow> (tcp_buffer \<Rightarrow> (tcp_buffer \<times> 'd) res) \<Rightarrow> ('d \<Rightarrow> bool) \<Rightarrow> ('d \<Rightarrow> 's \<Rightarrow> 's res) \<Rightarrow>
   tcp_buffer \<Rightarrow> 's \<Rightarrow> (tcp_buffer \<times> 's) res option" where
  "frame_loop 0 decode succ h b s = None"
| "frame_loop (Suc n) decode succ h b s =
     (if readAble b > 0 then
        case decode b of
          Inl e \<Rightarrow> Some (Inl e)
        | Inr (b, d) \<Rightarrow>
            if \<not> succ d then Some (Inr (b, s))
            else (case h d s of Inl e \<Rightarrow> Some (Inl e) | Inr s \<Rightarrow> frame_loop n decode succ h b s)
      else Some (Inr (b, s)))"

fun handle_all :: "('d \<Rightarrow> 's \<Rightarrow> 's res) \<Rightarrow> 'd list \<Rightarrow> 's \<Rightarrow> 's res" where
  "handle_all h [] s = Inr s"
| "handle_all h (d # ds) s = bindE (h d s) (handle_all h ds)"

text \<open>A buffer from whose front something was taken: \<open>rest\<close> is left, in a vector of the same size.\<close>

definition drained :: "tcp_buffer \<Rightarrow> char list \<Rightarrow> tcp_buffer \<Rightarrow> bool" where
  "drained b rest b' \<longleftrightarrow> buffer_wf b' \<and> view b' = rest \<and> m_write_index b' \<le> m_write_index b \<and>
     length (m_buffer b') = length (m_buffer b) \<and> (settled b \<longrightarrow> settled b')"

lemma drained_refl: "buffer_wf b \<Longrightarrow> view b = xs \<Longrightarrow> drained b xs b"
  by (simp add: drained_def)

lemma drained_trans: "drained b xs b1 \<Longrightarrow> drained b1 ys b2 \<Longrightarrow> drained b ys b2"
  by (simp add: drained_def)

text \<open>
  \<open>f\<close> is a message as its sender means it, \<open>wire f\<close> its bytes and \<open>delivered f\<close> is what a
  receiver should get.
\<close>

locale frame_codec =
  fixes decode :: "tcp_buffer \<Rightarrow> (tcp_buffer \<times> 'd) res"
    and succ :: "'d \<Rightarrow> bool"
    and ok :: "'f \<Rightarrow> bool"
    and wire :: "'f \<Rightarrow> char list"
    and delivered :: "'f \<Rightarrow> 'd"
  assumes decode_frame: "buffer_wf b \<Longrightarrow> ok f \<Longrightarrow> view b = wire f @ rest \<Longrightarrow>
      returns (decode b) (\<lambda>(b', d). drained b rest b' \<and> d = delivered f)"
    and delivered_succ: "succ (delivered f)"
    and wire_nonempty: "ok f \<Longrightarrow> wire f \<noteq> []"
begin

text \<open>
  With fuel for one more round than there are messages, the loop hands every message in the
  buffer to \<open>h\<close>, in the order they were sent, and empties the buffer.
\<close>

lemma frame_loop_frames:
  assumes "buffer_wf b" and "\<forall>f \<in> set fs. ok f" and "view b = concat (map wire fs)"
    and "length fs < n"
  shows "\<exists>b'. drained b [] b' \<and>
    frame_loop n decode succ h b s = Some (bindE (handle_all h (map delivered fs) s) (\<lambda>s. Inr (b', s)))"
  using assms
proof (induction fs arbitrary: b n s)
  case Nil
  then obtain k where "n = Suc k" by (cases n) auto
  moreover from Nil have "readAble b = 0" by (simp flip: length_view)
  ultimately show ?case using Nil by (auto simp: drained_refl)
next
  case (Cons f fs)
  then obtain k where n: "n = Suc k" "length fs < k" by (cases n) auto
  from Cons.prems(2) wire_nonempty have "wire f \<noteq> []" by simp
  with Cons.prems length_view [of b] have r: "readAble b > 0" by (cases "wire f") auto
  from Cons.prems have "returns (decode b) (\<lambda>(b', d). drained b (concat (map wire fs)) b' \<and> d = delivered f)"
    by (intro decode_frame [of b f]) auto
  then obtain b1 where d: "decode b = Inr (b1, delivered f)" "drained b (concat (map wire fs)) b1"
    by (auto elim!: returnsE)
  then have b1: "buffer_wf b1" "view b1 = concat (map wire fs)" by (simp_all add: drained_def)
  have IH: "\<exists>b'. drained b1 [] b' \<and> frame_loop k decode succ h b1 s1 =
      Some (bindE (handle_all h (map delivered fs) s1) (\<lambda>s. Inr (b', s)))" for s1
    using Cons.IH [OF b1(1) _ b1(2) n(2)] Cons.prems(2) by simp
  show ?case
  proof (cases "h (delivered f) s")
    case (Inl e)
    moreover from IH [of s] obtain b' where "drained b [] b'" using drained_trans [OF d(2)] by blast
    ultimately show ?thesis using n r d by (auto simp: delivered_succ)
  next
    case (Inr s1)
    from IH [of s1] obtain b' where "drained b1 [] b'"
      "frame_loop k decode succ h b1 s1 = Some (bindE (handle_all h (map delivered fs) s1) (\<lambda>s. Inr (b', s)))"
      by blast
    then show ?thesis
      using n r d Inr drained_trans by (intro exI [of _ b']) (auto simp: delivered_succ)
  qed
qed

end

text \<open>
  A buffer that the decoder accepts without consuming anything keeps the loop busy for ever.
\<close>

lemma frame_loop_diverges:
  assumes "readAble b > 0" and "decode b = Inr (b, d)" and "succ d" and "\<And>s. \<exists>s'. h d s = Inr s'"
  shows "frame_loop n decode succ h b s = None"
proof (induction n arbitrary: s)
  case (Suc n)
  from assms(4) [of s] obtain s' where "h d s = Inr s'" ..
  with assms Suc show ?case by simp
qed simp

end
