(* ===== verification/Net_Byte.thy ===== *)
theory Net_Byte
  imports Prelude
begin

text \<open>
  32-bit integers in network byte order: \<open>htonl\<close> followed by \<open>memcpy\<close> on the encoding
  side, \<open>getInt32FromNetByte\<close> of \<open>net/base/byte.h\<close> on the decoding side.
\<close>

text \<open>The four bytes \<open>memcpy\<close> stores for \<open>htonl(n)\<close>, most significant first.\<close>

definition int32_net :: "int \<Rightarrow> char list" where
  "int32_net n =
     (let u = uint (word_of_int n :: 32 word)
      in [char_of (u div 16777216), char_of (u div 65536), char_of (u div 256), char_of u])"

definition net_int32 :: "char list \<Rightarrow> int" where
  "net_int32 bs =
     sint (word_of_int (foldl (\<lambda>u c. 256 * u + of_char c) 0 bs) :: 32 word)"

definition getInt32FromNetByte :: "char list \<Rightarrow> int \<Rightarrow> int res" where
  "getInt32FromNetByte v i = bindE (read_range v i 4) (\<lambda>bs. Inr (net_int32 bs))"

lemma length_int32_net [simp]: "length (int32_net n) = 4"
  by (simp add: int32_net_def Let_def)

lemma base256_digits:
  fixes u :: int
  assumes "0 \<le> u" and "u < 4294967296"
  shows "16777216 * (u div 16777216 mod 256) + 65536 * (u div 65536 mod 256)
           + 256 * (u div 256 mod 256) + u mod 256 = u"
proof -
  have q: "u div 65536 = u div 256 div 256" "u div 16777216 = u div 256 div 256 div 256"
    by (simp_all flip: zdiv_zmult2_eq)
  from assms have "u div 16777216 < 256" "0 \<le> u div 16777216" by auto
  then have "u div 16777216 mod 256 = u div 256 div 256 div 256" by (simp add: q)
  moreover have "256 * (u div 256 div 256 div 256) + u div 256 div 256 mod 256 = u div 256 div 256"
    "256 * (u div 256 div 256) + u div 256 mod 256 = u div 256" "256 * (u div 256) + u mod 256 = u"
    by (rule mult_div_mod_eq)+
  ultimately show ?thesis unfolding q by linarith
qed

lemma net_int32_int32_net:
  assumes "fits_int n"
  shows "net_int32 (int32_net n) = n"
proof -
  let ?u = "uint (word_of_int n :: 32 word)"
  have "0 \<le> ?u" "?u < 4294967296"
    using uint_bounded [of "word_of_int n :: 32 word"] by simp_all
  then have "foldl (\<lambda>u c. 256 * u + of_char c) 0 (int32_net n) = ?u"
    by (simp add: int32_net_def Let_def base256_digits del: uint_word_of_int_eq)
  then have "net_int32 (int32_net n) = sint (word_of_int ?u :: 32 word)"
    by (simp only: net_int32_def)
  also have "\<dots> = wrap32 n" by (simp add: wrap32_def)
  finally show ?thesis using assms by simp
qed

lemma fits_int_net_int32: "fits_int (net_int32 bs)"
proof -
  let ?x = "word_of_int (foldl (\<lambda>u c. 256 * u + of_char c) 0 bs) :: 32 word"
  have "- (2 ^ 31) \<le> sint ?x" "sint ?x < 2 ^ 31"
    using sint_ge [of ?x] sint_lt [of ?x] by simp_all
  then show ?thesis by (simp add: net_int32_def fits_int_def INT_MIN_def INT_MAX_def)
qed

lemma getInt32FromNetByte_at:
  assumes "v = xs @ int32_net n @ ys" and "i = int (length xs)" and "fits_int n"
  shows "getInt32FromNetByte v i = Inr n"
  using assms
  by (simp add: getInt32FromNetByte_def read_range_def net_int32_int32_net)

end
