(* ===== verification/Msg_Req.thy ===== *)
theory Msg_Req
  imports Prelude
begin

text \<open>
  Message numbers, \<open>comm/msg_req.cc\<close>: every thread draws a random decimal string of the
  configured length and then counts upwards from it, drawing again at \<open>99...9\<close>.
\<close>

section \<open>The code\<close>

text \<open>The two thread-local strings.\<close>

record msg_req_state =
  t_msg_req_nu :: string
  t_max_msg_req_nu :: string

definition init_msg_req :: msg_req_state where
  "init_msg_req = \<lparr>t_msg_req_nu = [], t_max_msg_req_nu = []\<rparr>"

text \<open>
  \<open>while (t_msg_req_nu[i] == '9' && i >= 0) i--;\<close> the element is read before the bound
  is tested, so running off the front of the string is an access at index \<open>-1\<close>.
\<close>

function skip_nines :: "string \<Rightarrow> int \<Rightarrow> int res" where
  "skip_nines t i =
     bindE (read_at t i) (\<lambda>c. if c = CHR ''9'' \<and> 0 \<le> i then skip_nines t (i - 1) else Inr i)"
  by pat_completeness auto
termination
  by (relation "measure (\<lambda>(t, i). nat (i + 1))") auto

declare skip_nines.simps [simp del]

text \<open>\<open>t_msg_req_nu[i] += 1\<close> and a zero in every later position.\<close>

definition carry_at :: "string \<Rightarrow> int \<Rightarrow> string" where
  "carry_at t i =
     take (nat i) t @ [char_of ((of_char (t ! nat i) :: nat) + 1)]
       @ replicate (length t - nat i - 1) (CHR ''0'')"

text \<open>\<open>res[i] = ((uint8_t) res[i]) % 10 + '0'\<close>.\<close>

definition random_digit :: "char \<Rightarrow> char" where
  "random_digit c = char_of ((of_char c :: nat) mod 10 + 48)"

text \<open>
  \<open>genMsgNumber\<close>: \<open>len\<close> is 20 or the configured \<open>m_msg_req_len\<close>, \<open>rnd\<close> what reading
  \<open>len\<close> bytes of \<open>/dev/urandom\<close> gives in this call (fewer bytes when the read is short).
\<close>

definition genMsgNumber ::
  "int \<Rightarrow> char list \<Rightarrow> msg_req_state \<Rightarrow> (string \<times> msg_req_state) res" where
  "genMsgNumber len rnd s =
     (if t_msg_req_nu s = [] \<or> t_msg_req_nu s = t_max_msg_req_nu s then
        bindE (new_vector NUL len) (\<lambda>_.
        if int (length rnd) \<noteq> len then Inr ([], s)
        else
          let res = map random_digit rnd in
          Inr (res, \<lparr>t_msg_req_nu = res,
                     t_max_msg_req_nu = replicate (nat len) (CHR ''9'')\<rparr>))
      else
        bindE (skip_nines (t_msg_req_nu s) (int (length (t_msg_req_nu s)) - 1)) (\<lambda>i.
        let t = (if 0 \<le> i then carry_at (t_msg_req_nu s) i else t_msg_req_nu s) in
        Inr (t, s\<lparr>t_msg_req_nu := t\<rparr>)))"

section \<open>The decimal value of a message number\<close>

definition is_digit :: "char \<Rightarrow> bool" where
  "is_digit c \<longleftrightarrow> (of_char c :: nat) \<in> {48..57}"

definition digit :: "char \<Rightarrow> nat" where
  "digit c = of_char c - 48"

definition decimal :: "string \<Rightarrow> nat" where
  "decimal s = foldl (\<lambda>n c. 10 * n + digit c) 0 s"

text \<open>The counter is in use: \<open>n > 0\<close> digits, with the matching maximum.\<close>

definition msg_req_wf :: "nat \<Rightarrow> msg_req_state \<Rightarrow> bool" where
  "msg_req_wf n s \<longleftrightarrow>
     0 < n \<and> length (t_msg_req_nu s) = n \<and> (\<forall>c \<in> set (t_msg_req_nu s). is_digit c) \<and>
     t_max_msg_req_nu s = replicate n (CHR ''9'')"

lemma decimal_foldl: "foldl (\<lambda>n c. 10 * n + digit c) a s = a * 10 ^ length s + decimal s"
proof (induction s arbitrary: a)
  case Nil
  then show ?case by (simp add: decimal_def)
next
  case (Cons c s)
  from Cons [of "10 * a + digit c"] Cons [of "digit c"] show ?case
    by (simp add: decimal_def algebra_simps)
qed

lemma decimal_Nil [simp]: "decimal [] = 0"
  by (simp add: decimal_def)

lemma decimal_append: "decimal (s @ t) = decimal s * 10 ^ length t + decimal t"
  by (simp add: decimal_def) (simp add: decimal_foldl flip: decimal_def)

lemma decimal_Cons: "decimal (c # s) = digit c * 10 ^ length s + decimal s"
  using decimal_append [of "[c]" s] by (simp add: decimal_def)

lemma decimal_zeros: "decimal (replicate k (CHR ''0'')) = 0"
  by (induction k) (simp_all add: decimal_Cons digit_def)

lemma decimal_nines: "decimal (replicate k (CHR ''9'')) + 1 = 10 ^ k"
  by (induction k) (simp_all add: decimal_Cons digit_def)

lemma decimal_less: "\<forall>c \<in> set s. is_digit c \<Longrightarrow> decimal s < 10 ^ length s"
proof (induction s)
  case Nil
  then show ?case by simp
next
  case (Cons c s)
  then have "digit c \<le> 9" "decimal s < 10 ^ length s"
    by (auto simp: is_digit_def digit_def)
  then have "digit c * 10 ^ length s + decimal s < 9 * 10 ^ length s + 10 ^ length s"
    by (intro add_le_less_mono mult_right_mono) simp_all
  then show ?case by (simp add: decimal_Cons)
qed

lemma is_digit_random: "is_digit (random_digit c)"
proof -
  have "(of_char c :: nat) mod 10 < 10" by simp
  then show ?thesis by (simp add: is_digit_def random_digit_def)
qed

section \<open>Counting\<close>

lemma skip_nines_replicate:
  assumes "c \<noteq> CHR ''9''"
  shows "k \<le> n \<Longrightarrow>
    skip_nines (xs @ c # replicate n (CHR ''9'')) (int (length xs + k)) = Inr (int (length xs))"
proof (induction k)
  case 0
  with assms show ?case by (simp add: skip_nines.simps read_at_def)
next
  case (Suc k)
  then have "(xs @ c # replicate n (CHR ''9'')) ! (length xs + Suc k) = CHR ''9''"
    by (simp add: nth_append)
  with Suc show ?case
    by (subst skip_nines.simps) (simp add: read_at_def nat_add_distrib)
qed

lemma split_trailing_nines:
  assumes "s \<noteq> replicate (length s) (CHR ''9'')"
  obtains xs c n where "s = xs @ c # replicate n (CHR ''9'')" and "c \<noteq> CHR ''9''"
  using assms
proof (induction s arbitrary: thesis rule: rev_induct)
  case Nil
  then show ?case by simp
next
  case (snoc d s)
  show ?case
  proof (cases "d = CHR ''9''")
    case False
    then show ?thesis using snoc.prems(1) [of s d 0] by simp
  next
    case True
    with snoc.prems(2) have "s \<noteq> replicate (length s) (CHR ''9'')"
      by (metis length_append_singleton replicate_Suc replicate_append_same)
    then obtain xs c n where "s = xs @ c # replicate n (CHR ''9'')" "c \<noteq> CHR ''9''"
      using snoc.IH by blast
    with True show ?thesis
      using snoc.prems(1) [of xs c "Suc n"] by (simp add: replicate_append_same)
  qed
qed

lemma is_digit_succ:
  assumes "is_digit c" and "c \<noteq> CHR ''9''"
  shows "is_digit (char_of ((of_char c :: nat) + 1))"
    and "digit (char_of ((of_char c :: nat) + 1)) = digit c + 1"
proof -
  have "(of_char c :: nat) \<noteq> of_char (CHR ''9'')"
    using assms(2) by (simp only: of_char_eq_iff) simp
  with assms(1) have "48 \<le> (of_char c :: nat)" "(of_char c :: nat) < 57"
    by (auto simp: is_digit_def)
  then show "is_digit (char_of ((of_char c :: nat) + 1))"
    "digit (char_of ((of_char c :: nat) + 1)) = digit c + 1"
    by (auto simp: is_digit_def digit_def)
qed

text \<open>One count: the value goes up by one, unless the string is all nines.\<close>

lemma returns_genMsgNumber_count:
  assumes wf: "msg_req_wf n s" and nm: "t_msg_req_nu s \<noteq> t_max_msg_req_nu s"
  shows "returns (genMsgNumber len rnd s)
           (\<lambda>(m, s'). msg_req_wf n s' \<and> t_msg_req_nu s' = m \<and>
                      decimal m = decimal (t_msg_req_nu s) + 1)"
proof -
  let ?t = "t_msg_req_nu s"
  from wf nm have "?t \<noteq> replicate (length ?t) (CHR ''9'')" by (simp add: msg_req_wf_def)
  then obtain xs c k where t: "?t = xs @ c # replicate k (CHR ''9'')" and c: "c \<noteq> CHR ''9''"
    by (rule split_trailing_nines)
  have "int (length ?t) - 1 = int (length xs + k)" by (simp add: t)
  then have i: "skip_nines ?t (int (length ?t) - 1) = Inr (int (length xs))"
    using skip_nines_replicate [OF c, of k k xs] by (simp add: t)
  let ?c = "char_of ((of_char c :: nat) + 1) :: char"
  have u: "carry_at ?t (int (length xs)) = xs @ ?c # replicate k (CHR ''0'')"
    by (simp add: carry_at_def t)
  from wf t have digs: "\<forall>d \<in> set xs. is_digit d" "is_digit c" by (auto simp: msg_req_wf_def)
  have "decimal (xs @ ?c # replicate k (CHR ''0'')) = decimal ?t + 1"
    using decimal_nines [of k] is_digit_succ(2) [OF digs(2) c]
    by (simp add: t decimal_append decimal_Cons decimal_zeros algebra_simps)
  moreover have "msg_req_wf n (s\<lparr>t_msg_req_nu := xs @ ?c # replicate k (CHR ''0'')\<rparr>)"
    using wf t digs is_digit_succ(1) [OF digs(2) c]
    by (auto simp: msg_req_wf_def is_digit_def [of "CHR ''0''"])
  moreover have "genMsgNumber len rnd s =
      (let t = xs @ ?c # replicate k (CHR ''0'') in Inr (t, s\<lparr>t_msg_req_nu := t\<rparr>))"
    using nm by (simp add: genMsgNumber_def i u) (simp add: t)
  ultimately show ?thesis by (simp add: Let_def)
qed

text \<open>A fresh draw, at the first call and after \<open>99...9\<close>.\<close>

lemma returns_genMsgNumber_draw:
  assumes "t_msg_req_nu s = [] \<or> t_msg_req_nu s = t_max_msg_req_nu s" and "0 < n"
    and "length rnd = n"
  shows "returns (genMsgNumber (int n) rnd s)
           (\<lambda>(m, s'). msg_req_wf n s' \<and> t_msg_req_nu s' = m)"
  using assms by (auto simp: genMsgNumber_def Let_def msg_req_wf_def is_digit_random)

text \<open>\<open>k\<close> consecutive calls on one thread, each with its own random bytes.\<close>

fun genMany :: "int \<Rightarrow> char list list \<Rightarrow> msg_req_state \<Rightarrow> (string list \<times> msg_req_state) res" where
  "genMany len [] s = Inr ([], s)"
| "genMany len (rnd # rnds) s =
     bindE (genMsgNumber len rnd s) (\<lambda>(m, s).
     bindE (genMany len rnds s) (\<lambda>(ms, s). Inr (m # ms, s)))"

lemma returns_genMany:
  assumes "msg_req_wf n s" and "decimal (t_msg_req_nu s) + length rnds < 10 ^ n"
  shows "returns (genMany len rnds s)
           (\<lambda>(ms, s'). map decimal ms =
              map (\<lambda>i. decimal (t_msg_req_nu s) + 1 + i) [0..<length rnds])"
  using assms
proof (induction rnds arbitrary: s)
  case Nil
  then show ?case by simp
next
  case (Cons rnd rnds)
  have "t_msg_req_nu s \<noteq> t_max_msg_req_nu s"
  proof
    assume "t_msg_req_nu s = t_max_msg_req_nu s"
    with Cons.prems(1) have "t_msg_req_nu s = replicate n (CHR ''9'')"
      by (simp add: msg_req_wf_def)
    with decimal_nines [of n] Cons.prems(2) show False by simp
  qed
  from returns_genMsgNumber_count [OF Cons.prems(1) this, of len rnd] obtain s1 where
    s1: "genMsgNumber len rnd s = Inr (t_msg_req_nu s1, s1)" "msg_req_wf n s1"
    "decimal (t_msg_req_nu s1) = decimal (t_msg_req_nu s) + 1"
    by (auto elim!: returnsE)
  with Cons.prems(2) Cons.IH [of s1] show ?case
    by (auto elim!: returns_mono simp: upt_conv_Cons map_Suc_upt [symmetric] simp del: upt_Suc)
qed

lemma distinct_if_counting:
  assumes "map f ms = map (\<lambda>i. k + 1 + i) [0..<n]"
  shows "distinct (ms :: 'a list)"
proof -
  have "distinct (map f ms)" unfolding assms by (simp add: distinct_map inj_on_def)
  then show ?thesis unfolding distinct_map by blast
qed

section \<open>Properties\<close>

text \<open>
  C33: As long as the counter does not reach all nines, the message numbers a thread draws
  count up by one from its current value: no two of them are equal, whatever bytes
  \<open>/dev/urandom\<close> would give.
\<close>

theorem genMsgNumber_counts_up:
  assumes "msg_req_wf n s" and "decimal (t_msg_req_nu s) + length rnds < 10 ^ n"
  shows "returns (genMany len rnds s) (\<lambda>(ms, s'). distinct ms \<and>
           map decimal ms = map (\<lambda>i. decimal (t_msg_req_nu s) + 1 + i) [0..<length rnds])"
  using returns_genMany [OF assms, of len]
  by (elim returns_mono) (auto intro!: distinct_if_counting [of decimal])

lemma genMsgNumber_counts_up_witness:
  "returns (genMany 3 [[], [], []] \<lparr>t_msg_req_nu = ''197'', t_max_msg_req_nu = ''999''\<rparr>)
     (\<lambda>(ms, s'). distinct ms \<and> map decimal ms = [198, 199, 200])"
  using genMsgNumber_counts_up [of 3 "\<lparr>t_msg_req_nu = ''197'', t_max_msg_req_nu = ''999''\<rparr>"
      "[[], [], []]" 3]
  by (simp add: msg_req_wf_def is_digit_def decimal_def digit_def eval_nat_numeral)

text \<open>
  The first call of a thread, and the call after the counter has reached all nines,
  draw a fresh number of exactly the configured length that consists of decimal digits, and
  leave a state from which counting goes on.
\<close>

theorem genMsgNumber_draws_digits:
  assumes "t_msg_req_nu s = [] \<or> t_msg_req_nu s = t_max_msg_req_nu s" and "0 < n"
    and "length rnd = n"
  shows "returns (genMsgNumber (int n) rnd s)
           (\<lambda>(m, s'). length m = n \<and> (\<forall>c \<in> set m. is_digit c) \<and> t_msg_req_nu s' = m \<and>
                      msg_req_wf n s')"
  using returns_genMsgNumber_draw [OF assms]
  by (elim returns_mono) (auto simp: msg_req_wf_def)

lemma genMsgNumber_draws_digits_witness:
  "returns (genMsgNumber 3 ''abc'' init_msg_req) (\<lambda>(m, s'). length m = 3 \<and>
     (\<forall>c \<in> set m. is_digit c) \<and> t_msg_req_nu s' = m \<and> msg_req_wf 3 s')"
  using genMsgNumber_draws_digits [of init_msg_req 3 "''abc''"] by (simp add: init_msg_req_def)

end
