(* ===== verification/Flconcpb_Codec.thy ===== *)
theory Flconcpb_Codec
  imports Abstract_Codec Net_Byte Msg_Req
begin

text \<open>
  The binary protocol: \<open>FlconcPbStruct\<close> of \<open>net/flconcpb/flconcpb_data.h\<close> and the codec
  of \<open>net/flconcpb/flconcpb_codec.cc\<close>. After the code come the wire format, the round
  trip through the socket buffer, and what the decoder does with bytes no encoder sends.
\<close>

section \<open>The code\<close>

definition PB_START :: char where
  "PB_START = CHR 0x02"

definition PB_END :: char where
  "PB_END = CHR 0x03"

record flconcpb_struct = abstract_data +
  pk_len :: int
  msg_req_len :: int
  msg_req :: string
  service_name_len :: int
  service_full_name :: string
  err_code :: int
  err_info_len :: int
  err_info :: string
  pb_data :: string
  check_num :: int

definition new_FlconcPbStruct :: flconcpb_struct where
  "new_FlconcPbStruct =
     \<lparr>decode_succ = False, encode_succ = False, pk_len = 0, msg_req_len = 0, msg_req = [],
      service_name_len = 0, service_full_name = [], err_code = 0, err_info_len = 0,
      err_info = [], pb_data = [], check_num = -1\<rparr>"

text \<open>The bytes \<open>encodePbData\<close> stores, in the order of its \<open>memcpy\<close> calls.\<close>

definition pb_bytes :: "int \<Rightarrow> flconcpb_struct \<Rightarrow> char list" where
  "pb_bytes pk data =
     [PB_START] @ int32_net pk
       @ int32_net (wrap32 (int (length (msg_req data)))) @ msg_req data
       @ int32_net (wrap32 (int (length (service_full_name data)))) @ service_full_name data
       @ int32_net (err_code data)
       @ int32_net (wrap32 (int (length (err_info data)))) @ err_info data
       @ pb_data data @ int32_net 1 @ [PB_END]"

text \<open>
  \<open>encodePbData\<close>: the array has \<open>pk_len\<close> bytes, so a length that does not fit an
  \<open>int\<close> makes the stores overrun it. The result is the array, or \<open>None\<close> for the null
  pointer. \<open>gen\<close> is \<open>MsgReqUtil::genMsgNumber\<close> on the calling thread's state.
\<close>

definition encodePbData ::
  "('m \<Rightarrow> (string \<times> 'm) res) \<Rightarrow> 'm \<Rightarrow> flconcpb_struct \<Rightarrow>
   ('m \<times> flconcpb_struct \<times> char list option) res" where
  "encodePbData gen m data =
     (if service_full_name data = [] then Inr (m, data\<lparr>encode_succ := False\<rparr>, None)
      else
        bindE (if msg_req data = []
               then bindE (gen m) (\<lambda>(no, m).
                    Inr (m, data\<lparr>msg_req := no, msg_req_len := wrap32 (int (length no))\<rparr>))
               else Inr (m, data)) (\<lambda>(m, data).
        let total = 2 * 1 + 6 * 4 + length (pb_data data) + length (service_full_name data)
                      + length (msg_req data) + length (err_info data);
            pk = wrap32 (int total);
            buf = pb_bytes pk data
        in if int (length buf) > pk then Inl Out_Of_Bounds
           else Inr (m, data\<lparr>pk_len := pk,
                             msg_req_len := wrap32 (int (length (msg_req data))),
                             service_name_len := wrap32 (int (length (service_full_name data))),
                             err_info_len := wrap32 (int (length (err_info data))),
                             check_num := 1, encode_succ := True\<rparr>, Some buf)))"

definition encode ::
  "('m \<Rightarrow> (string \<times> 'm) res) \<Rightarrow> 'm \<Rightarrow> tcp_buffer \<Rightarrow> flconcpb_struct \<Rightarrow>
   ('m \<times> tcp_buffer \<times> flconcpb_struct) res" where
  "encode gen m buf data =
     bindE (encodePbData gen m data) (\<lambda>(m, data, re).
     case re of
       None \<Rightarrow> Inr (m, buf, data\<lparr>encode_succ := False\<rparr>)
     | Some bytes \<Rightarrow>
         if bytes = [] \<or> \<not> encode_succ data then Inr (m, buf, data\<lparr>encode_succ := False\<rparr>)
         else bindE (writeToBuffer buf bytes) (\<lambda>buf. Inr (m, buf, data)))"

text \<open>
  The scan of \<open>decode\<close> for a complete package: the first \<open>PB_START\<close> whose length field
  leads to a \<open>PB_END\<close> before the write index. The length field is read from the vector
  as soon as one byte of it is in the buffer, and its value is not checked.
\<close>

function scan_package :: "char list \<Rightarrow> int \<Rightarrow> int \<Rightarrow> (int \<times> int \<times> int) option res" where
  "scan_package tmp write_index i =
     (if i < write_index then
        bindE (read_at tmp i) (\<lambda>c.
        if c = PB_START \<and> i + 1 < write_index then
          bindE (getInt32FromNetByte tmp (i + 1)) (\<lambda>pk.
          bindE (chk (i + pk)) (\<lambda>s.
          bindE (chk (s - 1)) (\<lambda>j.
          if j \<ge> write_index then scan_package tmp write_index (i + 1)
          else bindE (read_at tmp j) (\<lambda>e.
               if e = PB_END then Inr (Some (i, j, pk))
               else scan_package tmp write_index (i + 1)))))
        else scan_package tmp write_index (i + 1))
      else Inr None)"
  by pat_completeness auto
termination
  by (relation "measure (\<lambda>(tmp, w, i). nat (w - i))") auto

declare scan_package.simps [simp del]

text \<open>
  \<open>char a[cap] = {0}; memcpy(&a[0], &v[i], n); std::string(a)\<close>: the copy may overrun the
  array, and the string ends at the first zero byte of the array.
\<close>

definition c_array_string :: "nat \<Rightarrow> char list \<Rightarrow> int \<Rightarrow> int \<Rightarrow> string res" where
  "c_array_string cap v i n =
     bindE (read_range v i n) (\<lambda>src.
     bindE (write_range (replicate cap NUL) 0 src) (\<lambda>a.
     if NUL \<in> set a then Inr (takeWhile (\<lambda>c. c \<noteq> NUL) a) else Inl Out_Of_Bounds))"

text \<open>The rest of \<open>decode\<close>: the fields of the package found at \<open>start_index .. end_index\<close>.\<close>

definition parse_fields ::
  "char list \<Rightarrow> int \<Rightarrow> int \<Rightarrow> int \<Rightarrow> flconcpb_struct \<Rightarrow> flconcpb_struct res" where
  "parse_fields tmp start_index end_index pk d0 =
     (let d = d0\<lparr>pk_len := pk, decode_succ := False\<rparr>;
          msg_req_len_index = wrap32 (start_index + 1 + 4)
      in if msg_req_len_index \<ge> end_index then Inr d else
      bindE (getInt32FromNetByte tmp msg_req_len_index) (\<lambda>mlen.
      let d = d\<lparr>msg_req_len := mlen\<rparr> in
      if mlen = 0 then Inr d else
      let msg_req_index = wrap32 (msg_req_len_index + 4) in
      bindE (c_array_string 50 tmp msg_req_index mlen) (\<lambda>mreq.
      let d = d\<lparr>msg_req := mreq\<rparr> in
      bindE (chk (msg_req_index + mlen)) (\<lambda>service_name_len_index.
      if service_name_len_index \<ge> end_index then Inr d else
      let service_name_index = wrap32 (service_name_len_index + 4) in
      if service_name_index \<ge> end_index then Inr d else
      bindE (getInt32FromNetByte tmp service_name_len_index) (\<lambda>slen.
      let d = d\<lparr>service_name_len := slen\<rparr> in
      if slen > pk then Inr d else
      bindE (c_array_string 512 tmp service_name_index slen) (\<lambda>sname.
      let d = d\<lparr>service_full_name := sname\<rparr> in
      bindE (chk (service_name_index + slen)) (\<lambda>err_code_index.
      bindE (getInt32FromNetByte tmp err_code_index) (\<lambda>ecode.
      let d = d\<lparr>err_code := ecode\<rparr>;
          err_info_len_index = wrap32 (err_code_index + 4)
      in if err_info_len_index \<ge> end_index then Inr d else
      bindE (getInt32FromNetByte tmp err_info_len_index) (\<lambda>elen.
      let d = d\<lparr>err_info_len := elen\<rparr>;
          err_info_index = wrap32 (err_info_len_index + 4)
      in
      bindE (c_array_string 512 tmp err_info_index elen) (\<lambda>einfo.
      let d = d\<lparr>err_info := einfo\<rparr> in
      bindE (chk (pk - slen)) (\<lambda>n1.
      bindE (chk (n1 - mlen)) (\<lambda>n2.
      bindE (chk (n2 - elen)) (\<lambda>n3.
      let pb_data_len = wrap32 (n3 - 2 * 1 - 6 * 4) in
      bindE (chk (err_info_index + elen)) (\<lambda>pb_data_index.
      if pb_data_index \<ge> end_index then Inr d else
      bindE (if pb_data_len < 0 then Inl Std_Length_Error
             else read_range tmp pb_data_index pb_data_len) (\<lambda>pdata.
      Inr (d\<lparr>pb_data := pdata, decode_succ := True\<rparr>))))))))))))))))"

definition decode ::
  "tcp_buffer \<Rightarrow> flconcpb_struct \<Rightarrow> (tcp_buffer \<times> flconcpb_struct) res" where
  "decode buf data =
     (let tmp = getBufferVector buf in
      bindE (scan_package tmp (m_write_index buf) (m_read_index buf)) (\<lambda>r.
      case r of
        None \<Rightarrow> Inr (buf, data)
      | Some (start_index, end_index, pk) \<Rightarrow>
          bindE (chk (end_index + 1)) (\<lambda>e.
          bindE (chk (e - start_index)) (\<lambda>n.
          bindE (recycleRead buf n) (\<lambda>buf.
          bindE (parse_fields tmp start_index end_index pk data) (\<lambda>d. Inr (buf, d)))))))"

section \<open>The wire format\<close>

text \<open>The size of a package, and the packages whose fields survive the fixed arrays of the decoder.\<close>

definition pb_size :: "flconcpb_struct \<Rightarrow> nat" where
  "pb_size d = 26 + length (msg_req d) + length (service_full_name d) + length (err_info d)
                 + length (pb_data d)"

definition pb_sized :: "flconcpb_struct \<Rightarrow> bool" where
  "pb_sized d \<longleftrightarrow> fits_int (err_code d) \<and> int (pb_size d) \<le> WRITE_LIMIT"

definition pb_fits :: "flconcpb_struct \<Rightarrow> bool" where
  "pb_fits d \<longleftrightarrow> pb_sized d \<and>
     msg_req d \<noteq> [] \<and> length (msg_req d) < 50 \<and> NUL \<notin> set (msg_req d) \<and>
     service_full_name d \<noteq> [] \<and> length (service_full_name d) < 512 \<and>
     NUL \<notin> set (service_full_name d) \<and>
     length (err_info d) < 512 \<and> NUL \<notin> set (err_info d)"

definition package :: "flconcpb_struct \<Rightarrow> char list" where
  "package d = pb_bytes (int (pb_size d)) d"

text \<open>What the decoder makes of a package: every field that was sent, and the lengths.\<close>

definition received :: "flconcpb_struct \<Rightarrow> flconcpb_struct \<Rightarrow> flconcpb_struct" where
  "received d d0 =
     d0\<lparr>pk_len := int (pb_size d), decode_succ := True,
        msg_req_len := int (length (msg_req d)), msg_req := msg_req d,
        service_name_len := int (length (service_full_name d)),
        service_full_name := service_full_name d, err_code := err_code d,
        err_info_len := int (length (err_info d)), err_info := err_info d,
        pb_data := pb_data d\<rparr>"

lemma length_package: "length (package d) = pb_size d"
  by (simp add: package_def pb_bytes_def pb_size_def)

lemma c_array_string_at:
  assumes "v = xs @ s @ ys" and "i = int (length xs)" and "length s < cap" and "NUL \<notin> set s"
  shows "c_array_string cap v i (int (length s)) = Inr s"
proof -
  from assms(3) obtain k where k: "cap - length s = Suc k" by (cases "cap - length s") auto
  have "takeWhile (\<lambda>c. c \<noteq> NUL) (s @ NUL # replicate k NUL) = s"
    using assms(4) by (subst takeWhile_append2) auto
  with assms k show ?thesis
    by (simp add: c_array_string_def read_range_def write_range_def)
qed

lemma pb_sizedE:
  assumes "pb_sized d"
  shows "int (pb_size d) \<le> 1431655765" and "fits_int (err_code d)"
    and "fits_int (int (length (msg_req d)))" and "fits_int (int (length (service_full_name d)))"
    and "fits_int (int (length (err_info d)))" and "fits_int (int (pb_size d))"
  using assms
  by (auto simp: pb_sized_def WRITE_LIMIT_def pb_size_def INT_MAX_def intro!: fits_int_nonneg)

lemma wrap32_length:
  assumes "pb_sized d"
  shows "wrap32 (int (length (msg_req d))) = int (length (msg_req d))"
    and "wrap32 (int (length (service_full_name d))) = int (length (service_full_name d))"
    and "wrap32 (int (length (err_info d))) = int (length (err_info d))"
  using pb_sizedE [OF assms] by simp_all

text \<open>The fields of a package that lies anywhere in the vector.\<close>

lemma parse_fields_package:
  assumes v: "v = pre @ package d @ post" and ok: "pb_fits d"
    and room: "int (length pre + pb_size d) \<le> INT_MAX"
  shows "parse_fields v (int (length pre)) (int (length pre + pb_size d) - 1) (int (pb_size d)) d0
         = Inr (received d d0)"
proof -
  let ?p = "int (length pre)" and ?m = "int (length (msg_req d))"
  let ?s = "int (length (service_full_name d))" and ?e = "int (length (err_info d))"
  let ?k = "int (pb_size d)"
  from ok have sz: "pb_sized d" by (simp add: pb_fits_def)
  note pk = package_def pb_bytes_def wrap32_length [OF sz] and f = pb_sizedE [OF sz]
  have r: "getInt32FromNetByte v (?p + 5) = Inr ?m"
    "getInt32FromNetByte v (?p + 9 + ?m) = Inr ?s"
    "getInt32FromNetByte v (?p + 13 + ?m + ?s) = Inr (err_code d)"
    "getInt32FromNetByte v (?p + 17 + ?m + ?s) = Inr ?e"
    subgoal
      by (rule getInt32FromNetByte_at [where xs = "pre @ [PB_START] @ int32_net ?k"])
        (use f in \<open>simp_all add: v pk\<close>)
    subgoal
      by (rule getInt32FromNetByte_at [where xs =
            "pre @ [PB_START] @ int32_net ?k @ int32_net ?m @ msg_req d"])
        (use f in \<open>simp_all add: v pk\<close>)
    subgoal
      by (rule getInt32FromNetByte_at [where xs =
            "pre @ [PB_START] @ int32_net ?k @ int32_net ?m @ msg_req d @ int32_net ?s
               @ service_full_name d"])
        (use f in \<open>simp_all add: v pk\<close>)
    subgoal
      by (rule getInt32FromNetByte_at [where xs =
            "pre @ [PB_START] @ int32_net ?k @ int32_net ?m @ msg_req d @ int32_net ?s
               @ service_full_name d @ int32_net (err_code d)"])
        (use f in \<open>simp_all add: v pk\<close>)
    done
  let ?len = "pre @ [PB_START] @ int32_net ?k @ int32_net ?m"
  let ?svc = "?len @ msg_req d @ int32_net ?s"
  let ?err = "?svc @ service_full_name d @ int32_net (err_code d) @ int32_net ?e"
  have a: "c_array_string 50 v (?p + 9) ?m = Inr (msg_req d)"
    "c_array_string 512 v (?p + 13 + ?m) ?s = Inr (service_full_name d)"
    "c_array_string 512 v (?p + 21 + ?m + ?s) ?e = Inr (err_info d)"
    subgoal
      by (rule c_array_string_at [where xs = ?len])
        (use ok in \<open>simp_all add: v pk pb_fits_def\<close>)
    subgoal
      by (rule c_array_string_at [where xs = ?svc])
        (use ok in \<open>simp_all add: v pk pb_fits_def\<close>)
    subgoal
      by (rule c_array_string_at [where xs = ?err])
        (use ok in \<open>simp_all add: v pk pb_fits_def\<close>)
    done
  have d: "read_range v (?p + 21 + ?m + ?s + ?e) (int (length (pb_data d))) = Inr (pb_data d)"
    by (rule read_range_at [where xs = "?err @ err_info d"]) (simp_all add: v pk)
  have k: "?k = 26 + ?m + ?s + ?e + int (length (pb_data d))" by (simp add: pb_size_def)
  have lim: "?p + ?k \<le> 2147483647" using room by (simp add: INT_MAX_def)
  have w: "wrap32 n = n" "chk n = Inr n" if "0 \<le> n" "n \<le> ?p + ?k" for n
    using that lim by (simp_all add: fits_int_def INT_MIN_def INT_MAX_def)
  have m: "?m \<noteq> 0" using ok by (simp add: pb_fits_def)
  show ?thesis
    using m r a d by (simp add: parse_fields_def Let_def w k received_def ac_simps)
qed

text \<open>The scan skips bytes that are no \<open>PB_START\<close>, and stops at a package.\<close>

lemma scan_package_skip:
  assumes "PB_START \<notin> set g" and "v = pre @ g @ post" and "int (length (pre @ g)) \<le> w"
  shows "scan_package v w (int (length pre)) = scan_package v w (int (length (pre @ g)))"
  using assms
proof (induction g arbitrary: pre)
  case Nil
  then show ?case by simp
next
  case (Cons c g)
  from Cons.prems have "read_at v (int (length pre)) = Inr c"
    by (intro read_at_at [where xs = pre]) simp_all
  with Cons.prems have "scan_package v w (int (length pre)) = scan_package v w (int (length (pre @ [c])))"
    by (subst scan_package.simps) (auto simp: add.commute)
  also have "\<dots> = scan_package v w (int (length ((pre @ [c]) @ g)))"
    using Cons.prems by (intro Cons.IH) simp_all
  finally show ?case by simp
qed

lemma scan_package_none: "scan_package v w w = Inr None"
  by (subst scan_package.simps) simp

lemma package_start:
  obtains body where "package d = PB_START # int32_net (int (pb_size d)) @ body @ [PB_END]"
  by (simp add: package_def pb_bytes_def)

lemma scan_package_here:
  assumes v: "v = pre @ package d @ post" and ok: "pb_sized d"
    and room: "int (length pre + pb_size d) \<le> INT_MAX" and w: "int (length pre + pb_size d) \<le> w"
  shows "scan_package v w (int (length pre)) =
    Inr (Some (int (length pre), int (length pre + pb_size d) - 1, int (pb_size d)))"
proof -
  let ?p = "int (length pre)" and ?k = "int (pb_size d)"
  obtain body where b: "package d = PB_START # int32_net ?k @ body @ [PB_END]"
    by (rule package_start)
  have "read_at v ?p = Inr PB_START"
    by (rule read_at_at [where xs = pre]) (simp_all add: v b)
  moreover have "getInt32FromNetByte v (?p + 1) = Inr ?k"
    by (rule getInt32FromNetByte_at [where xs = "pre @ [PB_START]"])
      (simp_all add: v b pb_sizedE [OF ok])
  moreover have "length (package d) = pb_size d" by (rule length_package)
  then have "read_at v (?p + ?k - 1) = Inr PB_END"
    by (intro read_at_at [where xs = "pre @ PB_START # int32_net ?k @ body"]) (simp_all add: v b)
  moreover have "26 \<le> ?k" by (simp add: pb_size_def)
  moreover from this room have "fits_int (?p + ?k)" "fits_int (?p + ?k - 1)"
    by (simp_all add: fits_int_def INT_MIN_def INT_MAX_def)
  ultimately show ?thesis
    using w by (subst scan_package.simps) simp
qed

text \<open>
  The buffer's vector around its readable bytes, as the decoder sees it: everything before
  the read index, the queue, and the free part.
\<close>

lemma buffer_layout:
  assumes "buffer_wf b"
  obtains pre post where "m_buffer b = pre @ view b @ post"
    and "m_read_index b = int (length pre)" and "m_write_index b = int (length (pre @ view b))"
    and "int (length (m_buffer b)) \<le> INT_MAX"
  using assms
proof (rule buffer_wfE)
  fix r w
  assume b: "m_read_index b = int r" "m_write_index b = int w" "r \<le> w" "w \<le> length (m_buffer b)"
    "int (length (m_buffer b)) \<le> INT_MAX" "view b = take (w - r) (drop r (m_buffer b))"
  then have "m_buffer b = take r (m_buffer b) @ view b @ drop w (m_buffer b)"
    by (metis append_take_drop_id drop_drop le_add_diff_inverse2)
  with b that [of "take r (m_buffer b)" "drop w (m_buffer b)"] show ?thesis by simp
qed

text \<open>
  Decoding from a buffer that holds a package behind \<open>g\<close>, where no byte of \<open>g\<close> is
  \<open>PB_START\<close>: the package is decoded, and as many bytes as it has are consumed from the
  front of the queue. With \<open>g = []\<close> that is exactly the package.
\<close>

lemma returns_decode_behind:
  assumes wf: "buffer_wf b" and ok: "pb_fits d" and v: "view b = g @ package d @ rest"
    and g: "PB_START \<notin> set g"
  shows "returns (decode b d0) (\<lambda>(b', d'). buffer_wf b' \<and>
           view b' = drop (pb_size d) (g @ package d @ rest) \<and>
           d' = received d d0 \<and> m_write_index b' \<le> m_write_index b \<and>
           length (m_buffer b') = length (m_buffer b) \<and> settled b')"
  using wf
proof (rule buffer_layout)
  fix pre post
  assume b: "m_buffer b = pre @ view b @ post" "m_read_index b = int (length pre)"
    "m_write_index b = int (length (pre @ view b))" "int (length (m_buffer b)) \<le> INT_MAX"
  let ?k = "pb_size d" and ?pg = "pre @ g" and ?v = "m_buffer b"
  from ok have sz: "pb_sized d" by (simp add: pb_fits_def)
  from b(1) v have lay: "?v = ?pg @ package d @ (rest @ post)" by simp
  have len: "length (view b) = length g + ?k + length rest" by (simp add: v length_package)
  from lay b(4) have lim: "int (length ?pg + ?k) \<le> INT_MAX"
    by (simp add: length_package)
  have "scan_package ?v (m_write_index b) (m_read_index b)
      = scan_package ?v (m_write_index b) (int (length ?pg))"
    unfolding b(2) using lay len b(3)
    by (intro scan_package_skip [OF g, of _ _ "package d @ rest @ post"]) simp_all
  also have "\<dots> = Inr (Some (int (length ?pg), int (length ?pg + ?k) - 1, int ?k))"
    using b(3) len by (intro scan_package_here [OF lay sz lim]) simp
  finally have scan: "scan_package ?v (m_write_index b) (m_read_index b) =
      Inr (Some (int (length ?pg), int (length ?pg + ?k) - 1, int ?k))" .
  note parse = parse_fields_package [OF lay ok lim, of d0]
  have "returns (recycleRead b (int ?k)) (\<lambda>b'. buffer_wf b' \<and> view b' = drop ?k (view b) \<and>
      m_write_index b' \<le> m_write_index b \<and> length (m_buffer b') = length (m_buffer b) \<and> settled b')"
    using returns_recycleRead [OF wf, of "int ?k"] length_view [OF wf] len
    by (auto elim!: returns_mono)
  moreover have "fits_int (int (length ?pg + ?k))" "fits_int (int ?k)"
    using lim by (auto intro!: fits_int_nonneg)
  ultimately show ?thesis
    using scan parse by (simp add: decode_def Let_def getBufferVector_def v del: length_append)
qed

text \<open>Encoding appends exactly the package of the data, with the message number filled in.\<close>

lemma encode_given_msg_req:
  assumes "service_full_name d \<noteq> []" and "msg_req d \<noteq> []" and ok: "pb_sized d"
  shows "encode gen m b d =
    bindE (writeToBuffer b (package d)) (\<lambda>b'. Inr (m, b',
      d\<lparr>pk_len := int (pb_size d), msg_req_len := int (length (msg_req d)),
         service_name_len := int (length (service_full_name d)),
         err_info_len := int (length (err_info d)), check_num := 1, encode_succ := True\<rparr>))"
proof -
  have t: "26 + length (pb_data d) + length (service_full_name d) + length (msg_req d)
      + length (err_info d) = pb_size d"
    by (simp add: pb_size_def)
  have w: "wrap32 (int (pb_size d)) = int (pb_size d)" using pb_sizedE [OF ok] by simp
  have "length (package d) \<noteq> 0" by (simp add: length_package pb_size_def)
  then have n: "pb_bytes (int (pb_size d)) d \<noteq> []" by (auto simp: package_def)
  have l: "length (pb_bytes (int (pb_size d)) d) = pb_size d"
    using length_package [of d] by (simp add: package_def)
  show ?thesis
    using assms(1,2) n
    by (simp add: encode_def encodePbData_def Let_def t w l wrap32_length [OF ok] package_def
        del: of_nat_add)
qed

lemma returns_encode:
  assumes wf: "buffer_wf b" and ok: "pb_fits d"
    and room: "m_write_index b + int (pb_size d) \<le> WRITE_LIMIT"
  shows "returns (encode gen m b d) (\<lambda>(m', b', d'). m' = m \<and> buffer_wf b' \<and>
           view b' = view b @ package d \<and> encode_succ d' \<and>
           m_write_index b' \<le> m_write_index b + int (pb_size d))"
proof -
  have "returns (writeToBuffer b (package d)) (\<lambda>b'. buffer_wf b' \<and> view b' = view b @ package d \<and>
      m_write_index b' \<le> m_write_index b + int (pb_size d))"
    using writeToBuffer_used [OF wf, of "package d"] room by (simp add: length_package)
  with ok show ?thesis by (simp add: encode_given_msg_req pb_fits_def)
qed

lemma encode_no_service:
  "service_full_name d = [] \<Longrightarrow> encode gen m b d = Inr (m, b, d\<lparr>encode_succ := False\<rparr>)"
  by (simp add: encode_def encodePbData_def)

section \<open>Bytes that no encoder sends\<close>

text \<open>An incomplete package without a further \<open>PB_START\<close> is left in the buffer.\<close>

lemma decode_incomplete:
  assumes wf: "buffer_wf b" and ok: "pb_sized d" and v: "package d = view b @ q" and q: "q \<noteq> []"
    and len: "5 \<le> length (view b)" and ns: "PB_START \<notin> set (tl (view b))"
    and lim: "m_read_index b + int (pb_size d) \<le> INT_MAX"
  shows "decode b d0 = Inr (b, d0)"
  using wf
proof (rule buffer_layout)
  fix pre post
  assume b: "m_buffer b = pre @ view b @ post" "m_read_index b = int (length pre)"
    "m_write_index b = int (length (pre @ view b))"
  let ?v = "m_buffer b" and ?p = "int (length pre)" and ?k = "int (pb_size d)"
  obtain body where pk: "package d = PB_START # int32_net ?k @ body @ [PB_END]"
    by (rule package_start)
  then have "take 5 (package d) = PB_START # int32_net ?k" by simp
  with v len have "take 5 (view b) = PB_START # int32_net ?k" by simp
  then obtain p where p: "view b = PB_START # int32_net ?k @ p"
    by (metis append_Cons append_take_drop_id)
  have s: "read_at ?v ?p = Inr PB_START"
    by (rule read_at_at [where xs = pre]) (simp_all add: b(1) p)
  have n: "getInt32FromNetByte ?v (?p + 1) = Inr ?k"
    by (rule getInt32FromNetByte_at [where xs = "pre @ [PB_START]" and ys = "p @ post"])
      (simp_all add: b(1) p pb_sizedE [OF ok])
  have lt: "length (view b) < pb_size d"
    using arg_cong [OF v, of length] q by (simp add: length_package)
  have f: "fits_int (?p + ?k)" "fits_int (?p + ?k - 1)"
    using lim b(2) lt by (auto simp: fits_int_def INT_MIN_def)
  let ?w = "m_write_index b" and ?g = "int32_net ?k @ p"
  have "scan_package ?v ?w ?p = scan_package ?v ?w (int (length (pre @ [PB_START])))"
    using s n f lt b(3) len by (subst scan_package.simps) (simp add: add.commute p)
  also have "\<dots> = scan_package ?v ?w (int (length ((pre @ [PB_START]) @ ?g)))"
    using ns b by (intro scan_package_skip [where post = post]) (simp_all add: p)
  also have "\<dots> = Inr None" using b(3) scan_package_none [of ?v ?w] by (simp add: p)
  finally show ?thesis by (simp add: decode_def Let_def getBufferVector_def b(2))
qed

text \<open>A message number of more than 50 bytes overruns the decoder's array.\<close>

lemma decode_overrun:
  assumes wf: "buffer_wf b" and ok: "pb_sized d" and v: "view b = package d @ rest"
    and m: "50 < length (msg_req d)"
  shows "decode b d0 = Inl Out_Of_Bounds"
  using wf
proof (rule buffer_layout)
  fix pre post
  assume b: "m_buffer b = pre @ view b @ post" "m_read_index b = int (length pre)"
    "m_write_index b = int (length (pre @ view b))" "int (length (m_buffer b)) \<le> INT_MAX"
  let ?v = "m_buffer b" and ?p = "int (length pre)" and ?k = "int (pb_size d)"
  let ?m = "int (length (msg_req d))"
  note pk = package_def pb_bytes_def wrap32_length [OF ok]
  from b(1) v have lay: "?v = pre @ package d @ (rest @ post)" by simp
  have len: "length (view b) = pb_size d + length rest" by (simp add: v length_package)
  from lay b(4) have lim: "int (length pre + pb_size d) \<le> INT_MAX"
    by (simp add: length_package)
  have scan: "scan_package ?v (m_write_index b) ?p =
      Inr (Some (?p, int (length pre + pb_size d) - 1, ?k))"
    using b(3) len by (intro scan_package_here [OF lay ok lim]) simp
  have n: "getInt32FromNetByte ?v (?p + 5) = Inr ?m"
    by (rule getInt32FromNetByte_at [where xs = "pre @ [PB_START] @ int32_net ?k"])
      (simp_all add: lay pk pb_sizedE [OF ok])
  have "read_range ?v (?p + 9) ?m = Inr (msg_req d)"
    by (rule read_range_at [where xs = "pre @ [PB_START] @ int32_net ?k @ int32_net ?m"])
      (simp_all add: lay pk)
  then have c: "c_array_string 50 ?v (?p + 9) ?m = Inl Out_Of_Bounds"
    using m by (simp add: c_array_string_def write_range_def)
  have ge: "76 < pb_size d" using m by (simp add: pb_size_def)
  have w: "wrap32 (?p + 5) = ?p + 5" "wrap32 (?p + 9) = ?p + 9"
    using lim ge by (simp_all add: wrap32_nonneg INT_MAX_def)
  have "m \<noteq> 0" if "m = ?m" for m using that assms(4) by auto
  then have "parse_fields ?v ?p (int (length pre + pb_size d) - 1) ?k d0 = Inl Out_Of_Bounds"
    using n c w ge m by (simp add: parse_fields_def Let_def ac_simps)
  moreover obtain b' where "recycleRead b ?k = Inr b'"
    using returns_recycleRead [OF wf, of ?k] length_view [OF wf] len by (auto elim!: returnsE)
  moreover have "fits_int (int (length pre + pb_size d))" "fits_int ?k"
    using lim by (auto intro!: fits_int_nonneg)
  moreover have k: "int (length pre + pb_size d) - int (length pre) = ?k" by simp
  ultimately show ?thesis
    using scan by (simp add: decode_def Let_def getBufferVector_def b(2) k del: of_nat_add)
qed

text \<open>A length field of zero or less sends the decoder in front of the vector.\<close>

lemma decode_bad_length:
  assumes wf: "buffer_wf b" and r: "m_read_index b = 0" and v: "view b = PB_START # int32_net n @ rest"
    and n: "INT_MIN < n" "n \<le> 0"
  shows "decode b d0 = Inl Out_Of_Bounds"
  using wf
proof (rule buffer_layout)
  fix pre post
  assume b: "m_buffer b = pre @ view b @ post" "m_read_index b = int (length pre)"
    "m_write_index b = int (length (pre @ view b))"
  from b(2) r have pre: "pre = []" by simp
  from n have f: "fits_int n" "fits_int (n - 1)" by (auto simp: fits_int_def INT_MAX_def)
  have "getInt32FromNetByte (m_buffer b) 1 = Inr n"
    by (rule getInt32FromNetByte_at [where xs = "[PB_START]" and ys = "rest @ post"])
      (simp_all add: b(1) pre v f)
  moreover have "read_at (m_buffer b) 0 = Inr PB_START"
    by (rule read_at_at [where xs = "[]"]) (simp_all add: b(1) pre v)
  moreover have "read_at (m_buffer b) (n - 1) = Inl Out_Of_Bounds"
    using n by (simp add: read_at_def)
  moreover have "1 < m_write_index b" by (simp add: b(3) v)
  ultimately have "scan_package (m_buffer b) (m_write_index b) 0 = Inl Out_Of_Bounds"
    using f n by (subst scan_package.simps) simp
  then show ?thesis by (simp add: decode_def getBufferVector_def r)
qed

section \<open>Streams of packages\<close>

text \<open>Several replies are encoded into one buffer, and a reader decodes them one by one.\<close>

fun encode_all ::
  "('m \<Rightarrow> (string \<times> 'm) res) \<Rightarrow> 'm \<Rightarrow> tcp_buffer \<Rightarrow> flconcpb_struct list \<Rightarrow> ('m \<times> tcp_buffer) res" where
  "encode_all gen m b [] = Inr (m, b)"
| "encode_all gen m b (d # ds) = bindE (encode gen m b d) (\<lambda>(m, b, d'). encode_all gen m b ds)"

fun decode_all :: "nat \<Rightarrow> tcp_buffer \<Rightarrow> (flconcpb_struct list \<times> tcp_buffer) res" where
  "decode_all 0 b = Inr ([], b)"
| "decode_all (Suc n) b =
     bindE (decode b new_FlconcPbStruct) (\<lambda>(b, d).
     bindE (decode_all n b) (\<lambda>(ds, b). Inr (d # ds, b)))"

lemma returns_encode_all:
  assumes "buffer_wf b" and "\<forall>d \<in> set ds. pb_fits d"
    and "m_write_index b + int (sum_list (map pb_size ds)) \<le> WRITE_LIMIT"
  shows "returns (encode_all gen m b ds)
    (\<lambda>(m', b'). m' = m \<and> buffer_wf b' \<and> view b' = view b @ concat (map package ds))"
  using assms
proof (induction ds arbitrary: b)
  case Nil
  then show ?case by simp
next
  case (Cons d ds)
  then have "returns (encode gen m b d) (\<lambda>(m', b', d'). m' = m \<and> buffer_wf b' \<and>
      view b' = view b @ package d \<and> encode_succ d' \<and>
      m_write_index b' \<le> m_write_index b + int (pb_size d))"
    by (intro returns_encode) auto
  then obtain b1 d1 where b1: "encode gen m b d = Inr (m, b1, d1)" "buffer_wf b1"
    "view b1 = view b @ package d" "m_write_index b1 \<le> m_write_index b + int (pb_size d)"
    by (auto elim!: returnsE)
  with Cons.prems have "returns (encode_all gen m b1 ds)
    (\<lambda>(m', b'). m' = m \<and> buffer_wf b' \<and> view b' = view b1 @ concat (map package ds))"
    by (intro Cons.IH) auto
  with b1 show ?case by (auto elim!: returns_mono)
qed

lemma returns_decode_all:
  assumes "buffer_wf b" and "\<forall>d \<in> set ds. pb_fits d"
    and "view b = concat (map package ds) @ rest"
  shows "returns (decode_all (length ds) b)
    (\<lambda>(ds', b'). ds' = map (\<lambda>d. received d new_FlconcPbStruct) ds \<and> buffer_wf b' \<and> view b' = rest)"
  using assms
proof (induction ds arbitrary: b)
  case Nil
  then show ?case by simp
next
  case (Cons d ds)
  let ?tail = "concat (map package ds) @ rest"
  from Cons.prems have "returns (decode b new_FlconcPbStruct) (\<lambda>(b', d'). buffer_wf b' \<and>
      view b' = drop (pb_size d) ([] @ package d @ ?tail) \<and>
      d' = received d new_FlconcPbStruct \<and> m_write_index b' \<le> m_write_index b \<and>
      length (m_buffer b') = length (m_buffer b) \<and> settled b')"
    by (intro returns_decode_behind) auto
  then obtain b1 where "decode b new_FlconcPbStruct = Inr (b1, received d new_FlconcPbStruct)"
    "buffer_wf b1" "view b1 = ?tail"
    by (auto elim!: returnsE simp: length_package)
  with Cons.prems Cons.IH [of b1] show ?case by (auto elim!: returns_mono)
qed

text \<open>The binary codec keeps the contract of a codec.\<close>

interpretation pb_codec: frame_codec "\<lambda>b. decode b new_FlconcPbStruct" decode_succ pb_fits package
  "\<lambda>f. received f new_FlconcPbStruct"
proof
  fix b f rest
  assume "buffer_wf b" and "pb_fits f" and "view b = package f @ rest"
  then show "returns (decode b new_FlconcPbStruct) (\<lambda>(b', d). drained b rest b' \<and>
      d = received f new_FlconcPbStruct)"
    using returns_decode_behind [of b f "[]" rest new_FlconcPbStruct]
    by (auto simp: length_package drained_def elim!: returns_mono)
next
  fix f
  show "decode_succ (received f new_FlconcPbStruct)" by (simp add: received_def)
  assume "pb_fits f"
  show "package f \<noteq> []" by (simp add: package_def pb_bytes_def)
qed

definition pb_example :: flconcpb_struct where
  "pb_example = new_FlconcPbStruct
     \<lparr>msg_req := ''4217'', service_full_name := ''S.m'', err_code := -1, err_info := ''e'', pb_data := ''pq''\<rparr>"

lemma pb_example_fits: "pb_fits pb_example" "pb_size pb_example = 36"
  by (simp_all add: pb_fits_def pb_sized_def pb_size_def pb_example_def new_FlconcPbStruct_def
      WRITE_LIMIT_def NUL_def fits_int_def INT_MIN_def INT_MAX_def)

section \<open>Properties\<close>

text \<open>
  C1: Any list of packages whose strings fit the decoder's arrays, encoded one after the
  other into an empty buffer, is decoded from it package by package: every field arrives as
  it was sent, each call of \<open>decode\<close> consumes exactly one package, and the buffer is empty
  at the end. No step reaches a fault.
\<close>

theorem pb_stream_roundtrip:
  assumes "buffer_wf b" and "view b = []" and "\<forall>d \<in> set ds. pb_fits d"
    and "m_write_index b + int (sum_list (map pb_size ds)) \<le> WRITE_LIMIT"
  shows "returns (bindE (encode_all gen m b ds) (\<lambda>(m, b). decode_all (length ds) b))
    (\<lambda>(ds', b'). ds' = map (\<lambda>d. received d new_FlconcPbStruct) ds \<and> view b' = [])"
proof -
  from returns_encode_all [OF assms(1,3,4), of gen m] obtain b1 where
    b1: "encode_all gen m b ds = Inr (m, b1)" "buffer_wf b1" "view b1 = concat (map package ds) @ []"
    by (auto elim!: returnsE simp: assms(2))
  from returns_decode_all [OF b1(2) assms(3) b1(3)] b1(1) show ?thesis
    by (auto elim!: returns_mono)
qed

lemma pb_stream_roundtrip_witness:
  "returns (bindE (encode_all (\<lambda>m. Inr (''1'', m)) () \<lparr>m_read_index = 0, m_write_index = 0, m_buffer = ''abc''\<rparr>
      [pb_example, pb_example]) (\<lambda>(m, b). decode_all 2 b))
    (\<lambda>(ds', b'). ds' = [received pb_example new_FlconcPbStruct, received pb_example new_FlconcPbStruct] \<and>
                 view b' = [])"
  using pb_stream_roundtrip [of "\<lparr>m_read_index = 0, m_write_index = 0, m_buffer = ''abc''\<rparr>"
      "[pb_example, pb_example]" "\<lambda>m. Inr (''1'', m)" "()"]
  by (simp add: pb_example_fits buffer_wf_def view_def readAble_def INT_MAX_def WRITE_LIMIT_def
      numeral_2_eq_2 del: encode_all.simps decode_all.simps)

text \<open>
  A package without a message number is sent with a number drawn from the generator,
  and the caller's record carries that number and the lengths that were sent; a package
  without a service name is not sent and leaves the buffer and the generator alone.
\<close>

theorem pb_encode_fills_msg_req:
  assumes "buffer_wf b" and "msg_req d = []" and "gen m = Inr (no, m')"
    and "pb_fits (d\<lparr>msg_req := no\<rparr>)"
    and "m_write_index b + int (pb_size (d\<lparr>msg_req := no\<rparr>)) \<le> WRITE_LIMIT"
  shows "returns (encode gen m b d) (\<lambda>(m1, b', d'). m1 = m' \<and> buffer_wf b' \<and>
           view b' = view b @ package (d\<lparr>msg_req := no\<rparr>) \<and> encode_succ d' \<and> msg_req d' = no)
    \<and> encode gen m b (d\<lparr>service_full_name := []\<rparr>)
      = Inr (m, b, d\<lparr>service_full_name := [], encode_succ := False\<rparr>)"
proof -
  let ?d = "d\<lparr>msg_req := no, msg_req_len := wrap32 (int (length no))\<rparr>"
  from assms(4) have ne: "service_full_name d \<noteq> []" "no \<noteq> []" by (simp_all add: pb_fits_def)
  have pk: "package ?d = package (d\<lparr>msg_req := no\<rparr>)" "pb_fits ?d = pb_fits (d\<lparr>msg_req := no\<rparr>)"
    "pb_size ?d = pb_size (d\<lparr>msg_req := no\<rparr>)"
    by (simp_all add: package_def pb_bytes_def pb_size_def pb_fits_def pb_sized_def)
  have sz: "pb_sized ?d" using assms(4) pk(2) by (simp add: pb_fits_def)
  have e: "encode gen m b d = encode gen m' b ?d"
    using ne assms(2,3) by (simp add: encode_def encodePbData_def)
  have "returns (encode gen m b d) (\<lambda>(m1, b', d'). m1 = m' \<and> buffer_wf b' \<and>
           view b' = view b @ package ?d \<and> encode_succ d' \<and> msg_req d' = no)"
    using writeToBuffer_used [OF assms(1), of "package ?d"] assms(4,5) ne
      encode_given_msg_req [of ?d gen m' b] sz
    by (auto simp: e pk length_package elim!: returns_mono)
  then show ?thesis by (simp add: pk encode_no_service)
qed

lemma pb_encode_fills_msg_req_witness:
  "returns (encode (\<lambda>m. Inr (''4217'', Suc m)) 0 \<lparr>m_read_index = 0, m_write_index = 0, m_buffer = ''abc''\<rparr>
       (pb_example\<lparr>msg_req := []\<rparr>))
     (\<lambda>(m1, b', d'). m1 = 1 \<and> buffer_wf b' \<and> view b' = package pb_example \<and> encode_succ d' \<and>
        msg_req d' = ''4217'')"
proof -
  have e: "pb_example\<lparr>msg_req := ''4217''\<rparr> = pb_example" by (simp add: pb_example_def)
  show ?thesis
    using pb_encode_fills_msg_req [of "\<lparr>m_read_index = 0, m_write_index = 0, m_buffer = ''abc''\<rparr>"
        "pb_example\<lparr>msg_req := []\<rparr>" "\<lambda>m. Inr (''4217'', Suc m)" 0 "''4217''" 1]
    by (simp add: e pb_example_fits buffer_wf_def view_def readAble_def INT_MAX_def WRITE_LIMIT_def)
qed

text \<open>
  A package that has not arrived completely is left alone: the decoder neither consumes
  nor reports anything, provided that no later byte of it looks like \<open>PB_START\<close> and its
  length field has arrived.
\<close>

theorem pb_decode_waits:
  assumes "buffer_wf b" and "pb_sized d" and "package d = view b @ q" and "q \<noteq> []"
    and "5 \<le> length (view b)" and "PB_START \<notin> set (tl (view b))"
    and "m_read_index b + int (pb_size d) \<le> INT_MAX"
  shows "decode b d0 = Inr (b, d0)"
  by (rule decode_incomplete [OF assms])

lemma pb_decode_waits_witness:
  "decode \<lparr>m_read_index = 0, m_write_index = 30, m_buffer = package pb_example\<rparr> new_FlconcPbStruct
   = Inr (\<lparr>m_read_index = 0, m_write_index = 30, m_buffer = package pb_example\<rparr>, new_FlconcPbStruct)"
proof -
  let ?b = "\<lparr>m_read_index = 0, m_write_index = 30, m_buffer = package pb_example\<rparr>"
  have v: "view ?b = take 30 (package pb_example)" by (simp add: view_def readAble_def)
  have t: "PB_START \<notin> set (tl (take 30 (package pb_example)))" by code_simp
  have l: "length (package pb_example) = 36" by (simp add: length_package pb_example_fits)
  have sz: "pb_sized pb_example" using pb_example_fits by (simp add: pb_fits_def)
  show ?thesis
    by (rule pb_decode_waits [where d = pb_example and q = "drop 30 (package pb_example)"])
      (use sz v t l pb_example_fits in \<open>simp_all add: buffer_wf_def INT_MAX_def\<close>)
qed

text \<open>
  Bytes before a package that are no \<open>PB_START\<close> are skipped by the scan, but
  \<open>recycleRead\<close> is given the length of the package alone: as many bytes of the package stay
  in the buffer as the skipped ones had.
\<close>

theorem pb_decode_skipped_bytes_stay:
  assumes "buffer_wf b" and "pb_fits d" and "view b = g @ package d"
    and "PB_START \<notin> set g" and "length g \<le> pb_size d"
  shows "returns (decode b d0) (\<lambda>(b', d'). d' = received d d0 \<and>
           view b' = drop (pb_size d - length g) (package d))"
  using returns_decode_behind [OF assms(1,2), of g "[]" d0] assms(3-5)
  by (auto elim!: returns_mono)

lemma pb_decode_skipped_bytes_stay_witness:
  "returns (decode \<lparr>m_read_index = 0, m_write_index = 38, m_buffer = ''xy'' @ package pb_example\<rparr> new_FlconcPbStruct)
     (\<lambda>(b', d'). d' = received pb_example new_FlconcPbStruct \<and> view b' = [CHR 0x01, PB_END])"
proof -
  let ?b = "\<lparr>m_read_index = 0, m_write_index = 38, m_buffer = ''xy'' @ package pb_example\<rparr>"
  have l: "length (package pb_example) = 36" by (simp add: length_package pb_example_fits)
  have v: "view ?b = ''xy'' @ package pb_example" by (simp add: view_def readAble_def l)
  have t: "drop 34 (package pb_example) = [CHR 0x01, PB_END]" by code_simp
  show ?thesis
    using pb_decode_skipped_bytes_stay [of ?b pb_example "''xy''" new_FlconcPbStruct] v l t pb_example_fits
    by (simp add: buffer_wf_def INT_MAX_def PB_START_def)
qed



end
