(* ===== verification/Http_Define.thy ===== *)
theory Http_Define
  imports Std_Lib Abstract_Data
begin

text \<open>
  The data of the HTTP side: \<open>net/http/http_define.h/.cc\<close> (methods, status codes,
  headers), \<open>http_request.h\<close> and \<open>http_response.h\<close>. A member that the C++ class leaves
  uninitialised is an option, \<open>None\<close> before the first write.
\<close>

definition CR :: char where "CR = CHR 0x0D"
definition LF :: char where "LF = CHR 0x0A"

definition g_CRLF :: string where "g_CRLF = [CR, LF]"
definition g_CRLF_DOUBLE :: string where "g_CRLF_DOUBLE = [CR, LF, CR, LF]"

definition content_type_text :: string where
  "content_type_text = ''text/html;charset=utf-8''"

datatype http_method = GET | POST

definition HTTP_OK :: int where "HTTP_OK = 200"
definition HTTP_BADREQUEST :: int where "HTTP_BADREQUEST = 400"
definition HTTP_FORBIDDEN :: int where "HTTP_FORBIDDEN = 403"
definition HTTP_NOTFOUND :: int where "HTTP_NOTFOUND = 404"
definition HTTP_INTERNALSERVERERROR :: int where "HTTP_INTERNALSERVERERROR = 500"

definition httpCodeToString :: "int \<Rightarrow> string" where
  "httpCodeToString code =
     (if code = HTTP_OK then ''OK''
      else if code = HTTP_BADREQUEST then ''Bad Request''
      else if code = HTTP_FORBIDDEN then ''Forbidden''
      else if code = HTTP_NOTFOUND then ''Not Found''
      else if code = HTTP_INTERNALSERVERERROR then ''Internal Server Error''
      else ''UnKnown code'')"

section \<open>Headers\<close>

type_synonym http_header = "(string \<times> string) list"

definition getValue :: "string \<Rightarrow> http_header \<Rightarrow> string \<times> http_header" where
  "getValue key m_maps = map_index [] (c_str key) m_maps"

definition setKeyValue :: "string \<Rightarrow> string \<Rightarrow> http_header \<Rightarrow> http_header" where
  "setKeyValue key value m_maps = map_put (c_str key) value m_maps"

definition getHeaderTotalLength :: "http_header \<Rightarrow> int" where
  "getHeaderTotalLength m_maps =
     foldl (\<lambda>len it. wrap32 (len + int (length (fst it) + 1 + length (snd it) + 2))) 0 m_maps"

definition toHttpString :: "http_header \<Rightarrow> string" where
  "toHttpString m_maps = concat (map (\<lambda>it. fst it @ '':'' @ snd it @ [CR, LF]) m_maps)"

section \<open>Requests and responses\<close>

record http_request = abstract_data +
  m_request_method :: "http_method option"
  m_request_path :: string
  m_request_query :: string
  m_request_version :: string
  m_requeset_header :: http_header
  m_request_body :: string
  m_query_maps :: "(string \<times> string) list"

definition new_HttpRequest :: http_request where
  "new_HttpRequest =
     \<lparr>decode_succ = False, encode_succ = False, m_request_method = None, m_request_path = [],
      m_request_query = [], m_request_version = [], m_requeset_header = [],
      m_request_body = [], m_query_maps = []\<rparr>"

record http_response = abstract_data +
  m_response_version :: string
  m_response_code :: "int option"
  m_response_info :: string
  m_response_header :: http_header
  m_response_body :: string

definition new_HttpResponse :: http_response where
  "new_HttpResponse =
     \<lparr>decode_succ = False, encode_succ = False, m_response_version = [],
      m_response_code = None, m_response_info = [], m_response_header = [],
      m_response_body = []\<rparr>"

text \<open>The announced length of the header block is the length of its text.\<close>

lemma toHttpString_Cons:
  "toHttpString (kv # m) = fst kv @ '':'' @ snd kv @ [CR, LF] @ toHttpString m"
  by (simp add: toHttpString_def)

lemma getHeaderTotalLength_foldl:
  assumes "0 \<le> a" and "a + int (length (toHttpString m)) \<le> INT_MAX"
  shows "foldl (\<lambda>len it. wrap32 (len + int (length (fst it) + 1 + length (snd it) + 2))) a m
         = a + int (length (toHttpString m))"
  using assms
proof (induction m arbitrary: a)
  case Nil
  then show ?case by (simp add: toHttpString_def)
next
  case (Cons kv m)
  let ?a = "a + int (length (fst kv) + 1 + length (snd kv) + 2)"
  from Cons.prems have "wrap32 ?a = ?a"
    by (intro wrap32_nonneg) (simp_all add: toHttpString_Cons)
  with Cons.prems Cons.IH [of ?a] show ?case by (simp add: toHttpString_Cons)
qed

lemma getHeaderTotalLength_toHttpString:
  "int (length (toHttpString m)) \<le> INT_MAX \<Longrightarrow>
   getHeaderTotalLength m = int (length (toHttpString m))"
  using getHeaderTotalLength_foldl [of 0 m] by (simp add: getHeaderTotalLength_def)

end
