(* ===== verification/String_Util.thy ===== *)
theory String_Util
  imports Std_Lib
begin

text \<open>
  \<open>comm/string_util.cc\<close>: splitting a string into fields and into a map. The separator
  search is \<open>find_first_of\<close>, which stops at any byte of the separator, while the whole
  length of the separator is skipped.
\<close>

section \<open>The code\<close>

text \<open>The loop of \<open>SplitStrToVector\<close>.\<close>

function split_loop :: "string \<Rightarrow> string \<Rightarrow> string list \<Rightarrow> string list res" where
  "split_loop split_str tmp res =
     (case find_first_of split_str tmp of
        None \<Rightarrow> Inr res
      | Some i \<Rightarrow>
          let l = int (length tmp) in
          bindE (substr tmp 0 (int i)) (\<lambda>x.
          bindE (substr tmp (int i + int (length split_str))
                   (l - int i - int (length split_str))) (\<lambda>tmp.
          split_loop split_str tmp (if x \<noteq> [] then res @ [x] else res))))"
  by pat_completeness auto
termination
proof (relation "measure (\<lambda>(split_str, tmp, res). length tmp)", goal_cases)
  case (2 split_str tmp res i l x tmp')
  then have "split_str \<noteq> []" using find_first_of_absent [of tmp "[]"] by auto
  then have "0 < length split_str" by simp
  moreover have "int (length tmp') \<le> int (length tmp) - (int i + int (length split_str))"
    using length_substr 2(4) by blast
  ultimately have "length tmp' < length tmp" by linarith
  then show ?case by simp
qed simp

declare split_loop.simps [simp del]

definition SplitStrToVector :: "string \<Rightarrow> string \<Rightarrow> string list \<Rightarrow> string list res" where
  "SplitStrToVector str split_str res =
     (if str = [] \<or> split_str = [] then Inr res
      else
        bindE (substr str (int (length str) - int (length split_str)) (int (length split_str))) (\<lambda>e.
        split_loop split_str (if e \<noteq> split_str then str @ split_str else str) res))"

text \<open>One field \<open>key joiner value\<close>; fields without a joiner or with an empty key are skipped.\<close>

definition put_field ::
  "string \<Rightarrow> string \<Rightarrow> (string \<times> string) list \<Rightarrow> (string \<times> string) list res" where
  "put_field joiner i res =
     (if i = [] then Inr res
      else case find_first_of joiner i of
        None \<Rightarrow> Inr res
      | Some j \<Rightarrow>
          if j = 0 then Inr res
          else
            bindE (substr i 0 (int j)) (\<lambda>key.
            bindE (substr i (int j + int (length joiner))
                     (int (length i) - int j - int (length joiner))) (\<lambda>value.
            Inr (map_put (c_str key) value res))))"

fun put_fields ::
  "string \<Rightarrow> string list \<Rightarrow> (string \<times> string) list \<Rightarrow> (string \<times> string) list res" where
  "put_fields joiner [] res = Inr res"
| "put_fields joiner (i # vec) res = bindE (put_field joiner i res) (put_fields joiner vec)"

definition SplitStrToMap ::
  "string \<Rightarrow> string \<Rightarrow> string \<Rightarrow> (string \<times> string) list \<Rightarrow> (string \<times> string) list res" where
  "SplitStrToMap str split_str joiner res =
     (if str = [] \<or> split_str = [] \<or> joiner = [] then Inr res
      else bindE (SplitStrToVector str split_str []) (\<lambda>vec. put_fields joiner vec res))"

section \<open>Splitting undoes joining\<close>

fun join :: "string \<Rightarrow> string list \<Rightarrow> string" where
  "join sep [] = []"
| "join sep [x] = x"
| "join sep (x # y # xs) = x @ sep @ join sep (y # xs)"

definition terminated :: "string \<Rightarrow> string list \<Rightarrow> string" where
  "terminated sep xs = concat (map (\<lambda>x. x @ sep) xs)"

lemma join_terminated: "xs \<noteq> [] \<Longrightarrow> join sep xs @ sep = terminated sep xs"
  by (induction sep xs rule: join.induct) (auto simp: terminated_def)

lemma split_loop_terminated:
  assumes "sep \<noteq> []" and "\<forall>x \<in> set xs. set x \<inter> set sep = {}"
  shows "split_loop sep (terminated sep xs) res = Inr (res @ filter (\<lambda>x. x \<noteq> []) xs)"
  using assms(2)
proof (induction xs arbitrary: res)
  case Nil
  then show ?case by (simp add: split_loop.simps terminated_def)
next
  case (Cons x xs)
  from assms(1) obtain c sep' where sep: "sep = c # sep'" by (cases sep) auto
  let ?t = "terminated sep (x # xs)"
  have t: "?t = x @ sep @ terminated sep xs" by (simp add: terminated_def)
  have "find_first_of sep ?t = Some (length x)"
    unfolding t using Cons.prems sep by (simp add: find_first_of_at)
  moreover have "substr ?t 0 (int (length x)) = Inr x"
    by (rule substr_at [where xs = "[]"]) (simp_all add: t)
  moreover have "substr ?t (int (length x) + int (length sep))
      (int (length ?t) - int (length x) - int (length sep)) = Inr (terminated sep xs)"
    by (rule substr_tail [where xs = "x @ sep"]) (simp_all add: t)
  ultimately show ?case
    using Cons by (subst split_loop.simps) (simp add: Let_def)
qed

text \<open>A joined list of fields is no shorter than the separator and does not end in it.\<close>

lemma SplitStrToVector_join:
  assumes sep: "sep \<noteq> []" and xs: "\<forall>x \<in> set xs. x \<noteq> [] \<and> set x \<inter> set sep = {}"
    and len: "length sep \<le> length (join sep xs)"
  shows "SplitStrToVector (join sep xs) sep res = Inr (res @ xs)"
proof -
  from sep len have ne: "xs \<noteq> []" by auto
  let ?s = "join sep xs"
  have last: "last ?s \<in> set (last xs) \<and> ?s \<noteq> []"
    using ne xs by (induction sep xs rule: join.induct) (auto simp: last_append)
  have s: "substr ?s (int (length ?s) - int (length sep)) (int (length sep))
      = Inr (drop (length ?s - length sep) ?s)" (is "_ = Inr ?e")
    using len by (simp add: substr_def nat_diff_distrib)
  have "?e \<noteq> sep"
  proof
    assume e: "?e = sep"
    have "last ?s = last sep" using e sep len last by (metis last_drop drop_eq_Nil2 not_le)
    moreover have "last sep \<in> set sep" using sep by simp
    ultimately show False using last ne xs by auto
  qed
  then have "SplitStrToVector ?s sep res = split_loop sep (terminated sep xs) res"
    using sep last s by (simp add: SplitStrToVector_def join_terminated [OF ne])
  also have "\<dots> = Inr (res @ filter (\<lambda>x. x \<noteq> []) xs)"
    using sep xs by (intro split_loop_terminated) auto
  also have "filter (\<lambda>x. x \<noteq> []) xs = xs" using xs by (simp add: filter_True)
  finally show ?thesis .
qed

text \<open>A header or query field and the map it goes into.\<close>

definition field :: "char \<Rightarrow> string \<times> string \<Rightarrow> string" where
  "field c kv = fst kv @ c # snd kv"

lemma put_field_field:
  assumes "k \<noteq> []" and "c \<notin> set k" and "NUL \<notin> set k"
  shows "put_field [c] (field c (k, v)) res = Inr (map_put k v res)"
proof -
  have f: "field c (k, v) = k @ c # v" by (simp add: field_def)
  have "find_first_of [c] (field c (k, v)) = Some (length k)"
    unfolding f using assms by (simp add: find_first_of_at)
  moreover have "substr (field c (k, v)) 0 (int (length k)) = Inr k"
    by (rule substr_at [where xs = "[]"]) (simp_all add: f)
  moreover have "substr (field c (k, v)) (int (length k) + 1)
      (int (length (field c (k, v))) - int (length k) - 1) = Inr v"
    by (rule substr_tail [where xs = "k @ [c]"]) (simp_all add: f)
  moreover have "c_str k = k"
    using assms(3) by (simp add: c_str_def)
      (metis (mono_tags, lifting) takeWhile_eq_all_conv)
  ultimately show ?thesis
    using assms(1) by (simp add: put_field_def f)
qed

lemma put_fields_fields:
  assumes "\<forall>(k, v) \<in> set kvs. k \<noteq> [] \<and> c \<notin> set k \<and> NUL \<notin> set k"
  shows "put_fields [c] (map (field c) kvs) res = Inr (fold (\<lambda>(k, v). map_put k v) kvs res)"
  using assms by (induction kvs arbitrary: res) (auto simp: put_field_field)

definition field_ok :: "char \<Rightarrow> string \<Rightarrow> string \<times> string \<Rightarrow> bool" where
  "field_ok c sep kv \<longleftrightarrow>
     fst kv \<noteq> [] \<and> c \<notin> set (fst kv) \<and> NUL \<notin> set (fst kv) \<and>
     set (fst kv) \<inter> set sep = {} \<and> set (snd kv) \<inter> set sep = {} \<and> c \<notin> set sep"

lemma SplitStrToMap_join:
  assumes "sep \<noteq> []" and ok: "\<forall>kv \<in> set kvs. field_ok c sep kv"
    and "length sep \<le> length (join sep (map (field c) kvs))"
  shows "SplitStrToMap (join sep (map (field c) kvs)) sep [c] m
       = Inr (fold (\<lambda>(k, v). map_put k v) kvs m)"
proof -
  have "\<forall>x \<in> set (map (field c) kvs). x \<noteq> [] \<and> set x \<inter> set sep = {}"
    using ok by (auto simp: field_def field_ok_def)
  with assms have "SplitStrToVector (join sep (map (field c) kvs)) sep [] = Inr (map (field c) kvs)"
    using SplitStrToVector_join [of sep "map (field c) kvs" "[]"] by simp
  moreover have "put_fields [c] (map (field c) kvs) m = Inr (fold (\<lambda>(k, v). map_put k v) kvs m)"
    using ok by (intro put_fields_fields) (auto simp: field_ok_def)
  moreover have "join sep (map (field c) kvs) \<noteq> []" using assms(1,3) by auto
  ultimately show ?thesis using assms(1) by (simp add: SplitStrToMap_def)
qed

text \<open>
  A field that ends in a lone line feed: the search stops at the line feed, two bytes are
  skipped, and the second cut starts past the end of the string.
\<close>

lemma SplitStrToVector_lone_LF:
  assumes "x \<noteq> []" and "CHR 0x0D \<notin> set x" and "CHR 0x0A \<notin> set x"
  shows "SplitStrToVector (x @ [CHR 0x0A]) [CHR 0x0D, CHR 0x0A] res = Inl Std_Out_Of_Range"
proof -
  let ?cr = "CHR 0x0D" and ?lf = "CHR 0x0A" and ?sep = "[CHR 0x0D, CHR 0x0A]"
  let ?t = "x @ [?lf] @ ?sep"
  from assms obtain x' d where x: "x = x' @ [d]" "d \<noteq> ?cr"
    by (cases x rule: rev_cases) auto
  have "substr (x @ [?lf]) (int (length (x @ [?lf])) - int (length ?sep)) (int (length ?sep))
      = Inr [d, ?lf]"
    by (rule substr_tail [where xs = x']) (simp_all add: x)
  then have "SplitStrToVector (x @ [?lf]) ?sep res = split_loop ?sep ?t res"
    using x by (simp add: SplitStrToVector_def)
  also have "\<dots> = split_loop ?sep [?lf] (res @ [x])"
  proof -
    have "find_first_of ?sep ?t = Some (length x)"
      using assms find_first_of_at [of x ?sep ?lf ?sep] by simp
    moreover have "substr ?t 0 (int (length x)) = Inr x"
      by (rule substr_at [where xs = "[]"]) simp_all
    moreover have "substr ?t (int (length x) + 2) (int (length ?t) - int (length x) - 2) = Inr [?lf]"
      by (rule substr_tail [where xs = "x @ [?lf, ?cr]"]) simp_all
    ultimately show ?thesis
      using assms(1) by (subst split_loop.simps) (simp add: Let_def)
  qed
  also have "\<dots> = Inl Std_Out_Of_Range"
    by (subst split_loop.simps) (simp add: substr_def)
  finally show ?thesis .
qed

end
