(* ===== verification/Http_Codec.thy ===== *)
theory Http_Codec
  imports Http_Define String_Util Abstract_Codec
begin

text \<open>
  The HTTP codec, \<open>net/http/http_codec.cc\<close>: a request is decoded from the socket buffer,
  a response is encoded into it. The loop of \<open>decode\<close> ends in its first iteration on
  every path, so it is written without recursion.
\<close>

section \<open>The code\<close>

definition http_encode :: "tcp_buffer \<Rightarrow> http_response \<Rightarrow> (tcp_buffer \<times> http_response) res" where
  "http_encode buf response =
     (let response = response\<lparr>encode_succ := False\<rparr> in
      case m_response_code response of
        None \<Rightarrow> Inl Indeterminate_Value
      | Some code \<Rightarrow>
          let http_res = m_response_version response @ '' '' @ show_int code @ '' ''
                @ m_response_info response @ [CR, LF]
                @ toHttpString (m_response_header response) @ [CR, LF] @ m_response_body response
          in bindE (writeToBuffer buf http_res) (\<lambda>buf.
             Inr (buf, response\<lparr>encode_succ := True\<rparr>)))"

text \<open>The part of \<open>parseHttpRequestLine\<close> after the scheme and authority of the url are cut.\<close>

definition parse_path :: "http_request \<Rightarrow> string \<Rightarrow> (bool \<times> http_request) res" where
  "parse_path request url =
     (let l = int (length url) in
      case find_first_of ''?'' url of
        None \<Rightarrow> Inr (True, request\<lparr>m_request_path := url\<rparr>)
      | Some j \<Rightarrow>
          bindE (substr url 0 (int j)) (\<lambda>path.
          bindE (substr url (int j + 1) (l - int j - 1)) (\<lambda>query.
          bindE (SplitStrToMap query ''&'' ''='' (m_query_maps request)) (\<lambda>qm.
          Inr (True, request\<lparr>m_request_path := path, m_request_query := query,
                             m_query_maps := qm\<rparr>)))))"

definition parse_url :: "http_request \<Rightarrow> int \<Rightarrow> int \<Rightarrow> string \<Rightarrow> (bool \<times> http_request) res" where
  "parse_url request s1 s2 url =
     (case find_str ''://'' url of
        None \<Rightarrow> parse_path request url
      | Some j \<Rightarrow>
          if j + 3 \<ge> length url then Inr (False, request)
          else
            bindE (substr url (int j + 3) (s2 - s1 - int j - 4)) (\<lambda>url.
            let l = int (length url) in
            case find_first_of ''/'' url of
              None \<Rightarrow> Inr (True, request)
            | Some j \<Rightarrow>
                if int j = int (length url) - 1 then Inr (True, request)
                else bindE (substr url (int j + 1) (l - int j - 1)) (parse_path request)))"

definition parseHttpRequestLine :: "http_request \<Rightarrow> string \<Rightarrow> (bool \<times> http_request) res" where
  "parseHttpRequestLine request tmp =
     (case (find_first_of '' '' tmp, find_last_of '' '' tmp) of
        (Some s1, Some s2) \<Rightarrow>
          if s1 = s2 then Inr (False, request)
          else
            bindE (substr tmp 0 (int s1)) (\<lambda>method.
            let method = map to_upper method in
            if method \<noteq> ''GET'' \<and> method \<noteq> ''POST'' then Inr (False, request)
            else
              let request = request\<lparr>m_request_method :=
                    Some (if method = ''GET'' then GET else POST)\<rparr> in
              bindE (substr tmp (int s2 + 1) (int (length tmp) - int s2 - 1)) (\<lambda>version.
              let version = map to_upper version in
              if version \<noteq> ''HTTP/1.1'' \<and> version \<noteq> ''HTTP/1.0'' then Inr (False, request)
              else
                bindE (substr tmp (int s1 + 1) (int s2 - int s1 - 1)) (\<lambda>url.
                parse_url (request\<lparr>m_request_version := version\<rparr>) (int s1) (int s2) url)))
      | _ \<Rightarrow> Inr (False, request))"

definition parseHttpRequestHeader :: "http_request \<Rightarrow> string \<Rightarrow> (bool \<times> http_request) res" where
  "parseHttpRequestHeader request str =
     (if str = [] \<or> length str < 4 \<or> str = g_CRLF_DOUBLE then Inr (True, request)
      else bindE (SplitStrToMap str g_CRLF '':'' (m_requeset_header request)) (\<lambda>m.
           Inr (True, request\<lparr>m_requeset_header := m\<rparr>)))"

definition parseHttpRequestContent :: "http_request \<Rightarrow> string \<Rightarrow> bool \<times> http_request" where
  "parseHttpRequestContent request str =
     (if str = [] then (True, request) else (True, request\<lparr>m_request_body := str\<rparr>))"

text \<open>The body, once the header block ends at \<open>read_size\<close> and \<open>tmp\<close> is what follows it.\<close>

definition decode_content ::
  "tcp_buffer \<Rightarrow> http_request \<Rightarrow> string \<Rightarrow> string \<Rightarrow> int \<Rightarrow> (tcp_buffer \<times> http_request) res" where
  "decode_content buf request strs tmp read_size =
     (case getValue ''Content-Length'' (m_requeset_header request) of (value, m) \<Rightarrow>
      let request = request\<lparr>m_requeset_header := m\<rparr> in
      bindE (atoi (c_str value)) (\<lambda>content_len.
      if int (length strs) - read_size < content_len then Inr (buf, request)
      else
        bindE (if m_request_method request = Some POST \<and> content_len \<noteq> 0 then
                 bindE (substr tmp 0 content_len) (\<lambda>c.
                 case parseHttpRequestContent request c of (ok, request) \<Rightarrow>
                 bindE (chk (read_size + content_len)) (\<lambda>n. Inr (request, n)))
               else Inr (request, read_size)) (\<lambda>(request, read_size).
        bindE (recycleRead buf read_size) (\<lambda>buf.
        Inr (buf, request\<lparr>decode_succ := True\<rparr>)))))"

definition http_decode :: "tcp_buffer \<Rightarrow> http_request \<Rightarrow> (tcp_buffer \<times> http_request) res" where
  "http_decode buf request =
     bindE (getBufferString buf) (\<lambda>strs.
     let tmp = strs; len = int (length tmp) in
     case find_str g_CRLF tmp of
       None \<Rightarrow> Inr (buf, request)
     | Some i \<Rightarrow>
         if int i = int (length tmp) - 2 then Inr (buf, request\<lparr>decode_succ := True\<rparr>)
         else
           bindE (substr tmp 0 (int i)) (\<lambda>line.
           bindE (parseHttpRequestLine request line) (\<lambda>(ok, request).
           if \<not> ok then Inr (buf, request)
           else
             bindE (substr tmp (int i + 2) (len - 2 - int i)) (\<lambda>tmp.
             let len = int (length tmp); read_size = int i + 2 in
             case find_str g_CRLF_DOUBLE tmp of
               None \<Rightarrow> Inr (buf, request)
             | Some j \<Rightarrow>
                 bindE (substr tmp 0 (int j)) (\<lambda>block.
                 bindE (parseHttpRequestHeader request block) (\<lambda>(ok, request).
                 if \<not> ok then Inr (buf, request)
                 else
                   bindE (substr tmp (int j + 4) (len - 4 - int j)) (\<lambda>tmp.
                   decode_content buf request strs tmp (read_size + int j + 4))))))))"

section \<open>Finding the parts of a request\<close>

lemma find_str_skip:
  "pat \<noteq> [] \<Longrightarrow> hd pat \<notin> set xs \<Longrightarrow>
   find_str pat (xs @ ys) = map_option ((+) (length xs)) (find_str pat ys)"
proof (induction xs)
  case Nil
  then show ?case by (cases "find_str pat ys") auto
next
  case (Cons x xs)
  then have "take (length pat) ((x # xs) @ ys) \<noteq> pat" by (cases pat) auto
  with Cons show ?case by (cases "find_str pat ys") auto
qed

text \<open>The blank line after header lines without carriage returns.\<close>

lemma find_blank_line:
  assumes "xs \<noteq> []" and "\<forall>x \<in> set xs. x \<noteq> [] \<and> CR \<notin> set x"
  shows "find_str g_CRLF_DOUBLE (join g_CRLF xs @ g_CRLF_DOUBLE @ t) = Some (length (join g_CRLF xs))"
  using assms
proof (induction g_CRLF xs rule: join.induct)
  case 1
  then show ?case by simp
next
  case (2 x)
  then show ?case by (auto simp: g_CRLF_DOUBLE_def intro!: find_str_at [of "[CR, LF, CR, LF]", simplified])
next
  case (3 x y xs)
  then obtain c y' where y: "y = c # y'" "c \<noteq> CR" by (cases y) auto
  have "\<exists>r. join g_CRLF (y # xs) = c # r" using y by (cases xs) auto
  then obtain r where r: "join g_CRLF (y # xs) = c # r" ..
  have "find_str g_CRLF_DOUBLE ([CR, LF] @ (c # r) @ g_CRLF_DOUBLE @ t)
      = map_option ((+) 2) (find_str g_CRLF_DOUBLE ((c # r) @ g_CRLF_DOUBLE @ t))"
    using y(2) by (auto simp: g_CRLF_DOUBLE_def CR_def LF_def option.map_comp comp_def)
  with 3 r find_str_skip [of g_CRLF_DOUBLE x] show ?case
    by (simp add: g_CRLF_def g_CRLF_DOUBLE_def)
qed

lemma chars_distinct [simp]:
  "CR \<noteq> CHR '' ''" "CR \<noteq> LF" "LF \<noteq> CR" "CHR '' '' \<noteq> CR" "CR \<noteq> CHR '':''" "CHR '':'' \<noteq> CR"
  "CHR '':'' \<noteq> LF" "LF \<noteq> CHR '':''"
  by (simp_all add: CR_def LF_def)

lemma request_line_spaces:
  assumes "CHR '' '' \<notin> set m" and "CHR '' '' \<notin> set ver"
  shows "find_first_of '' '' (m @ '' '' @ url @ '' '' @ ver) = Some (length m)"
    and "find_last_of '' '' (m @ '' '' @ url @ '' '' @ ver) = Some (length m + 1 + length url)"
proof -
  show "find_first_of '' '' (m @ '' '' @ url @ '' '' @ ver) = Some (length m)"
    using assms(1) by (simp add: find_first_of_at)
  have "find_last_of '' '' ((m @ '' '' @ url) @ CHR '' '' # ver) = Some (length (m @ '' '' @ url))"
    using assms(2) by (intro find_last_of_at) auto
  then show "find_last_of '' '' (m @ '' '' @ url @ '' '' @ ver) = Some (length m + 1 + length url)"
    by simp
qed

definition method_of :: "string \<Rightarrow> http_method" where
  "method_of m = (if map to_upper m = ''GET'' then GET else POST)"

definition line_ok :: "string \<Rightarrow> string \<Rightarrow> bool" where
  "line_ok m ver \<longleftrightarrow>
     CHR '' '' \<notin> set m \<and> CHR '' '' \<notin> set ver \<and> map to_upper m \<in> {''GET'', ''POST''} \<and>
     map to_upper ver \<in> {''HTTP/1.1'', ''HTTP/1.0''}"

definition request_line :: "string \<Rightarrow> string \<Rightarrow> string \<Rightarrow> string" where
  "request_line m url ver = m @ '' '' @ url @ '' '' @ ver"

text \<open>A line of a supported method and version goes on to its url.\<close>

lemma parse_line_ok:
  assumes "line_ok m ver"
  shows "parseHttpRequestLine r (request_line m url ver) =
    parse_url (r\<lparr>m_request_method := Some (method_of m), m_request_version := map to_upper ver\<rparr>)
      (int (length m)) (int (length m + 1 + length url)) url"
proof -
  let ?l = "request_line m url ver"
  have sp: "find_first_of '' '' ?l = Some (length m)"
    "find_last_of '' '' ?l = Some (length m + 1 + length url)"
    using request_line_spaces assms by (auto simp: line_ok_def request_line_def)
  have "substr ?l 0 (int (length m)) = Inr m"
    by (rule substr_at [where xs = "[]"]) (simp_all add: request_line_def)
  moreover have "substr ?l (int (length m + 1 + length url) + 1)
      (int (length ?l) - int (length m + 1 + length url) - 1) = Inr ver"
    by (rule substr_tail [where xs = "m @ '' '' @ url @ '' ''"]) (simp_all add: request_line_def)
  moreover have "substr ?l (int (length m) + 1)
      (int (length m + 1 + length url) - int (length m) - 1) = Inr url"
    by (rule substr_at [where xs = "m @ '' ''"]) (simp_all add: request_line_def)
  ultimately show ?thesis
    using assms
    by (auto simp: parseHttpRequestLine_def sp Let_def line_ok_def method_of_def
        simp del: of_nat_add)
qed

text \<open>A url in origin form, with and without a query.\<close>

lemma parse_url_path:
  assumes "find_str ''://'' url = None" and "CHR ''?'' \<notin> set url"
  shows "parse_url r s1 s2 url = Inr (True, r\<lparr>m_request_path := url\<rparr>)"
  using assms by (simp add: parse_url_def parse_path_def find_first_of_absent)

lemma parse_path_query:
  assumes p: "CHR ''?'' \<notin> set p" and q: "qs \<noteq> []" "\<forall>kv \<in> set qs. field_ok (CHR ''='') ''&'' kv"
  shows "parse_path r (p @ ''?'' @ join ''&'' (map (field (CHR ''='')) qs)) =
    Inr (True, r\<lparr>m_request_path := p, m_request_query := join ''&'' (map (field (CHR ''='')) qs),
                 m_query_maps := fold (\<lambda>(k, v). map_put k v) qs (m_query_maps r)\<rparr>)"
proof -
  let ?q = "join ''&'' (map (field (CHR ''='')) qs)" and ?u = "p @ ''?'' @ join ''&'' (map (field (CHR ''='')) qs)"
  have f: "find_first_of ''?'' ?u = Some (length p)"
    using p by (simp add: find_first_of_at)
  have "substr ?u 0 (int (length p)) = Inr p"
    by (rule substr_at [where xs = "[]"]) simp_all
  moreover have "substr ?u (int (length p) + 1) (int (length ?u) - int (length p) - 1) = Inr ?q"
    by (rule substr_tail [where xs = "p @ ''?''"]) simp_all
  moreover obtain kv kvs where qs: "qs = kv # kvs" using q(1) by (cases qs) auto
  then have "?q \<noteq> []" by (cases kvs) (auto simp: field_def)
  then have "SplitStrToMap ?q ''&'' ''='' (m_query_maps r)
      = Inr (fold (\<lambda>(k, v). map_put k v) qs (m_query_maps r))"
    using q(2) by (intro SplitStrToMap_join) (auto simp: Suc_le_eq)
  ultimately show ?thesis
    using f by (simp add: parse_path_def Let_def)
qed

section \<open>Decoding a well-formed request\<close>

definition header_text :: "(string \<times> string) list \<Rightarrow> string" where
  "header_text kvs = join g_CRLF (map (field (CHR '':'')) kvs)"

definition request_text :: "string \<Rightarrow> string \<Rightarrow> string \<Rightarrow> (string \<times> string) list \<Rightarrow> string \<Rightarrow> string" where
  "request_text m url ver kvs body =
     request_line m url ver @ g_CRLF @ header_text kvs @ g_CRLF_DOUBLE @ body"

definition headers_ok :: "(string \<times> string) list \<Rightarrow> bool" where
  "headers_ok kvs \<longleftrightarrow>
     kvs \<noteq> [] \<and> (\<forall>kv \<in> set kvs. field_ok (CHR '':'') g_CRLF kv) \<and> 4 \<le> length (header_text kvs)"

text \<open>The header a key has in the request: the last line with that key.\<close>

definition header_value :: "(string \<times> string) list \<Rightarrow> string \<Rightarrow> string" where
  "header_value kvs k = (case map_of (rev kvs) k of Some v \<Rightarrow> v | None \<Rightarrow> [])"

lemma find_header_end:
  assumes "headers_ok kvs"
  shows "find_str g_CRLF_DOUBLE (header_text kvs @ g_CRLF_DOUBLE @ t) = Some (length (header_text kvs))"
  unfolding header_text_def
  using assms
  by (intro find_blank_line) (auto simp: headers_ok_def field_ok_def field_def g_CRLF_def)

lemma parse_header_text:
  assumes "headers_ok kvs"
  shows "parseHttpRequestHeader r (header_text kvs) =
    Inr (True, r\<lparr>m_requeset_header :=
                   fold (\<lambda>(k, v). map_put k v) kvs (m_requeset_header r)\<rparr>)"
proof -
  obtain kv kvs' where k: "kvs = kv # kvs'" using assms by (cases kvs) (auto simp: headers_ok_def)
  have "field_ok (CHR '':'') g_CRLF kv" using assms by (simp add: headers_ok_def k)
  then obtain c k' where c: "fst kv = c # k'" "c \<noteq> CR"
    by (cases "fst kv") (auto simp: field_ok_def g_CRLF_def)
  then have "hd (header_text kvs) \<noteq> CR"
    by (cases kvs') (simp_all add: k header_text_def field_def)
  then have "header_text kvs \<noteq> g_CRLF_DOUBLE" by (auto simp: g_CRLF_DOUBLE_def)
  moreover have "SplitStrToMap (header_text kvs) g_CRLF '':'' (m_requeset_header r)
      = Inr (fold (\<lambda>(k, v). map_put k v) kvs (m_requeset_header r))"
    using assms unfolding header_text_def
    by (intro SplitStrToMap_join) (auto simp: headers_ok_def g_CRLF_def header_text_def)
  moreover have "4 \<le> length (header_text kvs)" using assms by (simp add: headers_ok_def)
  ultimately show ?thesis by (auto simp: parseHttpRequestHeader_def)
qed

text \<open>What a decoded request holds.\<close>

definition decoded_request ::
  "string \<Rightarrow> string \<Rightarrow> string \<Rightarrow> (string \<times> string) list \<Rightarrow> string \<Rightarrow> http_request \<Rightarrow> bool" where
  "decoded_request m url ver kvs body r \<longleftrightarrow>
     decode_succ r \<and> m_request_method r = Some (method_of m) \<and> m_request_path r = url \<and>
     m_request_version r = map to_upper ver \<and> m_request_body r = body \<and>
     (\<forall>k. k \<noteq> ''Content-Length'' \<longrightarrow> map_get (m_requeset_header r) k = map_of (rev kvs) k)"

text \<open>The very record the decoder fills in; the length that is looked up stays in the header.\<close>

definition request_of ::
  "string \<Rightarrow> string \<Rightarrow> string \<Rightarrow> (string \<times> string) list \<Rightarrow> string \<Rightarrow> http_request" where
  "request_of m url ver kvs body =
     new_HttpRequest\<lparr>decode_succ := True, m_request_method := Some (method_of m),
       m_request_version := map to_upper ver, m_request_path := url,
       m_requeset_header := snd (getValue ''Content-Length'' (fold (\<lambda>(k, v). map_put k v) kvs [])),
       m_request_body := body\<rparr>"

text \<open>The announced length is that of the body, which only a POST request has.\<close>

definition body_ok :: "string \<Rightarrow> (string \<times> string) list \<Rightarrow> string \<Rightarrow> bool" where
  "body_ok m kvs body \<longleftrightarrow>
     atoi (c_str (header_value kvs ''Content-Length'')) = Inr (int (length body)) \<and>
     (method_of m = GET \<longrightarrow> body = [])"

lemma getValue_content_length:
  assumes "h = fold (\<lambda>(k, v). map_put k v) kvs []"
  shows "\<exists>h'. getValue ''Content-Length'' h = (header_value kvs ''Content-Length'', h') \<and>
    (\<forall>k. k \<noteq> ''Content-Length'' \<longrightarrow> map_get h' k = map_of (rev kvs) k)"
proof -
  have h: "map_wf h" "map_get h = map_of (rev kvs)"
    unfolding assms
    by (simp_all add: std_map.invar_fold_update std_map.lookup_fold_update map_wf_Nil map_get_Nil
        map_add_def fun_eq_iff split: option.split)
  have "c_str ''Content-Length'' = ''Content-Length''" by (simp add: c_str_def NUL_def)
  with h show ?thesis
    by (cases "map_of (rev kvs) ''Content-Length''")
      (simp_all add: getValue_def map_index_def header_value_def map_get_put)
qed

lemma decoded_request_of: "decoded_request m url ver kvs body (request_of m url ver kvs body)"
  using getValue_content_length [OF refl, of kvs] by (auto simp: decoded_request_def request_of_def)

lemma returns_decode_content:
  assumes wf: "buffer_wf b" and v: "view b = pre @ body @ rest" and strs: "strs = view b"
    and tmp: "tmp = body @ rest" and ok: "body_ok m kvs body"
    and r: "r = new_HttpRequest\<lparr>m_request_method := Some (method_of m), m_request_version := map to_upper ver,
      m_request_path := url, m_requeset_header := fold (\<lambda>(k, v). map_put k v) kvs []\<rparr>"
  shows "returns (decode_content b r strs tmp (int (length pre)))
    (\<lambda>(b', r'). drained b rest b' \<and> r' = request_of m url ver kvs body)"
proof -
  obtain h' where h': "getValue ''Content-Length'' (m_requeset_header r) =
      (header_value kvs ''Content-Length'', h')"
    "\<forall>k. k \<noteq> ''Content-Length'' \<longrightarrow> map_get h' k = map_of (rev kvs) k"
    using getValue_content_length [OF refl, of kvs] by (auto simp: r)
  have n: "atoi (c_str (header_value kvs ''Content-Length'')) = Inr (int (length body))"
    using ok by (simp add: body_ok_def)
  have len: "int (length pre + length body) \<le> readAble b"
    using length_view [OF wf] v by simp
  then have f: "fits_int (int (length pre) + int (length body))"
    using wf by (auto simp: buffer_wf_def readAble_def intro!: fits_int_nonneg)
  have sub: "substr tmp 0 (int (length body)) = Inr body"
    by (rule substr_at [where xs = "[]"]) (simp_all add: tmp)
  have rec: "returns (recycleRead b (int (length pre) + int (length body)))
     (\<lambda>b'. drained b rest b')"
    using returns_recycleRead [OF wf, of "int (length pre) + int (length body)"] len v
    by (auto elim!: returns_mono simp: nat_add_distrib drained_def)
  from h'(1) have req: "request_of m url ver kvs body =
      r\<lparr>m_requeset_header := h', m_request_body := body, decode_succ := True\<rparr>"
    by (simp add: request_of_def r new_HttpRequest_def)
  show ?thesis
  proof (cases "body = []")
    case True
    with req have "request_of m url ver kvs [] = r\<lparr>m_requeset_header := h', decode_succ := True\<rparr>"
      by (simp add: r new_HttpRequest_def)
    with True rec show ?thesis
      using h'(1) n v strs by (auto simp: decode_content_def Let_def elim!: returns_mono)
  next
    case False
    with ok have "method_of m = POST" by (cases "method_of m") (auto simp: body_ok_def)
    moreover have "m_request_method r = Some (method_of m)" by (simp add: r)
    ultimately show ?thesis
      using False rec h'(1) n v strs sub f
      by (auto simp: decode_content_def Let_def req parseHttpRequestContent_def elim!: returns_mono)
  qed
qed

text \<open>The decoder takes one request from the buffer, and leaves the bytes behind it.\<close>

lemma returns_http_decode:
  assumes wf: "buffer_wf b" and v: "view b = request_text m url ver kvs body @ rest"
    and l: "line_ok m ver" "CR \<notin> set (request_line m url ver)"
    and u: "find_str ''://'' url = None" "CHR ''?'' \<notin> set url"
    and h: "headers_ok kvs" and c: "body_ok m kvs body"
  shows "returns (http_decode b new_HttpRequest)
    (\<lambda>(b', r). drained b rest b' \<and> r = request_of m url ver kvs body)"
proof -
  let ?line = "request_line m url ver" and ?h = "header_text kvs"
  let ?t1 = "?h @ g_CRLF_DOUBLE @ body @ rest"
  have s: "view b = ?line @ g_CRLF @ ?t1" by (simp add: v request_text_def)
  have i: "find_str g_CRLF (view b) = Some (length ?line)"
    unfolding s using l(2) by (intro find_str_at) (simp_all add: g_CRLF_def)
  have j: "find_str g_CRLF_DOUBLE ?t1 = Some (length ?h)"
    by (rule find_header_end [OF h])
  have sub: "substr (view b) 0 (int (length ?line)) = Inr ?line"
    "substr (view b) (int (length ?line) + 2) (int (length (view b)) - 2 - int (length ?line)) = Inr ?t1"
    "substr ?t1 0 (int (length ?h)) = Inr ?h"
    "substr ?t1 (int (length ?h) + 4) (int (length ?t1) - 4 - int (length ?h)) = Inr (body @ rest)"
    subgoal by (rule substr_at [where xs = "[]"]) (simp_all add: s)
    subgoal by (rule substr_tail [where xs = "?line @ g_CRLF"]) (simp_all add: s g_CRLF_def)
    subgoal by (rule substr_at [where xs = "[]"]) simp_all
    subgoal by (rule substr_tail [where xs = "?h @ g_CRLF_DOUBLE"]) (simp_all add: g_CRLF_DOUBLE_def)
    done
  have ne: "int (length ?line) \<noteq> int (length (view b)) - 2"
    by (simp add: s g_CRLF_def g_CRLF_DOUBLE_def)
  let ?pre = "?line @ g_CRLF @ ?h @ g_CRLF_DOUBLE"
  have pre: "int (length ?line) + 2 + int (length ?h) + 4 = int (length ?pre)"
    by (simp add: g_CRLF_def g_CRLF_DOUBLE_def)
  let ?r = "new_HttpRequest\<lparr>m_request_method := Some (method_of m),
    m_request_version := map to_upper ver, m_request_path := url,
    m_requeset_header := fold (\<lambda>(k, v). map_put k v) kvs []\<rparr>"
  have line: "parseHttpRequestLine new_HttpRequest ?line = Inr (True,
      new_HttpRequest\<lparr>m_request_method := Some (method_of m),
        m_request_version := map to_upper ver, m_request_path := url\<rparr>)"
    using parse_line_ok [OF l(1)] parse_url_path [OF u] by simp
  have hdr: "parseHttpRequestHeader (new_HttpRequest\<lparr>m_request_method := Some (method_of m),
        m_request_version := map to_upper ver, m_request_path := url\<rparr>) ?h = Inr (True, ?r)"
    by (simp add: parse_header_text [OF h] new_HttpRequest_def)
  have "http_decode b new_HttpRequest =
      decode_content b ?r (view b) (body @ rest) (int (length ?line) + 2 + int (length ?h) + 4)"
    using i j ne sub line hdr
    by (simp add: http_decode_def returns_getBufferString [OF wf] Let_def del: length_append)
  moreover have "returns (decode_content b ?r (view b) (body @ rest) (int (length ?pre)))
    (\<lambda>(b', r). drained b rest b' \<and> r = request_of m url ver kvs body)"
    by (rule returns_decode_content [OF wf _ _ _ c])
      (simp_all add: v request_text_def new_HttpRequest_def)
  ultimately show ?thesis unfolding pre by simp
qed

text \<open>A url in absolute form loses the slash in front of the path.\<close>

lemma parse_url_absolute:
  assumes "CHR '':'' \<notin> set scheme" and "CHR ''/'' \<notin> set host" and "p \<noteq> []"
    and "CHR ''?'' \<notin> set p"
    and url: "url = scheme @ ''://'' @ host @ ''/'' @ p" and s2: "s2 = s1 + 1 + int (length url)"
  shows "parse_url r s1 s2 url = Inr (True, r\<lparr>m_request_path := p\<rparr>)"
proof -
  let ?u = "host @ ''/'' @ p"
  have "find_str ''://'' url = Some (length scheme)"
    unfolding url using assms(1) by (intro find_str_at) simp_all
  moreover have "substr url (int (length scheme) + 3) (s2 - s1 - int (length scheme) - 4) = Inr ?u"
    by (rule substr_tail [where xs = "scheme @ ''://''"]) (simp_all add: url s2)
  moreover have "find_first_of ''/'' ?u = Some (length host)"
    using assms(2) by (simp add: find_first_of_at)
  moreover have "substr ?u (int (length host) + 1) (int (length ?u) - int (length host) - 1) = Inr p"
    by (rule substr_tail [where xs = "host @ ''/''"]) simp_all
  moreover have "length url = length scheme + 3 + length ?u" by (simp add: url)
  ultimately show ?thesis
    using assms(3,4) by (simp add: parse_url_def Let_def parse_path_def find_first_of_absent)
qed

section \<open>Requests that arrive in parts, and malformed requests\<close>

lemma http_decode_no_line:
  assumes "buffer_wf b" and "CR \<notin> set (view b)"
  shows "http_decode b r = Inr (b, r)"
  using assms
  by (simp add: http_decode_def returns_getBufferString Let_def g_CRLF_def find_str_absent)

text \<open>A first line alone counts as a decoded request, and nothing is consumed.\<close>

lemma http_decode_line_only:
  assumes "buffer_wf b" and "view b = line @ g_CRLF" and "CR \<notin> set line"
  shows "http_decode b r = Inr (b, r\<lparr>decode_succ := True\<rparr>)"
proof -
  have "find_str g_CRLF (view b) = Some (length line)"
    using assms(2,3) find_str_at [of g_CRLF line "[]"] by (simp add: g_CRLF_def)
  with assms show ?thesis
    by (simp add: http_decode_def returns_getBufferString Let_def g_CRLF_def)
qed

lemma http_decode_header_part:
  assumes wf: "buffer_wf b" and v: "view b = request_line m url ver @ g_CRLF @ tail"
    and l: "line_ok m ver" "CR \<notin> set (request_line m url ver)"
    and u: "find_str ''://'' url = None" "CHR ''?'' \<notin> set url"
    and t: "tail \<noteq> []"
  shows "http_decode b r =
    (let r' = r\<lparr>m_request_method := Some (method_of m), m_request_version := map to_upper ver,
                m_request_path := url\<rparr>
     in case find_str g_CRLF_DOUBLE tail of
          None \<Rightarrow> Inr (b, r')
        | Some j \<Rightarrow>
            bindE (substr tail 0 (int j)) (\<lambda>block.
            bindE (parseHttpRequestHeader r' block) (\<lambda>(ok, r').
            if \<not> ok then Inr (b, r')
            else bindE (substr tail (int j + 4) (int (length tail) - 4 - int j)) (\<lambda>tmp.
                 decode_content b r' (view b) tmp
                   (int (length (request_line m url ver)) + 2 + int j + 4)))))"
proof -
  let ?line = "request_line m url ver"
  have i: "find_str g_CRLF (view b) = Some (length ?line)"
    unfolding v using l(2) by (intro find_str_at) (simp_all add: g_CRLF_def)
  have sub: "substr (view b) 0 (int (length ?line)) = Inr ?line"
    "substr (view b) (int (length ?line) + 2) (int (length (view b)) - 2 - int (length ?line)) = Inr tail"
    subgoal by (rule substr_at [where xs = "[]"]) (simp_all add: v)
    subgoal by (rule substr_tail [where xs = "?line @ g_CRLF"]) (simp_all add: v g_CRLF_def)
    done
  have ne: "int (length ?line) \<noteq> int (length (view b)) - 2" using t by (simp add: v g_CRLF_def)
  have line: "parseHttpRequestLine r ?line = Inr (True,
      r\<lparr>m_request_method := Some (method_of m), m_request_version := map to_upper ver,
        m_request_path := url\<rparr>)"
    using parse_line_ok [OF l(1)] parse_url_path [OF u] by simp
  show ?thesis
    using i sub ne line
    by (simp add: http_decode_def returns_getBufferString [OF wf] Let_def del: length_append)
qed

text \<open>A request without header lines is never complete, whatever follows its blank line.\<close>

lemma http_decode_no_headers:
  assumes wf: "buffer_wf b" and v: "view b = request_line m url ver @ g_CRLF_DOUBLE"
    and l: "line_ok m ver" "CR \<notin> set (request_line m url ver)"
    and u: "find_str ''://'' url = None" "CHR ''?'' \<notin> set url"
  shows "http_decode b r = Inr (b, r\<lparr>m_request_method := Some (method_of m),
           m_request_version := map to_upper ver, m_request_path := url\<rparr>)"
proof -
  have "view b = request_line m url ver @ g_CRLF @ g_CRLF"
    by (simp add: v g_CRLF_def g_CRLF_DOUBLE_def)
  from http_decode_header_part [OF wf this l u] show ?thesis
    by (simp add: g_CRLF_def g_CRLF_DOUBLE_def)
qed

text \<open>A header block that ends in a lone line feed raises an uncaught exception.\<close>

lemma http_decode_lone_LF:
  assumes wf: "buffer_wf b"
    and v: "view b = request_line m url ver @ g_CRLF @ (x @ [LF]) @ g_CRLF_DOUBLE @ rest"
    and l: "line_ok m ver" "CR \<notin> set (request_line m url ver)"
    and u: "find_str ''://'' url = None" "CHR ''?'' \<notin> set url"
    and x: "CR \<notin> set x" "LF \<notin> set x" "3 \<le> length x"
  shows "http_decode b r = Inl Std_Out_Of_Range"
proof -
  let ?t = "(x @ [LF]) @ g_CRLF_DOUBLE @ rest" and ?b = "x @ [LF]"
  have j: "find_str g_CRLF_DOUBLE ?t = Some (length ?b)"
    using x by (intro find_str_at) (simp_all add: g_CRLF_DOUBLE_def)
  have sub: "substr ?t 0 (int (length ?b)) = Inr ?b"
    by (rule substr_at [where xs = "[]"]) simp_all
  have "hd ?b \<noteq> CR" using x by (cases x) auto
  then have ne: "?b \<noteq> g_CRLF_DOUBLE" by (auto simp: g_CRLF_DOUBLE_def)
  have "SplitStrToVector ?b g_CRLF [] = Inl Std_Out_Of_Range"
    using SplitStrToVector_lone_LF [of x "[]"] x
    by (cases "x = []") (auto simp: g_CRLF_def CR_def LF_def)
  then have "parseHttpRequestHeader r' ?b = Inl Std_Out_Of_Range" for r'
    using x ne by (simp add: parseHttpRequestHeader_def SplitStrToMap_def g_CRLF_def)
  then show ?thesis
    using http_decode_header_part [OF wf v l u] j sub by (simp add: Let_def del: length_append)
qed

section \<open>Encoding a response\<close>

definition response_text :: "http_response \<Rightarrow> int \<Rightarrow> string" where
  "response_text response code =
     m_response_version response @ '' '' @ show_int code @ '' '' @ m_response_info response @ [CR, LF]
       @ toHttpString (m_response_header response) @ [CR, LF] @ m_response_body response"

lemma returns_http_encode:
  assumes "buffer_wf b" and "m_response_code res = Some code"
    and "m_write_index b + int (length (response_text res code)) \<le> WRITE_LIMIT"
  shows "returns (http_encode b res) (\<lambda>(b', res'). buffer_wf b' \<and>
           view b' = view b @ response_text res code \<and> encode_succ res' \<and>
           m_write_index b' \<le> m_write_index b + int (length (response_text res code)))"
  using writeToBuffer_used [OF assms(1,3)] assms(2)
  by (simp add: http_encode_def response_text_def Let_def)

lemma http_encode_no_code:
  "m_response_code res = None \<Longrightarrow> http_encode b res = Inl Indeterminate_Value"
  by (simp add: http_encode_def Let_def)

section \<open>The contract of a codec\<close>

record request_frame =
  rf_method :: string
  rf_url :: string
  rf_version :: string
  rf_headers :: "(string \<times> string) list"
  rf_body :: string

definition rf_text :: "request_frame \<Rightarrow> string" where
  "rf_text f = request_text (rf_method f) (rf_url f) (rf_version f) (rf_headers f) (rf_body f)"

definition rf_ok :: "request_frame \<Rightarrow> bool" where
  "rf_ok f \<longleftrightarrow> line_ok (rf_method f) (rf_version f) \<and>
     CR \<notin> set (request_line (rf_method f) (rf_url f) (rf_version f)) \<and>
     find_str ''://'' (rf_url f) = None \<and> CHR ''?'' \<notin> set (rf_url f) \<and>
     headers_ok (rf_headers f) \<and> body_ok (rf_method f) (rf_headers f) (rf_body f)"

definition rf_request :: "request_frame \<Rightarrow> http_request" where
  "rf_request f = request_of (rf_method f) (rf_url f) (rf_version f) (rf_headers f) (rf_body f)"

interpretation http_codec: frame_codec "\<lambda>b. http_decode b new_HttpRequest" decode_succ rf_ok rf_text
  rf_request
proof
  fix b f rest
  assume "buffer_wf b" and "rf_ok f" and "view b = rf_text f @ rest"
  then show "returns (http_decode b new_HttpRequest) (\<lambda>(b', d). drained b rest b' \<and> d = rf_request f)"
    using returns_http_decode [of b "rf_method f" "rf_url f" "rf_version f" "rf_headers f" "rf_body f" rest]
    by (simp add: rf_ok_def rf_text_def rf_request_def)
next
  fix f
  show "decode_succ (rf_request f)" by (simp add: rf_request_def request_of_def)
  assume "rf_ok f"
  show "rf_text f \<noteq> []" by (simp add: rf_text_def request_text_def request_line_def)
qed

section \<open>Properties\<close>

text \<open>A concrete request, and a buffer that holds a given text.\<close>

definition filled :: "string \<Rightarrow> tcp_buffer" where
  "filled s = \<lparr>m_read_index = 0, m_write_index = int (length s), m_buffer = s\<rparr>"

lemma filled_ok:
  assumes "int (length s) \<le> INT_MAX"
  shows "buffer_wf (filled s)" "view (filled s) = s"
  using assms by (simp_all add: filled_def buffer_wf_def view_def readAble_def)

lemma post_example:
  "line_ok ''post'' ''http/1.1''" "CR \<notin> set (request_line ''post'' ''/a'' ''http/1.1'')"
  "find_str ''://'' ''/a'' = None" "CHR ''?'' \<notin> set ''/a''"
  "headers_ok [(''Host'', ''h''), (''Content-Length'', ''2'')]"
  "body_ok ''post'' [(''Host'', ''h''), (''Content-Length'', ''2'')] ''hi''"
  by code_simp+

text \<open>
  C5: A request with a supported method and version, a path, header lines and a body of the
  announced length is decoded from the front of the buffer: method, path, version, body and
  every header (the last line of a key counts) are those of the text, exactly its bytes are
  consumed, and what the client sent behind it stays in the buffer.
\<close>

theorem http_request_decoded:
  assumes "buffer_wf b" and "view b = request_text m url ver kvs body @ rest"
    and "line_ok m ver" and "CR \<notin> set (request_line m url ver)"
    and "find_str ''://'' url = None" and "CHR ''?'' \<notin> set url"
    and "headers_ok kvs" and "body_ok m kvs body"
  shows "returns (http_decode b new_HttpRequest)
    (\<lambda>(b', r). buffer_wf b' \<and> view b' = rest \<and> decoded_request m url ver kvs body r)"
  using returns_http_decode [OF assms] decoded_request_of by (elim returns_mono) (auto simp: drained_def)

lemma http_request_decoded_witness:
  "returns (http_decode (filled (request_text ''post'' ''/a'' ''http/1.1''
        [(''Host'', ''h''), (''Content-Length'', ''2'')] ''hi'' @ ''GET /'')) new_HttpRequest)
    (\<lambda>(b', r). buffer_wf b' \<and> view b' = ''GET /'' \<and>
       decoded_request ''post'' ''/a'' ''http/1.1'' [(''Host'', ''h''), (''Content-Length'', ''2'')] ''hi'' r)"
proof -
  let ?t = "request_text ''post'' ''/a'' ''http/1.1'' [(''Host'', ''h''), (''Content-Length'', ''2'')] ''hi''"
  have "int (length (?t @ ''GET /'')) \<le> INT_MAX" by code_simp
  from http_request_decoded [OF filled_ok [OF this] post_example] show ?thesis .
qed

text \<open>
  The query of a request line in origin form is cut at the first \<open>?\<close>, and its fields
  are split at \<open>&\<close> and \<open>=\<close> into the query map, later fields of a key replacing earlier ones.
\<close>

theorem http_query_parsed:
  assumes "line_ok m ver" and "CHR ''?'' \<notin> set p" and "qs \<noteq> []"
    and "\<forall>kv \<in> set qs. field_ok (CHR ''='') ''&'' kv"
    and "find_str ''://'' (p @ ''?'' @ join ''&'' (map (field (CHR ''='')) qs)) = None"
  shows "returns (parseHttpRequestLine new_HttpRequest
             (request_line m (p @ ''?'' @ join ''&'' (map (field (CHR ''='')) qs)) ver))
    (\<lambda>(ok, r). ok \<and> m_request_path r = p \<and> m_request_method r = Some (method_of m) \<and>
       m_request_query r = join ''&'' (map (field (CHR ''='')) qs) \<and>
       map_get (m_query_maps r) = map_of (rev qs))"
proof -
  have "map_get (fold (\<lambda>(k, v). map_put k v) qs []) = map_of (rev qs)"
    by (simp add: std_map.lookup_fold_update map_wf_Nil map_get_Nil)
  then show ?thesis
    using assms(5) by (simp add: parse_line_ok [OF assms(1)] parse_url_def
        parse_path_query [OF assms(2-4), simplified] new_HttpRequest_def)
qed

lemma http_query_parsed_witness:
  "returns (parseHttpRequestLine new_HttpRequest ''GET /q?a=1&b=2&a=3 HTTP/1.0'')
    (\<lambda>(ok, r). ok \<and> m_request_path r = ''/q'' \<and> m_request_method r = Some GET \<and>
       m_request_query r = ''a=1&b=2&a=3'' \<and> map_get (m_query_maps r) ''a'' = Some ''3'')"
proof -
  let ?qs = "[(''a'', ''1''), (''b'', ''2''), (''a'', ''3'')]"
  have "line_ok ''GET'' ''HTTP/1.0''" "CHR ''?'' \<notin> set ''/q''" "?qs \<noteq> []"
    "\<forall>kv \<in> set ?qs. field_ok (CHR ''='') ''&'' kv"
    "find_str ''://'' (''/q'' @ ''?'' @ join ''&'' (map (field (CHR ''='')) ?qs)) = None"
    by code_simp+
  from http_query_parsed [OF this]
  have "returns (parseHttpRequestLine new_HttpRequest ''GET /q?a=1&b=2&a=3 HTTP/1.0'')
    (\<lambda>(ok, r). ok \<and> m_request_path r = ''/q'' \<and> m_request_method r = Some (method_of ''GET'') \<and>
       m_request_query r = ''a=1&b=2&a=3'' \<and> map_get (m_query_maps r) = map_of (rev ?qs))"
    by (simp add: request_line_def field_def)
  moreover have "method_of ''GET'' = GET" by code_simp
  ultimately show ?thesis by (elim returns_mono) auto
qed

text \<open>
  A client that has sent the request line and not yet the headers gets its request
  marked as decoded, although no field of it has been parsed and none of its bytes has been
  consumed.
\<close>

theorem http_line_alone_is_accepted:
  assumes "buffer_wf b" and "view b = line @ g_CRLF" and "CR \<notin> set line"
  shows "http_decode b new_HttpRequest = Inr (b, new_HttpRequest\<lparr>decode_succ := True\<rparr>)"
  by (rule http_decode_line_only [OF assms])

lemma http_line_alone_is_accepted_witness:
  "http_decode (filled (''GET /a HTTP/1.1'' @ g_CRLF)) new_HttpRequest
     = Inr (filled (''GET /a HTTP/1.1'' @ g_CRLF), new_HttpRequest\<lparr>decode_succ := True\<rparr>)"
  by (rule http_line_alone_is_accepted [where line = "''GET /a HTTP/1.1''"])
    (simp_all add: filled_ok g_CRLF_def INT_MAX_def CR_def)

text \<open>
  A header block whose last line ends in a lone line feed makes the splitter cut past
  the end of its string: \<open>std::string::substr\<close> throws \<open>std::out_of_range\<close>, which nothing
  on the path from the socket catches.
\<close>

theorem http_lone_line_feed_throws:
  assumes "buffer_wf b"
    and "view b = request_line m url ver @ g_CRLF @ (x @ [LF]) @ g_CRLF_DOUBLE @ rest"
    and "line_ok m ver" and "CR \<notin> set (request_line m url ver)"
    and "find_str ''://'' url = None" and "CHR ''?'' \<notin> set url"
    and "CR \<notin> set x" and "LF \<notin> set x" and "3 \<le> length x"
  shows "http_decode b r = Inl Std_Out_Of_Range"
  by (rule http_decode_lone_LF [OF assms])

lemma http_lone_line_feed_throws_witness:
  "http_decode (filled (request_line ''post'' ''/a'' ''http/1.1'' @ g_CRLF @ (''a:b'' @ [LF]) @ g_CRLF_DOUBLE @ []))
     new_HttpRequest = Inl Std_Out_Of_Range"
proof -
  let ?t = "request_line ''post'' ''/a'' ''http/1.1'' @ g_CRLF @ (''a:b'' @ [LF]) @ g_CRLF_DOUBLE @ []"
  have "int (length ?t) \<le> INT_MAX" by code_simp
  from http_lone_line_feed_throws [OF filled_ok [OF this] post_example(1-4)] show ?thesis
    by (simp add: CR_def LF_def)
qed

text \<open>
  A response with a status code is appended to the buffer as status line, header lines
  in key order, an empty line and the body.
\<close>

theorem http_response_encoded:
  assumes "buffer_wf b" and "m_response_code res = Some code"
    and "m_write_index b + int (length (response_text res code)) \<le> WRITE_LIMIT"
  shows "returns (http_encode b res) (\<lambda>(b', res'). encode_succ res' \<and> view b' = view b @
           m_response_version res @ '' '' @ show_int code @ '' '' @ m_response_info res @ g_CRLF @
           concat (map (\<lambda>(k, v). k @ '':'' @ v @ g_CRLF) (m_response_header res)) @ g_CRLF @
           m_response_body res)"
proof -
  have h: "toHttpString (m_response_header res)
      = concat (map (\<lambda>(k, v). k @ '':'' @ v @ g_CRLF) (m_response_header res))"
    by (auto simp: toHttpString_def g_CRLF_def intro!: arg_cong [where f = concat])
  show ?thesis
    using returns_http_encode [OF assms]
    by (elim returns_mono) (auto simp: response_text_def h g_CRLF_def)
qed

lemma http_response_encoded_witness:
  "returns (http_encode (filled ''x'')
      (new_HttpResponse\<lparr>m_response_version := ''HTTP/1.1'', m_response_code := Some 7, m_response_info := ''OK'',
         m_response_header := [(''A'', ''1''), (''B'', ''2'')], m_response_body := ''hi''\<rparr>))
    (\<lambda>(b', res'). encode_succ res' \<and> view b' = ''xHTTP/1.1 7 OK'' @ g_CRLF @ ''A:1'' @ g_CRLF @ ''B:2''
        @ g_CRLF @ g_CRLF @ ''hi'')"
proof -
  let ?r = "new_HttpResponse\<lparr>m_response_version := ''HTTP/1.1'', m_response_code := Some 7, m_response_info := ''OK'',
         m_response_header := [(''A'', ''1''), (''B'', ''2'')], m_response_body := ''hi''\<rparr>"
  have s: "show_int 7 = ''7''" by code_simp
  have "m_write_index (filled ''x'') + int (length (response_text ?r 7)) \<le> WRITE_LIMIT"
    by (simp add: response_text_def toHttpString_def s filled_def WRITE_LIMIT_def)
  from http_response_encoded [OF filled_ok(1) _ this] show ?thesis
    by (simp add: s filled_ok INT_MAX_def)
qed

end
