(* ===== verification/Tcp_Connection.thy ===== *)
theory Tcp_Connection
  imports Flconcpb_Codec Http_Codec
begin

text \<open>
  One connection: \<open>net/tcp/tcp_connection.h\<close> and \<open>net/tcp/tcp_connection.cc\<close>. What the
  environment does while the coroutine of the connection waits in a hook is an argument: the
  bytes that arrive or the error of the read, how many bytes the kernel takes of a write, and
  whether the over-time flag is then set. A function that runs out of such events is waiting
  in the hook. The calls into the reactor, the kernel and the time wheel come out as a list
  of actions.
\<close>

section \<open>The code\<close>

datatype tcp_connection_state = NotConnected | Connected | HalfClosing | Closed

datatype connection_type = ServerConnection | ClientConnection

record tcp_connection =
  m_state :: tcp_connection_state
  m_connection_type :: connection_type
  m_codec :: protocal_type
  m_read_buffer :: tcp_buffer
  m_write_buffer :: tcp_buffer
  m_stop :: bool
  m_is_over_time :: bool
  m_reply_datas :: "(string \<times> flconcpb_struct) list"
  m_weak_slot :: "nat option"

datatype conn_action =
    Fresh_Slot nat
  | Unregister_Fd
  | Close_Fd
  | Shutdown_Fd

text \<open>
  The constructors. The slot of a server connection is created by \<open>registerToTimeWheel\<close>;
  \<open>m_weak_slot\<close> is \<open>None\<close> once the wheel has dropped it.
\<close>

definition initBuffer :: "int \<Rightarrow> tcp_connection \<Rightarrow> tcp_connection res" where
  "initBuffer sz c =
     bindE (new_TcpBuffer sz) (\<lambda>w. bindE (new_TcpBuffer sz) (\<lambda>r.
     Inr (c\<lparr>m_write_buffer := w, m_read_buffer := r\<rparr>)))"

definition new_connection :: "connection_type \<Rightarrow> protocal_type \<Rightarrow> int \<Rightarrow> tcp_connection res" where
  "new_connection ty codec buff_size =
     initBuffer buff_size
       \<lparr>m_state = (case ty of ServerConnection \<Rightarrow> Connected | ClientConnection \<Rightarrow> NotConnected),
        m_connection_type = ty, m_codec = codec,
        m_read_buffer = \<lparr>m_read_index = 0, m_write_index = 0, m_buffer = []\<rparr>,
        m_write_buffer = \<lparr>m_read_index = 0, m_write_index = 0, m_buffer = []\<rparr>,
        m_stop = False, m_is_over_time = False, m_reply_datas = [], m_weak_slot = None\<rparr>"

definition registerToTimeWheel :: "nat \<Rightarrow> tcp_connection \<Rightarrow> tcp_connection \<times> conn_action list" where
  "registerToTimeWheel slot c = (c\<lparr>m_weak_slot := Some slot\<rparr>, [Fresh_Slot slot])"

definition setState :: "tcp_connection_state \<Rightarrow> tcp_connection \<Rightarrow> tcp_connection" where
  "setState st c = c\<lparr>m_state := st\<rparr>"

definition setUpClient :: "tcp_connection \<Rightarrow> tcp_connection" where
  "setUpClient c = setState Connected c"

definition setOverTimeFlag :: "bool \<Rightarrow> tcp_connection \<Rightarrow> tcp_connection" where
  "setOverTimeFlag value c = c\<lparr>m_is_over_time := value\<rparr>"

definition clearClient :: "tcp_connection \<Rightarrow> tcp_connection \<times> conn_action list" where
  "clearClient c =
     (if m_state c = Closed then (c, [])
      else (setState Closed (c\<lparr>m_stop := True\<rparr>), [Unregister_Fd, Close_Fd]))"

definition shutdownConnection :: "tcp_connection \<Rightarrow> tcp_connection \<times> conn_action list" where
  "shutdownConnection c =
     (if m_state c = Closed \<or> m_state c = NotConnected then (c, [])
      else (setState HalfClosing c, [Shutdown_Fd]))"

subsection \<open>Reading\<close>

text \<open>
  The socket: bytes that have arrived and were not read, and what happens next while the
  reader waits, with the over-time flag as it is found afterwards. A read gives as many of
  the bytes as were asked for; it fails when the peer has closed or on an error.
\<close>

datatype sock_event = Arrive "char list" | Read_Failed

record socket =
  sk_pending :: "char list"
  sk_events :: "(sock_event \<times> bool) list"

datatype read_result =
    Got "char list" socket "bool option"
  | Failed socket bool
  | Would_Wait

definition read_hook :: "socket \<Rightarrow> int \<Rightarrow> read_result" where
  "read_hook sk n =
     (if sk_pending sk \<noteq> [] then
        Got (take (nat n) (sk_pending sk)) (sk\<lparr>sk_pending := drop (nat n) (sk_pending sk)\<rparr>) None
      else case sk_events sk of
        [] \<Rightarrow> Would_Wait
      | (Read_Failed, over) # evs \<Rightarrow> Failed (sk\<lparr>sk_events := evs\<rparr>) over
      | (Arrive xs, over) # evs \<Rightarrow>
          Got (take (nat n) xs) \<lparr>sk_pending = drop (nat n) xs, sk_events = evs\<rparr> (Some over))"

definition make_room :: "tcp_buffer \<Rightarrow> tcp_buffer res" where
  "make_room b =
     (if writeAble b = 0 then bindE (chk (2 * getSize b)) (resizeBuffer b) else Inr b)"

definition store_read :: "tcp_buffer \<Rightarrow> char list \<Rightarrow> tcp_buffer res" where
  "store_read b xs =
     (if xs \<noteq> [] then
        bindE (write_range (m_buffer b) (m_write_index b) xs) (\<lambda>v.
        recycleWrite (b\<lparr>m_buffer := v\<rparr>) (int (length xs)))
      else Inr b)"

datatype loop_end = Read_All | Over_Time | Peer_Closed | Waiting

definition set_over :: "bool option \<Rightarrow> tcp_connection \<Rightarrow> tcp_connection" where
  "set_over over c = (case over of None \<Rightarrow> c | Some v \<Rightarrow> c\<lparr>m_is_over_time := v\<rparr>)"

text \<open>
  One round of the loop of \<open>input\<close>, with \<open>None\<close> for another one. A read of no bytes at
  all is what the code takes for a closed peer.
\<close>

definition input_round ::
  "socket \<Rightarrow> tcp_connection \<Rightarrow> (loop_end option \<times> socket \<times> tcp_connection) res" where
  "input_round sk c =
     bindE (make_room (m_read_buffer c)) (\<lambda>b.
     let read_count = writeAble b;
         c = c\<lparr>m_read_buffer := b\<rparr>
     in case read_hook sk read_count of
          Would_Wait \<Rightarrow> Inr (Some Waiting, sk, c)
        | Failed sk over \<Rightarrow>
            let c = c\<lparr>m_is_over_time := over\<rparr> in
            Inr (Some (if over then Over_Time else Peer_Closed), sk, c)
        | Got xs sk over \<Rightarrow>
            bindE (store_read b xs) (\<lambda>b.
            let c = set_over over (c\<lparr>m_read_buffer := b\<rparr>) in
            Inr (if m_is_over_time c then Some Over_Time
                 else if xs = [] then Some Peer_Closed
                 else if int (length xs) = read_count then None
                 else Some Read_All, sk, c)))"

text \<open>How much the socket can still give: it falls with every round that goes on.\<close>

definition to_come :: "socket \<Rightarrow> char list" where
  "to_come sk = sk_pending sk @
     concat (map (\<lambda>e. case fst e of Arrive xs \<Rightarrow> xs | Read_Failed \<Rightarrow> []) (sk_events sk))"

lemma read_hook_to_come:
  "read_hook sk n = Got xs sk' over \<Longrightarrow> to_come sk = xs @ to_come sk'"
  by (cases "sk_pending sk") (auto simp: read_hook_def to_come_def split: list.splits sock_event.splits)

lemma input_round_continues:
  assumes "input_round sk c = Inr (None, sk', c')"
  shows "length (to_come sk') < length (to_come sk)"
proof -
  from assms obtain b where b: "make_room (m_read_buffer c) = Inr b"
    by (auto simp: input_round_def bindE_eq_Inr)
  show ?thesis
  proof (cases "read_hook sk (writeAble b)")
    case (Got xs sk1 over)
    with assms b have "sk' = sk1" "xs \<noteq> []"
      by (auto simp: input_round_def bindE_eq_Inr Let_def split: if_splits)
    with read_hook_to_come [OF Got] show ?thesis by simp
  qed (use assms b in \<open>auto simp: input_round_def\<close>)
qed

function input_loop ::
  "socket \<Rightarrow> tcp_connection \<Rightarrow> (loop_end \<times> socket \<times> tcp_connection) res" where
  "input_loop sk c =
     bindE (input_round sk c) (\<lambda>(e, sk, c).
     case e of None \<Rightarrow> input_loop sk c | Some e \<Rightarrow> Inr (e, sk, c))"
  by pat_completeness auto
termination
  by (relation "measure (\<lambda>(sk, c). length (to_come sk))") (auto dest: input_round_continues)

declare input_loop.simps [simp del]

datatype coroutine_end = Returns | Waits | Parked

text \<open>
  \<open>input\<close>: after \<open>clearClient\<close> the coroutine yields and is never resumed (\<open>Parked\<close>).
\<close>

definition conn_input ::
  "socket \<Rightarrow> tcp_connection \<Rightarrow>
   (coroutine_end \<times> socket \<times> tcp_connection \<times> conn_action list) res" where
  "conn_input sk c =
     (if m_is_over_time c then Inr (Returns, sk, c, [])
      else if m_state c = Closed \<or> m_state c = NotConnected then Inr (Returns, sk, c, [])
      else
        bindE (input_loop sk c) (\<lambda>(e, sk, c).
        case e of
          Waiting \<Rightarrow> Inr (Waits, sk, c, [])
        | Peer_Closed \<Rightarrow> (case clearClient c of (c, acts) \<Rightarrow> Inr (Parked, sk, c, acts))
        | Over_Time \<Rightarrow> Inr (Returns, sk, c, [])
        | Read_All \<Rightarrow>
            Inr (Returns, sk, c,
                 if m_connection_type c = ServerConnection then
                   (case m_weak_slot c of Some s \<Rightarrow> [Fresh_Slot s] | None \<Rightarrow> [])
                 else [])))"


subsection \<open>Executing\<close>

datatype app_data = Pb_Data flconcpb_struct | Http_Data http_request

definition new_data :: "protocal_type \<Rightarrow> app_data" where
  "new_data ty = (case ty of FlconcPb_Protocal \<Rightarrow> Pb_Data new_FlconcPbStruct
                           | Http_Protocal \<Rightarrow> Http_Data new_HttpRequest)"

text \<open>
  What \<open>execute\<close> does with a decoded message. \<open>dispatch\<close> is the server's dispatcher, with a
  state of its own; it gets the connection's write buffer.
\<close>

definition handle_data ::
  "('s \<Rightarrow> app_data \<Rightarrow> tcp_buffer \<Rightarrow> ('s \<times> tcp_buffer) res) \<Rightarrow> app_data \<Rightarrow> 's \<times> tcp_connection \<Rightarrow>
   ('s \<times> tcp_connection) res" where
  "handle_data dispatch data st =
     (case st of (s, c) \<Rightarrow>
        case m_connection_type c of
          ServerConnection \<Rightarrow>
            bindE (dispatch s data (m_write_buffer c)) (\<lambda>(s, out).
            Inr (s, c\<lparr>m_write_buffer := out\<rparr>))
        | ClientConnection \<Rightarrow>
            (case data of
               Pb_Data tmp \<Rightarrow>
                 Inr (s, c\<lparr>m_reply_datas := map_insert (msg_req tmp) tmp (m_reply_datas c)\<rparr>)
             | Http_Data _ \<Rightarrow> Inr (s, c)))"

definition conn_execute ::
  "nat \<Rightarrow> ('s \<Rightarrow> app_data \<Rightarrow> tcp_buffer \<Rightarrow> ('s \<times> tcp_buffer) res) \<Rightarrow> 's \<times> tcp_connection \<Rightarrow>
   ('s \<times> tcp_connection) res option" where
  "conn_execute fuel dispatch st =
     (case st of (s, c) \<Rightarrow>
      map_option (\<lambda>r. bindE r (\<lambda>(b, s, c). Inr (s, c\<lparr>m_read_buffer := b\<rparr>)))
        (case m_codec c of
           FlconcPb_Protocal \<Rightarrow>
             frame_loop fuel (\<lambda>b. decode b new_FlconcPbStruct) decode_succ
               (\<lambda>d. handle_data dispatch (Pb_Data d)) (m_read_buffer c) (s, c)
         | Http_Protocal \<Rightarrow>
             frame_loop fuel (\<lambda>b. http_decode b new_HttpRequest) decode_succ
               (\<lambda>d. handle_data dispatch (Http_Data d)) (m_read_buffer c) (s, c)))"

subsection \<open>Writing\<close>

text \<open>
  One write: the kernel takes up to \<open>n\<close> bytes, or the write fails with a result of zero or
  less. The address passed is that of the read index, which has to lie in the vector.
\<close>

datatype write_event = Takes nat | Write_Failed int

definition output_round ::
  "write_event \<times> bool \<Rightarrow> tcp_connection \<Rightarrow> (char list \<times> bool \<times> tcp_connection) res" where
  "output_round ev c =
     (let b = m_write_buffer c; total_size = readAble b in
      bindE (read_range (m_buffer b) (m_read_index b) total_size) (\<lambda>bytes.
      let (sent, rt) = (case fst ev of
             Takes n \<Rightarrow> let k = min n (length bytes) in (take k bytes, int k)
           | Write_Failed rt \<Rightarrow> ([], rt))
      in bindE (recycleRead b rt) (\<lambda>b.
         let c = c\<lparr>m_write_buffer := b, m_is_over_time := snd ev\<rparr> in
         Inr (sent, readAble b \<le> 0 \<or> m_is_over_time c, c))))"

text \<open>\<open>output\<close>: what was sent, and whether the coroutine returns or waits for the kernel.\<close>

fun output_loop ::
  "(write_event \<times> bool) list \<Rightarrow> tcp_connection \<Rightarrow> (char list \<times> coroutine_end \<times> tcp_connection) res" where
  "output_loop evs c =
     (if m_state c \<noteq> Connected \<or> readAble (m_write_buffer c) = 0 then Inr ([], Returns, c)
      else case evs of
        [] \<Rightarrow> Inr ([], Waits, c)
      | ev # evs \<Rightarrow>
          bindE (output_round ev c) (\<lambda>(sent, stop, c).
          if stop then Inr (sent, Returns, c)
          else bindE (output_loop evs c) (\<lambda>(sent', e, c). Inr (sent @ sent', e, c))))"

declare output_loop.simps [simp del]

definition conn_output ::
  "(write_event \<times> bool) list \<Rightarrow> tcp_connection \<Rightarrow> (char list \<times> coroutine_end \<times> tcp_connection) res" where
  "conn_output evs c = (if m_is_over_time c then Inr ([], Returns, c) else output_loop evs c)"

definition getResPackageData ::
  "string \<Rightarrow> tcp_connection \<Rightarrow> flconcpb_struct option \<times> tcp_connection" where
  "getResPackageData no c =
     (case map_get (m_reply_datas c) no of
        Some pb \<Rightarrow> (Some pb, c\<lparr>m_reply_datas := map_erase no (m_reply_datas c)\<rparr>)
      | None \<Rightarrow> (None, c))"

text \<open>
  \<open>MainServerLoopCorFunc\<close>, with one list of write events and one fuel per round: it ends when
  \<open>m_stop\<close> is set, and stops short when the coroutine waits in a hook or is parked.
\<close>

fun main_server_loop ::
  "('s \<Rightarrow> app_data \<Rightarrow> tcp_buffer \<Rightarrow> ('s \<times> tcp_buffer) res) \<Rightarrow>
   (nat \<times> (write_event \<times> bool) list) list \<Rightarrow> socket \<Rightarrow> 's \<times> tcp_connection \<Rightarrow>
   (char list \<times> conn_action list \<times> coroutine_end \<times> 's \<times> tcp_connection) res option" where
  "main_server_loop dispatch [] sk (s, c) = None"
| "main_server_loop dispatch ((fuel, evs) # rounds) sk (s, c) =
     (if m_stop c then Some (Inr ([], [], Returns, s, c))
      else case conn_input sk c of
        Inl e \<Rightarrow> Some (Inl e)
      | Inr (e, sk, c, acts) \<Rightarrow>
          if e \<noteq> Returns then Some (Inr ([], acts, e, s, c))
          else case conn_execute fuel dispatch (s, c) of
            None \<Rightarrow> None
          | Some (Inl e) \<Rightarrow> Some (Inl e)
          | Some (Inr (s, c)) \<Rightarrow>
              case conn_output evs c of
                Inl e \<Rightarrow> Some (Inl e)
              | Inr (sent, e, c) \<Rightarrow>
                  if e \<noteq> Returns then Some (Inr (sent, acts, e, s, c))
                  else map_option (\<lambda>r. bindE r (\<lambda>(sent', acts', e, s, c).
                         Inr (sent @ sent', acts @ acts', e, s, c)))
                       (main_server_loop dispatch rounds sk (s, c)))"


section \<open>No byte is lost on the way in\<close>

lemma make_room_returns:
  assumes wf: "buffer_wf b" and s: "2 * m_write_index b \<le> INT_MAX"
  shows "returns (make_room b) (\<lambda>b'. buffer_wf b' \<and> view b' = view b \<and>
           m_write_index b' \<le> m_write_index b \<and>
           writeAble b' = int (length (m_buffer b')) - m_write_index b' \<and>
           (m_buffer b \<noteq> [] \<longrightarrow> m_buffer b' \<noteq> [] \<and> 0 < writeAble b'))"
proof (cases "writeAble b = 0")
  case False
  with wf show ?thesis
    by (auto simp: make_room_def writeAble_def buffer_wf_def wrap32_nonneg)
next
  case True
  let ?n = "2 * m_write_index b"
  from wf have "writeAble b = int (length (m_buffer b)) - m_write_index b"
    by (auto simp: writeAble_def buffer_wf_def wrap32_nonneg)
  with True have g: "getSize b = m_write_index b" "int (length (m_buffer b)) = m_write_index b"
    using wf by (auto simp: getSize_def buffer_wf_def wrap32_nonneg)
  from wf s have f: "fits_int ?n" by (auto simp: buffer_wf_def intro!: fits_int_nonneg)
  from wf have r: "readAble b \<le> m_write_index b" "0 \<le> m_write_index b"
    by (auto simp: buffer_wf_def readAble_def)
  from g(2) have ne: "m_buffer b \<noteq> [] \<longleftrightarrow> 0 < m_write_index b" by (cases "m_buffer b") auto
  have "returns (resizeBuffer b ?n) (\<lambda>b'. buffer_wf b' \<and> view b' = view b \<and>
      m_write_index b' = readAble b \<and> int (length (m_buffer b')) = ?n)"
    using r s by (intro returns_resizeBuffer [OF wf]) auto
  then have "returns (resizeBuffer b ?n) (\<lambda>b'. buffer_wf b' \<and> view b' = view b \<and>
           m_write_index b' \<le> m_write_index b \<and>
           writeAble b' = int (length (m_buffer b')) - m_write_index b' \<and>
           (m_buffer b \<noteq> [] \<longrightarrow> m_buffer b' \<noteq> [] \<and> 0 < writeAble b'))"
    unfolding ne using s r
    by (elim returns_mono) (auto simp: writeAble_def buffer_wf_def wrap32_nonneg)
  then show ?thesis using True f g by (simp add: make_room_def)
qed

lemma store_read_returns:
  assumes "buffer_wf b" and "int (length xs) \<le> int (length (m_buffer b)) - m_write_index b"
  shows "returns (store_read b xs) (\<lambda>b'. buffer_wf b' \<and> view b' = view b @ xs \<and>
           m_write_index b' \<le> m_write_index b + int (length xs) \<and>
           length (m_buffer b') = length (m_buffer b))"
  using returns_socket_fill [OF assms] assms(1) by (simp add: store_read_def del: returns_bindE)

text \<open>Enough room for all that can arrive, so that doubling the vector stays in an \<open>int\<close>.\<close>

definition read_room :: "socket \<Rightarrow> tcp_connection \<Rightarrow> bool" where
  "read_room sk c \<longleftrightarrow> buffer_wf (m_read_buffer c) \<and>
     2 * (m_write_index (m_read_buffer c) + int (length (to_come sk))) \<le> INT_MAX"

text \<open>A socket on which arrivals bring bytes, and a buffer that was not created empty.\<close>

definition reads_make_sense :: "socket \<Rightarrow> tcp_connection \<Rightarrow> bool" where
  "reads_make_sense sk c \<longleftrightarrow>
     m_buffer (m_read_buffer c) \<noteq> [] \<and> (\<forall>over. (Arrive [], over) \<notin> set (sk_events sk))"

definition peer_fails :: "socket \<Rightarrow> bool" where
  "peer_fails sk \<longleftrightarrow> Read_Failed \<in> fst ` set (sk_events sk)"

text \<open>What a round and the loop of \<open>input\<close> keep.\<close>

definition same_but_reading :: "tcp_connection \<Rightarrow> tcp_connection \<Rightarrow> bool" where
  "same_but_reading c c' \<longleftrightarrow>
     m_state c' = m_state c \<and> m_connection_type c' = m_connection_type c \<and>
     m_codec c' = m_codec c \<and> m_write_buffer c' = m_write_buffer c \<and> m_stop c' = m_stop c \<and>
     m_reply_datas c' = m_reply_datas c \<and> m_weak_slot c' = m_weak_slot c"

definition reading :: "socket \<times> tcp_connection \<Rightarrow> socket \<times> tcp_connection \<Rightarrow> bool" where
  "reading st st' \<longleftrightarrow>
     (case (st, st') of ((sk, c), (sk', c')) \<Rightarrow>
        read_room sk' c' \<and> same_but_reading c c' \<and>
        view (m_read_buffer c') @ to_come sk' = view (m_read_buffer c) @ to_come sk \<and>
        (reads_make_sense sk c \<longrightarrow> reads_make_sense sk' c') \<and> (peer_fails sk' \<longrightarrow> peer_fails sk))"

lemma reading_trans: "reading st st' \<Longrightarrow> reading st' st'' \<Longrightarrow> reading st st''"
  by (cases st; cases st'; cases st'') (auto simp: reading_def same_but_reading_def)

lemma read_hook_Got:
  assumes "read_hook sk n = Got xs sk' over"
  shows "to_come sk = xs @ to_come sk'" and "int (length xs) \<le> max 0 n"
    and "int (length xs) < n \<Longrightarrow> sk_pending sk' = []"
    and "set (sk_events sk') \<subseteq> set (sk_events sk)"
    and "xs = [] \<Longrightarrow> 0 < n \<Longrightarrow> \<exists>over. (Arrive [], over) \<in> set (sk_events sk)"
  using assms read_hook_to_come [OF assms]
  by (auto simp: read_hook_def min_def le_nat_iff split: if_splits list.splits sock_event.splits)

lemma read_hook_Failed:
  assumes "read_hook sk n = Failed sk' over"
  shows "to_come sk' = to_come sk" and "peer_fails sk" and "set (sk_events sk') \<subseteq> set (sk_events sk)"
  using assms
  by (auto simp: read_hook_def to_come_def peer_fails_def split: if_splits list.splits sock_event.splits)


lemma input_round_returns:
  assumes room: "read_room sk c"
  shows "returns (input_round sk c) (\<lambda>(e, sk', c'). reading (sk, c) (sk', c') \<and>
    (e = Some Read_All \<longrightarrow> sk_pending sk' = [] \<and> \<not> m_is_over_time c') \<and>
    (e = Some Waiting \<longrightarrow> to_come sk' = []) \<and>
    (e = Some Over_Time \<longrightarrow> m_is_over_time c') \<and>
    (e = Some Peer_Closed \<longrightarrow> reads_make_sense sk c \<longrightarrow> peer_fails sk))"
proof -
  let ?b = "m_read_buffer c"
  from room have wf: "buffer_wf ?b" and w: "2 * m_write_index ?b \<le> INT_MAX"
    by (simp_all add: read_room_def)
  from make_room_returns [OF this] obtain b where b: "make_room ?b = Inr b" "buffer_wf b"
    "view b = view ?b" "m_write_index b \<le> m_write_index ?b"
    "writeAble b = int (length (m_buffer b)) - m_write_index b"
    "m_buffer ?b \<noteq> [] \<Longrightarrow> m_buffer b \<noteq> [] \<and> 0 < writeAble b"
    by (auto elim!: returnsE)
  from b(2,5) have n: "0 \<le> writeAble b" by (simp add: buffer_wf_def)
  show ?thesis
  proof (cases "read_hook sk (writeAble b)")
    case Would_Wait
    then have "to_come sk = []"
      by (auto simp: read_hook_def to_come_def split: if_splits list.splits sock_event.splits)
    with Would_Wait b room show ?thesis
      by (auto simp: input_round_def reading_def same_but_reading_def read_room_def reads_make_sense_def)
  next
    case (Failed sk' over)
    note f = read_hook_Failed [OF this]
    from f(3) have "peer_fails sk' \<Longrightarrow> peer_fails sk" by (auto simp: peer_fails_def)
    with Failed f b room show ?thesis
      by (auto simp: input_round_def reading_def same_but_reading_def read_room_def
          reads_make_sense_def)
  next
    case (Got xs sk' over)
    note g = read_hook_Got [OF this]
    from g(2) n b(5) have "int (length xs) \<le> int (length (m_buffer b)) - m_write_index b" by simp
    from store_read_returns [OF b(2) this] obtain b' where b': "store_read b xs = Inr b'" "buffer_wf b'"
      "view b' = view b @ xs" "m_write_index b' \<le> m_write_index b + int (length xs)"
      "length (m_buffer b') = length (m_buffer b)"
      by (auto elim!: returnsE)
    let ?c = "set_over over (c\<lparr>m_read_buffer := b'\<rparr>)"
    have c: "m_read_buffer ?c = b'" "same_but_reading c ?c"
      by (simp_all add: set_over_def same_but_reading_def split: option.split)
    have "reading (sk, c) (sk', ?c)"
      using room b b' c g(1,4)
      by (auto simp: reading_def read_room_def reads_make_sense_def peer_fails_def)
    moreover have "xs = [] \<Longrightarrow> reads_make_sense sk c \<Longrightarrow> False"
      using g(5) b(6) by (auto simp: reads_make_sense_def)
    moreover have "int (length xs) \<noteq> writeAble b \<Longrightarrow> sk_pending sk' = []"
      using g(2,3) n by auto
    ultimately show ?thesis
      using b(1) b'(1) Got by (auto simp: input_round_def Let_def c)
  qed
qed

lemma input_loop_returns:
  assumes "read_room sk c"
  shows "returns (input_loop sk c) (\<lambda>(e, sk', c'). reading (sk, c) (sk', c') \<and>
    (e = Read_All \<longrightarrow> sk_pending sk' = [] \<and> \<not> m_is_over_time c') \<and>
    (e = Waiting \<longrightarrow> to_come sk' = []) \<and>
    (e = Over_Time \<longrightarrow> m_is_over_time c') \<and>
    (e = Peer_Closed \<longrightarrow> reads_make_sense sk c \<longrightarrow> peer_fails sk))"
  using assms
proof (induction sk c rule: input_loop.induct)
  case (1 sk c)
  from input_round_returns [OF 1(2)] obtain e sk1 c1 where
    r: "input_round sk c = Inr (e, sk1, c1)" "reading (sk, c) (sk1, c1)"
    "e = Some Read_All \<Longrightarrow> sk_pending sk1 = [] \<and> \<not> m_is_over_time c1"
    "e = Some Waiting \<Longrightarrow> to_come sk1 = []" "e = Some Over_Time \<Longrightarrow> m_is_over_time c1"
    "e = Some Peer_Closed \<Longrightarrow> reads_make_sense sk c \<Longrightarrow> peer_fails sk"
    by (auto elim!: returnsE)
  show ?case
  proof (cases e)
    case (Some e')
    with r show ?thesis by (subst input_loop.simps) auto
  next
    case None
    from r(2) have "read_room sk1 c1" by (simp add: reading_def)
    from 1(1) [OF r(1) refl refl None this] show ?thesis
    proof (rule returnsE)
      fix x
      assume x: "input_loop sk1 c1 = Inr x" "case x of (e, sk', c') \<Rightarrow> reading (sk1, c1) (sk', c') \<and>
        (e = Read_All \<longrightarrow> sk_pending sk' = [] \<and> \<not> m_is_over_time c') \<and>
        (e = Waiting \<longrightarrow> to_come sk' = []) \<and>
        (e = Over_Time \<longrightarrow> m_is_over_time c') \<and>
        (e = Peer_Closed \<longrightarrow> reads_make_sense sk1 c1 \<longrightarrow> peer_fails sk1)"
      obtain e2 sk2 c2 where e: "x = (e2, sk2, c2)" by (metis prod.exhaust)
      from r(2) have m: "reads_make_sense sk c \<Longrightarrow> reads_make_sense sk1 c1"
        "peer_fails sk1 \<Longrightarrow> peer_fails sk" by (auto simp: reading_def)
      from x(2) have "reading (sk, c) (sk2, c2)" using reading_trans [OF r(2)] by (simp add: e)
      with x r(1) None m show ?thesis by (subst input_loop.simps) (simp add: e)
    qed
  qed
qed

section \<open>Executing complete messages\<close>

fun dispatch_all ::
  "('s \<Rightarrow> app_data \<Rightarrow> tcp_buffer \<Rightarrow> ('s \<times> tcp_buffer) res) \<Rightarrow> app_data list \<Rightarrow> 's \<Rightarrow> tcp_buffer \<Rightarrow>
   ('s \<times> tcp_buffer) res" where
  "dispatch_all dispatch [] s out = Inr (s, out)"
| "dispatch_all dispatch (d # ds) s out =
     bindE (dispatch s d out) (\<lambda>(s, out). dispatch_all dispatch ds s out)"

lemma handle_all_server:
  "m_connection_type c = ServerConnection \<Longrightarrow>
   handle_all (\<lambda>d. handle_data dispatch (f d)) ds (s, c) =
     bindE (dispatch_all dispatch (map f ds) s (m_write_buffer c)) (\<lambda>(s, out).
     Inr (s, c\<lparr>m_write_buffer := out\<rparr>))"
proof (induction ds arbitrary: s c)
  case (Cons d ds)
  then show ?case
    by (cases "dispatch s (f d) (m_write_buffer c)")
      (auto simp: handle_data_def bindE_assoc split: prod.splits)
qed simp

lemma handle_all_client:
  "m_connection_type c = ClientConnection \<Longrightarrow>
   handle_all (\<lambda>d. handle_data dispatch (Pb_Data d)) ds (s, c) =
     Inr (s, c\<lparr>m_reply_datas := fold (\<lambda>d. map_insert (msg_req d) d) ds (m_reply_datas c)\<rparr>)"
  by (induction ds arbitrary: c) (auto simp: handle_data_def)

text \<open>The replies of a client are kept under their message numbers, the first one of a number winning.\<close>

lemma fold_map_insert:
  "map_wf m \<Longrightarrow> map_wf (fold (\<lambda>d. map_insert (k d) d) ds m) \<and>
     map_get (fold (\<lambda>d. map_insert (k d) d) ds m) = map_of (map (\<lambda>d. (k d, d)) ds) ++ map_get m"
proof (induction ds arbitrary: m)
  case (Cons d ds)
  have "map_wf (map_insert (k d) d m)"
    "map_get (map_insert (k d) d m) = (case map_get m (k d) of None \<Rightarrow> (map_get m)(k d \<mapsto> d) | Some _ \<Rightarrow> map_get m)"
    using Cons.prems by (simp_all add: map_insert_def map_wf_put map_get_put split: option.split)
  with Cons.IH [of "map_insert (k d) d m"] show ?case
    by (auto simp: fun_eq_iff map_add_def split: option.splits)
qed simp

section \<open>No byte is lost on the way out\<close>

definition all_taken :: "(write_event \<times> bool) list \<Rightarrow> bool" where
  "all_taken evs \<longleftrightarrow> (\<forall>ev \<in> set evs. \<exists>n. fst ev = Takes n)"

definition same_but_writing :: "tcp_connection \<Rightarrow> tcp_connection \<Rightarrow> bool" where
  "same_but_writing c c' \<longleftrightarrow>
     m_state c' = m_state c \<and> m_connection_type c' = m_connection_type c \<and>
     m_codec c' = m_codec c \<and> m_read_buffer c' = m_read_buffer c \<and> m_stop c' = m_stop c \<and>
     m_reply_datas c' = m_reply_datas c \<and> m_weak_slot c' = m_weak_slot c"

lemma output_round_taken:
  assumes wf: "buffer_wf (m_write_buffer c)"
  shows "returns (output_round (Takes n, over) c) (\<lambda>(sent, stop, c').
    buffer_wf (m_write_buffer c') \<and> sent @ view (m_write_buffer c') = view (m_write_buffer c) \<and>
    (stop \<longleftrightarrow> view (m_write_buffer c') = [] \<or> over) \<and>
    same_but_writing c c' \<and> m_is_over_time c' = over)"
proof -
  let ?b = "m_write_buffer c"
  let ?k = "min n (length (view ?b))"
  have r: "read_range (m_buffer ?b) (m_read_index ?b) (readAble ?b) = Inr (view ?b)"
    using wf by (auto simp: read_range_def buffer_wf_def readAble_def view_def)
  have "int ?k \<le> readAble ?b" using length_view [OF wf] by simp
  from returns_recycleRead [OF wf _ this] obtain b' where
    b': "recycleRead ?b (int ?k) = Inr b'" "buffer_wf b'" "view b' = drop ?k (view ?b)"
    by (auto elim!: returnsE)
  from length_view [OF b'(2)] have "readAble b' \<le> 0 \<longleftrightarrow> view b' = []"
    by (cases "view b'") auto
  with r b' show ?thesis by (simp add: output_round_def Let_def same_but_writing_def)
qed

lemma output_loop_returns:
  assumes "buffer_wf (m_write_buffer c)" and "all_taken evs"
  shows "returns (output_loop evs c) (\<lambda>(sent, e, c').
    buffer_wf (m_write_buffer c') \<and> sent @ view (m_write_buffer c') = view (m_write_buffer c) \<and>
    same_but_writing c c' \<and>
    (e = Returns \<longrightarrow> view (m_write_buffer c') = [] \<or> m_is_over_time c' \<or> m_state c \<noteq> Connected))"
  using assms
proof (induction evs arbitrary: c)
  case Nil
  then show ?case using length_view [of "m_write_buffer c"]
    by (subst output_loop.simps) (auto simp: same_but_writing_def)
next
  case (Cons ev evs)
  show ?case
  proof (cases "m_state c \<noteq> Connected \<or> readAble (m_write_buffer c) = 0")
    case True
    with Cons.prems length_view [of "m_write_buffer c"] show ?thesis
      by (subst output_loop.simps) (auto simp: same_but_writing_def)
  next
    case False
    from Cons.prems(2) obtain n over where ev: "ev = (Takes n, over)" and rest: "all_taken evs"
      by (cases ev) (auto simp: all_taken_def)
    from output_round_taken [OF Cons.prems(1), of n over] obtain sent stop c1 where
      r: "output_round ev c = Inr (sent, stop, c1)" "buffer_wf (m_write_buffer c1)"
      "sent @ view (m_write_buffer c1) = view (m_write_buffer c)"
      "stop \<longleftrightarrow> view (m_write_buffer c1) = [] \<or> over"
      "same_but_writing c c1" "m_is_over_time c1 = over"
      unfolding ev by (auto elim!: returnsE)
    have c1: "m_state c1 = m_state c" "same_but_writing c1 c2 \<Longrightarrow> same_but_writing c c2" for c2
      using r(5) by (auto simp: same_but_writing_def)
    show ?thesis
    proof (cases stop)
      case True
      with False r c1 show ?thesis by (subst output_loop.simps) auto
    next
      case False': False
      from Cons.IH [OF r(2) rest] show ?thesis
        using False False' r(1,3) c1 by (subst output_loop.simps) (auto elim!: returns_mono)
    qed
  qed
qed

section \<open>Properties\<close>

text \<open>A connection with given bytes in its buffers.\<close>

definition example_conn :: "connection_type \<Rightarrow> protocal_type \<Rightarrow> string \<Rightarrow> string \<Rightarrow> tcp_connection" where
  "example_conn ty codec rd wr =
     \<lparr>m_state = Connected, m_connection_type = ty, m_codec = codec, m_read_buffer = filled rd,
      m_write_buffer = filled wr, m_stop = False, m_is_over_time = False, m_reply_datas = [],
      m_weak_slot = Some 3\<rparr>"

lemma returns_conn_input:
  assumes "read_room sk c" and "reads_make_sense sk c" and "m_state c = Connected"
    and "\<not> m_is_over_time c"
  shows "returns (conn_input sk c) (\<lambda>(e, sk', c', acts).
    view (m_read_buffer c') @ to_come sk' = view (m_read_buffer c) @ to_come sk \<and>
    buffer_wf (m_read_buffer c') \<and> m_write_buffer c' = m_write_buffer c \<and>
    (e = Returns \<longrightarrow> \<not> m_is_over_time c' \<longrightarrow> sk_pending sk' = [] \<and>
       acts = (case m_connection_type c of
                 ServerConnection \<Rightarrow> (case m_weak_slot c of Some s \<Rightarrow> [Fresh_Slot s] | None \<Rightarrow> [])
               | ClientConnection \<Rightarrow> [])) \<and>
    (e = Waits \<longrightarrow> to_come sk' = [] \<and> acts = []) \<and>
    (e = Parked \<longrightarrow> peer_fails sk \<and> m_state c' = Closed \<and> acts = [Unregister_Fd, Close_Fd]))"
proof -
  from input_loop_returns [OF assms(1)] obtain e sk1 c1 where
    r: "input_loop sk c = Inr (e, sk1, c1)" "reading (sk, c) (sk1, c1)"
    "e = Read_All \<Longrightarrow> sk_pending sk1 = [] \<and> \<not> m_is_over_time c1"
    "e = Waiting \<Longrightarrow> to_come sk1 = []" "e = Over_Time \<Longrightarrow> m_is_over_time c1"
    "e = Peer_Closed \<Longrightarrow> peer_fails sk"
    using assms(2) by (auto elim!: returnsE)
  from r(2) have f: "m_state c1 = Connected" "m_connection_type c1 = m_connection_type c"
    "m_weak_slot c1 = m_weak_slot c" "m_write_buffer c1 = m_write_buffer c" "m_stop c1 = m_stop c"
    "view (m_read_buffer c1) @ to_come sk1 = view (m_read_buffer c) @ to_come sk"
    "buffer_wf (m_read_buffer c1)"
    using assms(3) by (auto simp: reading_def same_but_reading_def read_room_def)
  show ?thesis
    using assms(3,4) r(1,3-) f
    by (cases e; cases "m_connection_type c"; cases "m_weak_slot c")
      (simp_all add: conn_input_def clearClient_def setState_def)
qed

text \<open>
  C19: Whatever the peer and the kernel do, \<open>input\<close> reaches no fault and loses, duplicates or
  reorders nothing: the bytes in the read buffer followed by those still to come are the same
  before and after. When it goes on to \<open>execute\<close> normally, everything that had arrived is in
  the buffer and the slot of a server connection has been put into the time wheel again; it
  closes the connection only when a read has failed.
\<close>

theorem conn_input_conserves_bytes:
  assumes "read_room sk c" and "reads_make_sense sk c" and "m_state c = Connected"
    and "\<not> m_is_over_time c"
  shows "returns (conn_input sk c) (\<lambda>(e, sk', c', acts).
    view (m_read_buffer c') @ to_come sk' = view (m_read_buffer c) @ to_come sk \<and>
    buffer_wf (m_read_buffer c') \<and> m_write_buffer c' = m_write_buffer c \<and>
    (e = Returns \<longrightarrow> \<not> m_is_over_time c' \<longrightarrow> sk_pending sk' = [] \<and>
       acts = (case m_connection_type c of
                 ServerConnection \<Rightarrow> (case m_weak_slot c of Some s \<Rightarrow> [Fresh_Slot s] | None \<Rightarrow> [])
               | ClientConnection \<Rightarrow> [])) \<and>
    (e = Waits \<longrightarrow> to_come sk' = [] \<and> acts = []) \<and>
    (e = Parked \<longrightarrow> peer_fails sk \<and> m_state c' = Closed \<and> acts = [Unregister_Fd, Close_Fd]))"
  using assms by (rule returns_conn_input)

lemma conn_input_conserves_bytes_witness:
  "returns (conn_input \<lparr>sk_pending = ''cdefg'', sk_events = [(Arrive ''hi'', False)]\<rparr>
      (example_conn ServerConnection Http_Protocal ''ab'' []))
    (\<lambda>(e, sk', c', acts). view (m_read_buffer c') @ to_come sk' = ''abcdefghi'')"
proof -
  let ?sk = "\<lparr>sk_pending = ''cdefg'', sk_events = [(Arrive ''hi'', False)]\<rparr>"
  let ?c = "example_conn ServerConnection Http_Protocal ''ab'' []"
  have v: "view (m_read_buffer ?c) @ to_come ?sk = ''abcdefghi''"
    by (simp add: example_conn_def to_come_def filled_ok INT_MAX_def)
  have "read_room ?sk ?c" "reads_make_sense ?sk ?c" "m_state ?c = Connected" "\<not> m_is_over_time ?c"
    by (simp_all add: read_room_def reads_make_sense_def example_conn_def to_come_def filled_ok
        INT_MAX_def) (simp_all add: filled_def)
  from conn_input_conserves_bytes [OF this] show ?thesis
    unfolding v by (elim returns_mono) auto
qed

lemma returns_conn_output:
  assumes "buffer_wf (m_write_buffer c)" and "all_taken evs" and "m_state c = Connected"
    and "\<not> m_is_over_time c"
  shows "returns (conn_output evs c) (\<lambda>(sent, e, c').
    sent @ view (m_write_buffer c') = view (m_write_buffer c) \<and> buffer_wf (m_write_buffer c') \<and>
    m_read_buffer c' = m_read_buffer c \<and>
    (e = Returns \<longrightarrow> \<not> m_is_over_time c' \<longrightarrow> sent = view (m_write_buffer c)))"
  using output_loop_returns [OF assms(1,2)] assms(3,4)
  by (auto simp: conn_output_def same_but_writing_def elim!: returns_mono)

text \<open>
  C20: As long as every write makes some progress or none, without failing, what has been sent
  followed by what is left in the write buffer is what was in it before: nothing is sent twice
  or skipped. When \<open>output\<close> returns on a connected, timely connection, everything is sent.
\<close>

theorem conn_output_sends_in_order:
  assumes "buffer_wf (m_write_buffer c)" and "all_taken evs" and "m_state c = Connected"
    and "\<not> m_is_over_time c"
  shows "returns (conn_output evs c) (\<lambda>(sent, e, c').
    sent @ view (m_write_buffer c') = view (m_write_buffer c) \<and> buffer_wf (m_write_buffer c') \<and>
    m_read_buffer c' = m_read_buffer c \<and>
    (e = Returns \<longrightarrow> \<not> m_is_over_time c' \<longrightarrow> sent = view (m_write_buffer c)))"
  using assms by (rule returns_conn_output)

lemma conn_output_sends_in_order_witness:
  "returns (conn_output [(Takes 2, False), (Takes 9, False)] (example_conn ServerConnection Http_Protocal [] ''hello''))
     (\<lambda>(sent, e, c'). sent @ view (m_write_buffer c') = ''hello'')"
proof -
  let ?c = "example_conn ServerConnection Http_Protocal [] ''hello''"
  have "buffer_wf (m_write_buffer ?c)" "all_taken [(Takes 2, False), (Takes 9, False)]"
    "m_state ?c = Connected" "\<not> m_is_over_time ?c" "view (m_write_buffer ?c) = ''hello''"
    by (simp_all add: example_conn_def filled_ok INT_MAX_def all_taken_def)
  from conn_output_sends_in_order [OF this(1-4)] this(5) show ?thesis
    by (elim returns_mono) auto
qed

text \<open>
  A failed write is not treated as one: its result is given to \<open>recycleRead\<close>, which moves
  the read index to -1, and the next turn of the loop, which nothing prevents, passes an
  address in front of the vector to \<open>write\<close>.
\<close>

theorem conn_output_write_failure:
  assumes "buffer_wf (m_write_buffer c)" and "m_read_index (m_write_buffer c) = 0"
    and "view (m_write_buffer c) \<noteq> []" and "m_state c = Connected" and "\<not> m_is_over_time c"
  shows "conn_output ((Write_Failed (-1), False) # ev # evs) c = Inl Out_Of_Bounds"
proof -
  let ?b = "m_write_buffer c"
  from assms(3) length_view [OF assms(1)] have r: "0 < readAble ?b" by (cases "view ?b") auto
  have w: "wrap32 (int (length (m_buffer ?b))) = int (length (m_buffer ?b))"
    "wrap32 (int (length (m_buffer ?b) div 3)) = int (length (m_buffer ?b) div 3)"
    using assms(1) by (auto simp: buffer_wf_def intro!: wrap32_nonneg)
  have "recycleRead ?b (-1) = Inr (?b\<lparr>m_read_index := -1\<rparr>)"
    using assms(2) w by (simp add: recycleRead_def adjustBuffer_def fits_int_def INT_MIN_def INT_MAX_def)
  moreover have "read_range (m_buffer ?b) (m_read_index ?b) (readAble ?b) = Inr (view ?b)"
    using assms(1) by (auto simp: read_range_def buffer_wf_def readAble_def view_def)
  moreover have "0 < readAble (?b\<lparr>m_read_index := -1\<rparr>)"
    using r assms(2) by (simp add: readAble_def)
  ultimately have "output_round (Write_Failed (-1), False) c
      = Inr ([], False, c\<lparr>m_write_buffer := ?b\<lparr>m_read_index := -1\<rparr>, m_is_over_time := False\<rparr>)"
    by (simp add: output_round_def Let_def)
  moreover have "output_round ev (c\<lparr>m_write_buffer := ?b\<lparr>m_read_index := -1\<rparr>, m_is_over_time := False\<rparr>)
      = Inl Out_Of_Bounds"
    by (simp add: output_round_def read_range_def Let_def)
  moreover have "readAble (?b\<lparr>m_read_index := -1\<rparr>) \<noteq> 0" using r assms(2) by (simp add: readAble_def)
  ultimately show ?thesis
    using assms(4,5) r by (simp add: conn_output_def output_loop.simps)
qed

lemma conn_output_write_failure_witness:
  "conn_output [(Write_Failed (-1), False), (Takes 5, False)] (example_conn ServerConnection Http_Protocal [] ''hello'')
     = Inl Out_Of_Bounds"
  by (rule conn_output_write_failure)
    (simp_all add: example_conn_def filled_ok INT_MAX_def, simp add: filled_def)

text \<open>
  A server connection whose read buffer holds complete messages dispatches every one of them,
  once and in order, and has then consumed the whole buffer; one round more than there are
  messages is enough fuel.
\<close>

lemma execute_packages:
  assumes "m_connection_type c = ServerConnection" and "m_codec c = FlconcPb_Protocal"
    and "buffer_wf (m_read_buffer c)" and "\<forall>d \<in> set ds. pb_fits d"
    and "view (m_read_buffer c) = concat (map package ds)" and "length ds < fuel"
  shows "\<exists>b'. drained (m_read_buffer c) [] b' \<and> conn_execute fuel dispatch (s, c) =
    Some (bindE (dispatch_all dispatch (map (\<lambda>d. Pb_Data (received d new_FlconcPbStruct)) ds) s (m_write_buffer c))
      (\<lambda>(s, out). Inr (s, c\<lparr>m_read_buffer := b', m_write_buffer := out\<rparr>)))"
proof -
  from pb_codec.frame_loop_frames [OF assms(3-6), of "\<lambda>d. handle_data dispatch (Pb_Data d)" "(s, c)"]
  obtain b' where r: "drained (m_read_buffer c) [] b'"
    "frame_loop fuel (\<lambda>b. decode b new_FlconcPbStruct) decode_succ (\<lambda>d. handle_data dispatch (Pb_Data d))
       (m_read_buffer c) (s, c) =
     Some (bindE (handle_all (\<lambda>d. handle_data dispatch (Pb_Data d)) (map (\<lambda>d. received d new_FlconcPbStruct) ds) (s, c))
       (\<lambda>s. Inr (b', s)))"
    by blast
  with assms(2) show ?thesis
    by (intro exI [of _ b'], cases "dispatch_all dispatch (map (\<lambda>d. Pb_Data (received d new_FlconcPbStruct)) ds) s (m_write_buffer c)")
      (auto simp: conn_execute_def handle_all_server [OF assms(1)] comp_def)
qed

lemma execute_requests:
  assumes "m_connection_type c = ServerConnection" and "m_codec c = Http_Protocal"
    and "buffer_wf (m_read_buffer c)" and "\<forall>f \<in> set fs. rf_ok f"
    and "view (m_read_buffer c) = concat (map rf_text fs)" and "length fs < fuel"
  shows "\<exists>b'. drained (m_read_buffer c) [] b' \<and> conn_execute fuel dispatch (s, c) =
    Some (bindE (dispatch_all dispatch (map (\<lambda>f. Http_Data (rf_request f)) fs) s (m_write_buffer c))
      (\<lambda>(s, out). Inr (s, c\<lparr>m_read_buffer := b', m_write_buffer := out\<rparr>)))"
proof -
  from http_codec.frame_loop_frames [OF assms(3-6), of "\<lambda>d. handle_data dispatch (Http_Data d)" "(s, c)"]
  obtain b' where r: "drained (m_read_buffer c) [] b'"
    "frame_loop fuel (\<lambda>b. http_decode b new_HttpRequest) decode_succ (\<lambda>d. handle_data dispatch (Http_Data d))
       (m_read_buffer c) (s, c) =
     Some (bindE (handle_all (\<lambda>d. handle_data dispatch (Http_Data d)) (map rf_request fs) (s, c)) (\<lambda>s. Inr (b', s)))"
    by blast
  with assms(2) show ?thesis
    by (intro exI [of _ b'], cases "dispatch_all dispatch (map (\<lambda>f. Http_Data (rf_request f)) fs) s (m_write_buffer c)")
      (auto simp: conn_execute_def handle_all_server [OF assms(1)] comp_def)
qed

text \<open>
  A server connection whose read buffer holds complete packages dispatches every one of
  them, once and in the order they were sent, with the fields they were sent with, and has
  then consumed the whole buffer; one round more than there are packages is enough fuel.
\<close>

theorem conn_execute_dispatches_packages:
  assumes "m_connection_type c = ServerConnection" and "m_codec c = FlconcPb_Protocal"
    and "buffer_wf (m_read_buffer c)" and "\<forall>d \<in> set ds. pb_fits d"
    and "view (m_read_buffer c) = concat (map package ds)" and "length ds < fuel"
    and "dispatch_all dispatch (map (\<lambda>d. Pb_Data (received d new_FlconcPbStruct)) ds) s (m_write_buffer c)
         = Inr (s', out)"
  shows "\<exists>b'. view b' = [] \<and> buffer_wf b' \<and>
    conn_execute fuel dispatch (s, c) = Some (Inr (s', c\<lparr>m_read_buffer := b', m_write_buffer := out\<rparr>))"
  using execute_packages [OF assms(1-6), of dispatch s] assms(7) by (auto simp: drained_def)

definition count_dispatch :: "nat \<Rightarrow> app_data \<Rightarrow> tcp_buffer \<Rightarrow> (nat \<times> tcp_buffer) res" where
  "count_dispatch s d out = Inr (Suc s, out)"

lemma conn_execute_dispatches_packages_witness:
  "\<exists>b'. view b' = [] \<and> buffer_wf b' \<and>
    conn_execute 3 count_dispatch (0, example_conn ServerConnection FlconcPb_Protocal (package pb_example @ package pb_example) [])
    = Some (Inr (2, (example_conn ServerConnection FlconcPb_Protocal (package pb_example @ package pb_example) [])
        \<lparr>m_read_buffer := b', m_write_buffer := filled []\<rparr>))"
proof -
  let ?c = "example_conn ServerConnection FlconcPb_Protocal (package pb_example @ package pb_example) []"
  have "int (length (package pb_example @ package pb_example)) \<le> INT_MAX"
    by (simp add: length_package pb_example_fits INT_MAX_def)
  note f = filled_ok [OF this]
  show ?thesis
    by (rule conn_execute_dispatches_packages [where ds = "[pb_example, pb_example]"])
      (simp_all add: example_conn_def pb_example_fits f count_dispatch_def)
qed

text \<open>
  The same for a server connection that speaks HTTP: every complete request in the buffer
  is dispatched once, in order, with the fields of its text.
\<close>

theorem conn_execute_dispatches_requests:
  assumes "m_connection_type c = ServerConnection" and "m_codec c = Http_Protocal"
    and "buffer_wf (m_read_buffer c)" and "\<forall>f \<in> set fs. rf_ok f"
    and "view (m_read_buffer c) = concat (map rf_text fs)" and "length fs < fuel"
  shows "\<exists>b'. view b' = [] \<and> buffer_wf b' \<and>
    conn_execute fuel dispatch (s, c) =
      Some (bindE (dispatch_all dispatch (map (\<lambda>f. Http_Data (rf_request f)) fs) s (m_write_buffer c)) (\<lambda>(s, out).
            Inr (s, c\<lparr>m_read_buffer := b', m_write_buffer := out\<rparr>)))"
  using execute_requests [OF assms, of dispatch s] by (auto simp: drained_def)

definition example_request :: request_frame where
  "example_request = \<lparr>rf_method = ''post'', rf_url = ''/a'', rf_version = ''http/1.1'',
     rf_headers = [(''Host'', ''h''), (''Content-Length'', ''2'')], rf_body = ''hi''\<rparr>"

lemma conn_execute_dispatches_requests_witness:
  "\<exists>b'. view b' = [] \<and> buffer_wf b' \<and>
    conn_execute 2 count_dispatch (0, example_conn ServerConnection Http_Protocal (rf_text example_request) []) =
      Some (bindE (dispatch_all count_dispatch (map (\<lambda>f. Http_Data (rf_request f)) [example_request]) 0 (filled [])) (\<lambda>(s, out).
            Inr (s, (example_conn ServerConnection Http_Protocal (rf_text example_request) [])
              \<lparr>m_read_buffer := b', m_write_buffer := out\<rparr>)))"
proof -
  let ?c = "example_conn ServerConnection Http_Protocal (rf_text example_request) []"
  have l: "int (length (rf_text example_request)) \<le> INT_MAX" by code_simp
  have "rf_ok example_request" using post_example by (simp add: rf_ok_def example_request_def)
  then have c: "m_connection_type ?c = ServerConnection" "m_codec ?c = Http_Protocal"
    "buffer_wf (m_read_buffer ?c)" "\<forall>f \<in> set [example_request]. rf_ok f"
    "view (m_read_buffer ?c) = concat (map rf_text [example_request])" "length [example_request] < 2"
    by (simp_all add: example_conn_def filled_ok [OF l])
  have "m_write_buffer ?c = filled []" by (simp add: example_conn_def)
  with conn_execute_dispatches_requests [OF c, of count_dispatch 0] show ?thesis by simp
qed



lemma client_replies:
  assumes "m_connection_type c = ClientConnection" and "m_codec c = FlconcPb_Protocal"
    and "buffer_wf (m_read_buffer c)" and "\<forall>d \<in> set ds. pb_fits d"
    and "view (m_read_buffer c) = concat (map package ds)" and "length ds < fuel"
    and "m_reply_datas c = []"
  shows "\<exists>c'. conn_execute fuel dispatch (s, c) = Some (Inr (s, c')) \<and>
    view (m_read_buffer c') = [] \<and>
    fst (getResPackageData no c') =
      map_option (\<lambda>d. received d new_FlconcPbStruct) (find (\<lambda>d. msg_req d = no) ds) \<and>
    fst (getResPackageData no (snd (getResPackageData no c'))) = None"
proof -
  define es where es: "es = map (\<lambda>d. received d new_FlconcPbStruct) ds"
  from pb_codec.frame_loop_frames [OF assms(3-6), of "\<lambda>d. handle_data dispatch (Pb_Data d)" "(s, c)"]
  obtain b' where r: "drained (m_read_buffer c) [] b'"
    "frame_loop fuel (\<lambda>b. decode b new_FlconcPbStruct) decode_succ (\<lambda>d. handle_data dispatch (Pb_Data d))
       (m_read_buffer c) (s, c) =
     Some (bindE (handle_all (\<lambda>d. handle_data dispatch (Pb_Data d)) es (s, c)) (\<lambda>s. Inr (b', s)))"
    unfolding es by blast
  let ?m = "fold (\<lambda>d. map_insert (msg_req d) d) es []"
  have m: "map_wf ?m" "map_get ?m = map_of (map (\<lambda>d. (msg_req d, d)) es)"
    using fold_map_insert [of "[]" msg_req es] by (simp_all add: map_wf_Nil map_get_Nil)
  have f: "map_of (map (\<lambda>d. (msg_req d, d)) es) no
      = map_option (\<lambda>d. received d new_FlconcPbStruct) (find (\<lambda>d. msg_req d = no) ds)"
    unfolding es by (induction ds) (auto simp: received_def)
  let ?c = "c\<lparr>m_reply_datas := ?m, m_read_buffer := b'\<rparr>"
  have "conn_execute fuel dispatch (s, c) = Some (Inr (s, ?c))"
    using r(2) assms(2,7) by (simp add: conn_execute_def handle_all_client [OF assms(1)])
  moreover have "fst (getResPackageData no ?c) =
      map_option (\<lambda>d. received d new_FlconcPbStruct) (find (\<lambda>d. msg_req d = no) ds)"
    using m f by (simp add: getResPackageData_def split: option.split)
  moreover have "fst (getResPackageData no (snd (getResPackageData no ?c))) = None"
    by (simp add: getResPackageData_def map_get_erase split: option.split)
  ultimately show ?thesis using r(1) by (intro exI [of _ ?c]) (simp add: drained_def)
qed

text \<open>
  A client connection keeps the reply to each of its requests under the request's message
  number: after \<open>execute\<close> on complete packages, \<open>getResPackageData\<close> gives the first reply with
  the number it is asked for, exactly when one has come, and takes it out.
\<close>

theorem client_finds_its_reply:
  assumes "m_connection_type c = ClientConnection" and "m_codec c = FlconcPb_Protocal"
    and "buffer_wf (m_read_buffer c)" and "\<forall>d \<in> set ds. pb_fits d"
    and "view (m_read_buffer c) = concat (map package ds)" and "length ds < fuel"
    and "m_reply_datas c = []"
  shows "\<exists>c'. conn_execute fuel dispatch (s, c) = Some (Inr (s, c')) \<and>
    view (m_read_buffer c') = [] \<and>
    fst (getResPackageData no c') =
      map_option (\<lambda>d. received d new_FlconcPbStruct) (find (\<lambda>d. msg_req d = no) ds) \<and>
    fst (getResPackageData no (snd (getResPackageData no c'))) = None"
  using assms by (rule client_replies)

lemma client_finds_its_reply_witness:
  "\<exists>c'. conn_execute 2 count_dispatch (0, example_conn ClientConnection FlconcPb_Protocal (package pb_example) [])
      = Some (Inr (0, c')) \<and>
    fst (getResPackageData ''4217'' c') = Some (received pb_example new_FlconcPbStruct)"
proof -
  let ?c = "example_conn ClientConnection FlconcPb_Protocal (package pb_example) []"
  have l: "int (length (package pb_example)) \<le> INT_MAX"
    by (simp add: length_package pb_example_fits INT_MAX_def)
  have c: "m_connection_type ?c = ClientConnection" "m_codec ?c = FlconcPb_Protocal"
    "buffer_wf (m_read_buffer ?c)" "\<forall>d \<in> set [pb_example]. pb_fits d"
    "view (m_read_buffer ?c) = concat (map package [pb_example])" "length [pb_example] < 2"
    "m_reply_datas ?c = []"
    by (simp_all add: example_conn_def filled_ok [OF l] pb_example_fits)
  have "msg_req pb_example = ''4217''" by (simp add: pb_example_def)
  with client_finds_its_reply [OF c, of count_dispatch 0 "''4217''"] show ?thesis by auto
qed

text \<open>
  When what has arrived fills the free part of the read buffer exactly, \<open>input\<close> does not
  return to let it be executed: it takes a full read for a sign that there is more and waits in
  the next one, with a complete request or reply unanswered in its buffer until the peer sends
  something else.
\<close>

theorem conn_input_waits_after_full_read:
  assumes "buffer_wf (m_read_buffer c)" and "m_state c = Connected" and "\<not> m_is_over_time c"
    and "2 * m_write_index (m_read_buffer c) + 2 * int (length (sk_pending sk)) \<le> INT_MAX"
    and "sk_pending sk \<noteq> []" and "int (length (sk_pending sk)) = writeAble (m_read_buffer c)"
    and "sk_events sk = []"
  shows "returns (conn_input sk c) (\<lambda>(e, sk', c', acts). e = Waits \<and> acts = [] \<and>
    view (m_read_buffer c') = view (m_read_buffer c) @ sk_pending sk)"
proof -
  let ?b = "m_read_buffer c" and ?xs = "sk_pending sk" and ?sk = "sk\<lparr>sk_pending := []\<rparr>"
  have w: "writeAble ?b = int (length (m_buffer ?b)) - m_write_index ?b"
    using assms(1) by (auto simp: writeAble_def buffer_wf_def wrap32_nonneg)
  have ne: "writeAble ?b \<noteq> 0" using assms(5,6) by (cases ?xs) auto
  obtain b where b: "store_read ?b ?xs = Inr b" "buffer_wf b" "view b = view ?b @ ?xs"
    "m_write_index b \<le> m_write_index ?b + int (length ?xs)"
    using store_read_returns [OF assms(1), of ?xs] assms(6) w by (auto elim!: returnsE)
  let ?c = "c\<lparr>m_read_buffer := b\<rparr>"
  have 1: "input_round sk c = Inr (None, ?sk, ?c)"
    using assms(3,5,6) ne b(1) by (simp add: input_round_def make_room_def read_hook_def set_over_def Let_def)
  have "2 * m_write_index b \<le> INT_MAX" using b(4) assms(4) by simp
  from make_room_returns [OF b(2) this] obtain b2 where b2: "make_room b = Inr b2" "view b2 = view b"
    by (auto elim!: returnsE)
  have "input_round ?sk ?c = Inr (Some Waiting, ?sk, c\<lparr>m_read_buffer := b2\<rparr>)"
    using assms(7) b2(1) by (simp add: input_round_def read_hook_def Let_def)
  with 1 have "input_loop sk c = Inr (Waiting, ?sk, c\<lparr>m_read_buffer := b2\<rparr>)"
    by (subst input_loop.simps, simp, subst input_loop.simps, simp)
  with assms(2,3) b b2 show ?thesis by (simp add: conn_input_def)
qed

lemma conn_input_waits_after_full_read_witness:
  "returns (conn_input \<lparr>sk_pending = ''cde'', sk_events = []\<rparr>
      ((example_conn ServerConnection Http_Protocal [] [])
        \<lparr>m_read_buffer := \<lparr>m_read_index = 0, m_write_index = 2, m_buffer = ''abxyz''\<rparr>\<rparr>))
    (\<lambda>(e, sk', c', acts). e = Waits \<and> view (m_read_buffer c') = ''abcde'')"
proof -
  let ?c = "(example_conn ServerConnection Http_Protocal [] [])
        \<lparr>m_read_buffer := \<lparr>m_read_index = 0, m_write_index = 2, m_buffer = ''abxyz''\<rparr>\<rparr>"
  let ?sk = "\<lparr>sk_pending = ''cde'', sk_events = []\<rparr>"
  have "view (m_read_buffer ?c) = ''ab''" by (simp add: view_def readAble_def numeral_2_eq_2)
  moreover have "returns (conn_input ?sk ?c) (\<lambda>(e, sk', c', acts). e = Waits \<and> acts = [] \<and>
    view (m_read_buffer c') = view (m_read_buffer ?c) @ sk_pending ?sk)"
    by (rule conn_input_waits_after_full_read)
      (simp_all add: buffer_wf_def INT_MAX_def example_conn_def writeAble_def wrap32_nonneg)
  ultimately show ?thesis by (auto elim!: returns_mono)
qed

end
