(* ===== verification/Connection_Turn.thy ===== *)
theory Connection_Turn
  imports Tcp_Connection
begin

text \<open>
  Whole turns of a connection: what \<open>input\<close> makes of the bursts a peer sends, what \<open>output\<close> makes of a
  write that the kernel takes, and the turns of \<open>TcpConnection::MainServerLoopCorFunc\<close> for any
  protocol and any dispatcher that keep the contracts \<open>framed_protocol\<close> and \<open>answering_dispatcher\<close>.
\<close>

section \<open>Input from a peer that only sends\<close>

definition steady :: "socket \<Rightarrow> bool" where
  "steady sk \<longleftrightarrow> (\<forall>e \<in> set (sk_events sk). \<exists>x xs. e = (Arrive (x # xs), False))"

definition ready :: "socket \<Rightarrow> tcp_connection \<Rightarrow> bool" where
  "ready sk c \<longleftrightarrow> read_room sk c \<and> settled (m_read_buffer c) \<and> m_buffer (m_read_buffer c) \<noteq> [] \<and>
     steady sk \<and> \<not> m_is_over_time c"

text \<open>What \<open>input\<close> does to the socket and the connection: only the read buffer changes.\<close>

definition taken_in :: "socket \<Rightarrow> tcp_connection \<Rightarrow> socket \<Rightarrow> tcp_connection \<Rightarrow> bool" where
  "taken_in sk c sk' c' \<longleftrightarrow>
     c' = c\<lparr>m_read_buffer := m_read_buffer c'\<rparr> \<and> ready sk' c' \<and>
     (\<exists>n. sk_events sk' = drop n (sk_events sk)) \<and>
     length (m_buffer (m_read_buffer c)) \<le> length (m_buffer (m_read_buffer c')) \<and>
     view (m_read_buffer c') @ to_come sk' = view (m_read_buffer c) @ to_come sk \<and>
     m_write_index (m_read_buffer c') + int (length (to_come sk')) \<le>
       m_write_index (m_read_buffer c) + int (length (to_come sk))"

lemma taken_in_trans: "taken_in sk c sk1 c1 \<Longrightarrow> taken_in sk1 c1 sk2 c2 \<Longrightarrow> taken_in sk c sk2 c2"
  unfolding taken_in_def by (auto simp: drop_drop) (metis tcp_connection.surjective tcp_connection.update_convs(4))+

lemma make_room_settled:
  assumes "buffer_wf b" and "settled b" and "make_room b = Inr b'"
  shows "settled b'" and "length (m_buffer b) \<le> length (m_buffer b')"
  using assms
  by (auto simp: make_room_def settled_def resizeBuffer_def new_vector_def write_range_def bindE_eq_Inr Let_def
      getSize_def wrap32_nonneg buffer_wf_def chk_def split: if_splits)

lemma store_read_settled:
  assumes "int (length (m_buffer b)) \<le> INT_MAX" and "settled b" and "store_read b xs = Inr b'"
  shows "settled b'"
proof (cases "xs = []")
  case False
  with assms(3) obtain v where v: "write_range (m_buffer b) (m_write_index b) xs = Inr v"
    "recycleWrite (b\<lparr>m_buffer := v\<rparr>) (int (length xs)) = Inr b'"
    by (auto simp: store_read_def bindE_eq_Inr)
  then have "length v = length (m_buffer b)" by (auto simp: write_range_def split: if_splits)
  with recycleWrite_settled [OF _ v(2)] assms(1,2) show ?thesis by (simp add: settled_def)
qed (use assms in \<open>simp add: store_read_def\<close>)

lemma input_round_steady:
  assumes "ready sk c"
  shows "\<exists>e sk' c'. input_round sk c = Inr (e, sk', c') \<and> taken_in sk c sk' c' \<and>
    (case e of
       None \<Rightarrow> length (to_come sk') < length (to_come sk)
     | Some e \<Rightarrow> e = Read_All \<and> sk_pending sk' = [] \<and> length (to_come sk') < length (to_come sk) \<or>
                e = Waiting \<and> to_come sk' = [])"
proof -
  let ?b = "m_read_buffer c"
  have a: "buffer_wf ?b" "2 * (m_write_index ?b + int (length (to_come sk))) \<le> INT_MAX" "settled ?b"
    "m_buffer ?b \<noteq> []" "steady sk" "\<not> m_is_over_time c"
    using assms by (simp_all add: ready_def read_room_def)
  have "2 * m_write_index ?b \<le> INT_MAX" using a(2) by simp
  from make_room_returns [OF a(1) this] obtain b where b: "make_room ?b = Inr b" "buffer_wf b" "view b = view ?b"
    "m_write_index b \<le> m_write_index ?b" "writeAble b = int (length (m_buffer b)) - m_write_index b"
    "m_buffer b \<noteq> []" "0 < writeAble b"
    using a(4) by (auto elim!: returnsE)
  note s = make_room_settled [OF a(1,3) b(1)]
  show ?thesis
  proof (cases "read_hook sk (writeAble b)")
    case Would_Wait
    then have "to_come sk = []"
      by (auto simp: read_hook_def to_come_def split: if_splits list.splits sock_event.splits)
    then show ?thesis
      using Would_Wait b s a
      by (auto simp: input_round_def taken_in_def ready_def read_room_def Let_def intro!: exI [of _ 0])
  next
    case (Failed sk' over)
    then show ?thesis using a(5)
      by (auto simp: read_hook_def steady_def split: if_splits list.splits sock_event.splits)
  next
    case (Got xs sk' over)
    note g = read_hook_Got [OF this]
    have xs: "xs \<noteq> []" using g(5) b(7) a(5) by (fastforce simp: steady_def)
    have "sk_events sk' = drop 0 (sk_events sk) \<or> sk_events sk' = drop 1 (sk_events sk)"
      and over: "over = None \<or> over = Some False"
      using Got a(5) by (auto simp: read_hook_def steady_def split: if_splits list.splits sock_event.splits)
    then have ev: "\<exists>n. sk_events sk' = drop n (sk_events sk)" by blast
    have l: "int (length xs) \<le> int (length (m_buffer b)) - m_write_index b" using g(2) b(5,7) by simp
    from store_read_returns [OF b(2) l] obtain b' where b': "store_read b xs = Inr b'" "buffer_wf b'"
      "view b' = view b @ xs" "m_write_index b' \<le> m_write_index b + int (length xs)"
      "length (m_buffer b') = length (m_buffer b)"
      by (auto elim!: returnsE)
    have s': "settled b'"
      by (rule store_read_settled [OF _ s(1) b'(1)]) (use b(2) in \<open>simp add: buffer_wf_def\<close>)
    let ?c = "c\<lparr>m_read_buffer := b'\<rparr>"
    have "set_over over ?c = ?c" using over a(6) by (cases c) (auto simp: set_over_def)
    then have r: "input_round sk c =
        Inr (if int (length xs) = writeAble b then None else Some Read_All, sk', ?c)"
      using b(1) b'(1) Got a(6) xs by (simp add: input_round_def Let_def)
    have "steady sk'" using a(5) g(4) by (auto simp: steady_def)
    then have "taken_in sk c sk' ?c"
      using a b b' s s' ev g(1) by (auto simp: taken_in_def ready_def read_room_def)
    moreover have "length (to_come sk') < length (to_come sk)" using g(1) xs by simp
    moreover have "int (length xs) \<noteq> writeAble b \<Longrightarrow> sk_pending sk' = []" using g(2,3) b(7) by auto
    ultimately show ?thesis unfolding r by auto
  qed
qed

lemma input_loop_steady:
  assumes "ready sk c"
  shows "\<exists>e sk' c'. input_loop sk c = Inr (e, sk', c') \<and> taken_in sk c sk' c' \<and>
    (e = Read_All \<and> sk_pending sk' = [] \<and> length (to_come sk') < length (to_come sk) \<or>
     e = Waiting \<and> to_come sk' = [])"
  using assms
proof (induction sk c rule: input_loop.induct)
  case (1 sk c)
  from input_round_steady [OF 1(2)] obtain e sk1 c1 where r: "input_round sk c = Inr (e, sk1, c1)" "taken_in sk c sk1 c1"
    "case e of
       None \<Rightarrow> length (to_come sk1) < length (to_come sk)
     | Some e \<Rightarrow> e = Read_All \<and> sk_pending sk1 = [] \<and> length (to_come sk1) < length (to_come sk) \<or>
                e = Waiting \<and> to_come sk1 = []" by blast
  show ?case
  proof (cases e)
    case (Some e')
    with r show ?thesis by (subst input_loop.simps) auto
  next
    case None
    from r(2) have "ready sk1 c1" by (simp add: taken_in_def)
    from 1(1) [OF r(1) refl refl None this] obtain e2 sk2 c2 where
      "input_loop sk1 c1 = Inr (e2, sk2, c2)" "taken_in sk1 c1 sk2 c2"
      "e2 = Read_All \<and> sk_pending sk2 = [] \<and> length (to_come sk2) < length (to_come sk1) \<or>
       e2 = Waiting \<and> to_come sk2 = []" by blast
    with r None taken_in_trans [OF r(2)] show ?thesis by (subst input_loop.simps) auto
  qed
qed

text \<open>
  \<open>input\<close> returns with everything that had arrived, or waits with everything that has arrived in
  its buffer, after a read that filled it.
\<close>

lemma conn_input_steady:
  assumes "ready sk c" and "m_state c = Connected"
  shows "\<exists>e sk' c' acts. conn_input sk c = Inr (e, sk', c', acts) \<and> taken_in sk c sk' c' \<and>
    (e = Returns \<and> sk_pending sk' = [] \<and> length (to_come sk') < length (to_come sk) \<or>
     e = Waits \<and> to_come sk' = [] \<and> acts = [])"
proof -
  from input_loop_steady [OF assms(1)] obtain e sk1 c1 where r: "input_loop sk c = Inr (e, sk1, c1)"
    "taken_in sk c sk1 c1"
    "e = Read_All \<and> sk_pending sk1 = [] \<and> length (to_come sk1) < length (to_come sk) \<or> e = Waiting \<and> to_come sk1 = []"
    by blast
  moreover have "\<not> m_is_over_time c" using assms(1) by (simp add: ready_def)
  ultimately show ?thesis using assms(2) by (auto simp: conn_input_def)
qed

section \<open>Bytes that fill the read buffer exactly\<close>

text \<open>
  A buffer nothing has been consumed of. The vector doubles as long as bytes come in; \<open>fills\<close> says that
  \<open>n\<close> bytes end exactly where the vector ends. A total that fits an \<open>int\<close> needs fewer than 32 doublings.
\<close>

definition at_front :: "tcp_buffer \<Rightarrow> bool" where
  "at_front b \<longleftrightarrow> buffer_wf b \<and> m_read_index b = 0 \<and> m_buffer b \<noteq> []"

definition fills :: "nat \<Rightarrow> nat \<Rightarrow> bool" where
  "fills sz n \<longleftrightarrow> (\<exists>j < 32. n = sz * 2 ^ j)"

lemma fills_iff:
  assumes "0 < sz" and "2 * int n \<le> INT_MAX"
  shows "fills sz n \<longleftrightarrow> (\<exists>j. n = sz * 2 ^ j)"
proof -
  have "j < 32" if "n = sz * 2 ^ j" for j
  proof (rule ccontr)
    assume "\<not> j < 32"
    then have "2 ^ 32 \<le> (2 :: nat) ^ j" by (intro power_increasing) simp_all
    also have "\<dots> \<le> n" using assms(1) that by simp
    finally show False using assms(2) by (simp add: INT_MAX_def)
  qed
  then show ?thesis by (auto simp: fills_def)
qed

lemma at_front_view: "at_front b \<Longrightarrow> int (length (view b)) = m_write_index b"
  using length_view [of b] by (simp add: at_front_def readAble_def)

lemma at_frontI:
  assumes "buffer_wf b" and "m_write_index b \<le> int (length (view b))" and "m_buffer b \<noteq> []"
  shows "at_front b"
  using assms length_view [OF assms(1)] by (auto simp: at_front_def readAble_def buffer_wf_def)

text \<open>One read into such a buffer: \<open>L\<close> is the size of the vector, doubled when it was full.\<close>

lemma front_round:
  assumes b: "at_front (m_read_buffer c)" and "n = length (view (m_read_buffer c))"
    and L: "L = (if n = length (m_buffer (m_read_buffer c)) then 2 * n else length (m_buffer (m_read_buffer c)))"
    and room: "2 * int (n + length (sk_pending sk)) \<le> INT_MAX"
    and c: "\<not> m_is_over_time c" and p: "sk_pending sk \<noteq> []"
  shows "\<exists>b. input_round sk c =
      Inr (if L - n \<le> length (sk_pending sk) then None else Some Read_All,
           sk\<lparr>sk_pending := drop (L - n) (sk_pending sk)\<rparr>, c\<lparr>m_read_buffer := b\<rparr>) \<and>
    at_front b \<and> view b = view (m_read_buffer c) @ take (L - n) (sk_pending sk) \<and> length (m_buffer b) = L \<and> n < L"
proof -
  let ?b = "m_read_buffer c" and ?xs = "sk_pending sk"
  have w: "m_write_index ?b = int n" "buffer_wf ?b" "m_read_index ?b = 0" "m_buffer ?b \<noteq> []"
    using at_front_view [OF b] b assms(2) by (simp_all add: at_front_def)
  have wa: "writeAble ?b = int (length (m_buffer ?b)) - int n" "n \<le> length (m_buffer ?b)"
    "readAble ?b = int n" "int (length (m_buffer ?b)) \<le> INT_MAX"
    using w by (auto simp: writeAble_def buffer_wf_def wrap32_nonneg readAble_def)
  have "\<exists>b. make_room ?b = Inr b \<and> at_front b \<and> view b = view ?b \<and> length (m_buffer b) = L"
  proof (cases "n = length (m_buffer ?b)")
    case True
    have f: "getSize ?b = int n" "fits_int (2 * int n)"
      using True wa(4) room by (auto simp: getSize_def wrap32_nonneg intro!: fits_int_nonneg)
    have "returns (resizeBuffer ?b (2 * int n)) (\<lambda>b'. buffer_wf b' \<and> view b' = view ?b \<and>
        m_write_index b' = readAble ?b \<and> int (length (m_buffer b')) = 2 * int n)"
      using wa(3) room by (intro returns_resizeBuffer [OF w(2)]) auto
    then obtain b' where b': "resizeBuffer ?b (2 * int n) = Inr b'" "buffer_wf b'" "view b' = view ?b"
      "m_write_index b' = int n" "length (m_buffer b') = 2 * n" using wa(3) by (auto elim!: returnsE)
    have "m_buffer b' \<noteq> []" using b'(5) True w(4) by (cases "m_buffer b'") auto
    with b' have "at_front b'" by (intro at_frontI) (simp_all add: assms(2))
    with b' f True wa(1) show ?thesis by (simp add: make_room_def L)
  next
    case False
    with wa(1) b show ?thesis by (simp add: make_room_def L)
  qed
  then obtain b where b1: "make_room ?b = Inr b" "at_front b" "view b = view ?b" "length (m_buffer b) = L" by blast
  have nL: "n < L" using wa(2) w(4) by (auto simp: L)
  have b2: "buffer_wf b" "m_write_index b = int n" "writeAble b = int (L - n)"
    using at_front_view [OF b1(2)] b1 nL assms(2)
    by (auto simp: at_front_def writeAble_def buffer_wf_def wrap32_nonneg of_nat_diff)
  let ?ys = "take (L - n) ?xs"
  have "int (length ?ys) \<le> int (length (m_buffer b)) - m_write_index b" using b1(4) b2(2) nL by simp
  from store_read_returns [OF b2(1) this] obtain b' where b': "store_read b ?ys = Inr b'" "buffer_wf b'"
    "view b' = view ?b @ ?ys" "m_write_index b' \<le> int n + int (length ?ys)" "length (m_buffer b') = L"
    using b1(3,4) b2(2) by (auto elim!: returnsE)
  have "at_front b'" using b' nL by (intro at_frontI) (auto simp: assms(2))
  moreover have "input_round sk c =
      Inr (if L - n \<le> length ?xs then None else Some Read_All, sk\<lparr>sk_pending := drop (L - n) ?xs\<rparr>, c\<lparr>m_read_buffer := b'\<rparr>)"
    using b1(1) b'(1) c p nL by (auto simp: input_round_def read_hook_def b2(3) set_over_def Let_def)
  ultimately show ?thesis using b'(3,5) nL by blast
qed

lemma waiting_round:
  assumes "buffer_wf (m_read_buffer c)" and "2 * m_write_index (m_read_buffer c) \<le> INT_MAX"
    and "sk_pending sk = []" and "sk_events sk = []"
  shows "\<exists>b. input_loop sk c = Inr (Waiting, sk, c\<lparr>m_read_buffer := b\<rparr>) \<and> buffer_wf b \<and>
    view b = view (m_read_buffer c)"
proof -
  from make_room_returns [OF assms(1,2)] obtain b where "make_room (m_read_buffer c) = Inr b" "buffer_wf b"
    "view b = view (m_read_buffer c)" by (auto elim!: returnsE)
  with assms(3,4) show ?thesis
    by (intro exI [of _ b], subst input_loop.simps) (simp add: input_round_def read_hook_def Let_def)
qed

lemma doubled_or_not:
  fixes sz L n total :: nat
  assumes "L = (if n = sz then 2 * n else sz)" and "n \<le> sz" and "n < total"
  shows "(\<exists>j. total = sz * 2 ^ j) \<longleftrightarrow> (\<exists>j. total = L * 2 ^ j)"
proof (cases "n = sz")
  case True
  have "(\<exists>j. total = sz * 2 ^ j) \<longleftrightarrow> (\<exists>j. total = sz * 2 ^ Suc j)"
    using assms(3) True by (metis not0_implies_Suc order_less_irrefl mult_1_right power_0)
  with True assms(1) show ?thesis by (simp add: mult.assoc mult.left_commute)
qed (use assms in simp)

lemma front_loop:
  assumes "at_front (m_read_buffer c)" and "n = length (view (m_read_buffer c))"
    and "2 * int (n + length (sk_pending sk)) \<le> INT_MAX" and "\<not> m_is_over_time c" and "sk_pending sk \<noteq> []"
    and "full \<longleftrightarrow> (\<exists>j. n + length (sk_pending sk) = length (m_buffer (m_read_buffer c)) * 2 ^ j)"
    and "full \<Longrightarrow> sk_events sk = []"
  shows "\<exists>b. input_loop sk c =
      Inr (if full then Waiting else Read_All, sk\<lparr>sk_pending := []\<rparr>, c\<lparr>m_read_buffer := b\<rparr>) \<and> buffer_wf b \<and>
    view b = view (m_read_buffer c) @ sk_pending sk"
  using assms
proof (induction "length (sk_pending sk)" arbitrary: n sk c rule: less_induct)
  case less
  let ?xs = "sk_pending sk" and ?sz = "length (m_buffer (m_read_buffer c))"
  define L where L: "L = (if n = ?sz then 2 * n else ?sz)"
  from front_round [OF less.prems(1,2) L less.prems(3-5)] obtain b where
    r: "input_round sk c = Inr (if L - n \<le> length ?xs then None else Some Read_All,
         sk\<lparr>sk_pending := drop (L - n) ?xs\<rparr>, c\<lparr>m_read_buffer := b\<rparr>)"
    and b: "at_front b" "view b = view (m_read_buffer c) @ take (L - n) ?xs" "length (m_buffer b) = L" "n < L" by blast
  have "n \<le> ?sz"
    using at_front_view [OF less.prems(1)] less.prems(1,2) by (auto simp: at_front_def buffer_wf_def)
  moreover have "0 < length ?xs" using less.prems(5) by simp
  ultimately have full: "full \<longleftrightarrow> (\<exists>j. n + length ?xs = L * 2 ^ j)"
    using doubled_or_not [OF L, of "n + length ?xs"] less.prems(6) by simp
  let ?sk = "sk\<lparr>sk_pending := drop (L - n) ?xs\<rparr>" and ?c = "c\<lparr>m_read_buffer := b\<rparr>"
  consider "length ?xs < L - n" | "length ?xs = L - n" | "L - n < length ?xs" by linarith
  then show ?case
  proof cases
    case 1
    have "n + length ?xs \<noteq> L * 2 ^ j" for j
    proof -
      have "L \<le> L * 2 ^ j" by simp
      with 1 show ?thesis by linarith
    qed
    then have "\<not> full" using full by simp
    with 1 r b show ?thesis by (intro exI [of _ b], subst input_loop.simps) (simp add: at_front_def)
  next
    case 2
    then have "full" using full b(4) by (auto intro: exI [of _ 0])
    moreover have "2 * m_write_index b \<le> INT_MAX"
      using at_front_view [OF b(1)] less.prems(2,3) 2 by (simp add: b(2))
    ultimately obtain b2 where "input_loop ?sk ?c = Inr (Waiting, ?sk, ?c\<lparr>m_read_buffer := b2\<rparr>)" "buffer_wf b2"
      "view b2 = view b"
      using waiting_round [of ?c ?sk] b(1) less.prems(7) 2 by (auto simp: at_front_def)
    with 2 r b(2) \<open>full\<close> show ?thesis by (intro exI [of _ b2], subst input_loop.simps) simp
  next
    case 3
    have l: "length (view b) = L" using b(2,4) less.prems(2) 3 by simp
    have "\<exists>b2. input_loop ?sk ?c =
        Inr (if full then Waiting else Read_All, ?sk\<lparr>sk_pending := []\<rparr>, ?c\<lparr>m_read_buffer := b2\<rparr>) \<and> buffer_wf b2 \<and>
      view b2 = view (m_read_buffer ?c) @ sk_pending ?sk"
    proof (rule less.hyps [of ?sk ?c L])
      have t: "L + length (sk_pending ?sk) = n + length ?xs" using 3 b(4) by simp
      show "length (sk_pending ?sk) < length ?xs" using 3 b(4) by simp
      show "2 * int (L + length (sk_pending ?sk)) \<le> INT_MAX" unfolding t by (rule less.prems(3))
      show "full \<longleftrightarrow> (\<exists>j. L + length (sk_pending ?sk) = length (m_buffer (m_read_buffer ?c)) * 2 ^ j)"
        unfolding t using full b(3) by simp
    qed (use less.prems(4,7) b(1) 3 l in simp_all)
    then obtain b2 where "input_loop ?sk ?c =
        Inr (if full then Waiting else Read_All, sk\<lparr>sk_pending := []\<rparr>, c\<lparr>m_read_buffer := b2\<rparr>)" "buffer_wf b2"
      "view b2 = view (m_read_buffer c) @ ?xs" using b(2) by auto
    with 3 r show ?thesis by (intro exI [of _ b2], subst input_loop.simps) simp
  qed
qed

text \<open>
  When what has arrived leaves room in the read buffer, \<open>input\<close> returns after one read, with
  all of it in the buffer.
\<close>

lemma conn_input_one_read:
  assumes "buffer_wf (m_read_buffer c)" and "m_state c = Connected" and "\<not> m_is_over_time c"
    and "sk_pending sk \<noteq> []" and "int (length (sk_pending sk)) < writeAble (m_read_buffer c)"
  shows "\<exists>b acts. conn_input sk c = Inr (Returns, sk\<lparr>sk_pending := []\<rparr>, c\<lparr>m_read_buffer := b\<rparr>, acts) \<and>
    buffer_wf b \<and> view b = view (m_read_buffer c) @ sk_pending sk"
proof -
  let ?b = "m_read_buffer c" and ?xs = "sk_pending sk"
  have w: "writeAble ?b = int (length (m_buffer ?b)) - m_write_index ?b"
    using assms(1) by (auto simp: writeAble_def buffer_wf_def wrap32_nonneg)
  have ne: "writeAble ?b \<noteq> 0" using assms(4,5) by (cases ?xs) auto
  obtain b where b: "store_read ?b ?xs = Inr b" "buffer_wf b" "view b = view ?b @ ?xs"
    using store_read_returns [OF assms(1), of ?xs] assms(5) w by (auto elim!: returnsE)
  have "input_round sk c = Inr (Some Read_All, sk\<lparr>sk_pending := []\<rparr>, c\<lparr>m_read_buffer := b\<rparr>)"
    using assms(3-5) ne b(1) by (simp add: input_round_def make_room_def read_hook_def set_over_def Let_def)
  then have "input_loop sk c = Inr (Read_All, sk\<lparr>sk_pending := []\<rparr>, c\<lparr>m_read_buffer := b\<rparr>)"
    by (subst input_loop.simps) simp
  with assms(2,3) b show ?thesis by (intro exI [of _ b]) (simp add: conn_input_def)
qed

text \<open>What one call of \<open>input\<close> takes without waiting for more.\<close>

definition takes_all :: "tcp_buffer \<Rightarrow> nat \<Rightarrow> bool" where
  "takes_all b n \<longleftrightarrow> int n < writeAble b \<or>
     at_front b \<and> 2 * int (length (view b) + n) \<le> INT_MAX \<and> \<not> fills (length (m_buffer b)) (length (view b) + n)"

text \<open>What the read buffer of a new connection takes without filling up.\<close>

definition read_at_once :: "nat \<Rightarrow> bool" where
  "read_at_once n \<longleftrightarrow> 2 * int n \<le> INT_MAX \<and> \<not> fills 128 n"

lemma read_at_onceI: "n < 128 \<Longrightarrow> read_at_once n"
proof -
  assume n: "n < 128"
  have "n \<noteq> 128 * 2 ^ j" for j
  proof -
    have "(128 :: nat) \<le> 128 * 2 ^ j" by simp
    with n show ?thesis by linarith
  qed
  with n show ?thesis by (auto simp: read_at_once_def fills_def INT_MAX_def)
qed

lemma read_at_once_takes_all:
  "read_at_once n \<Longrightarrow> at_front b \<Longrightarrow> view b = [] \<Longrightarrow> length (m_buffer b) = 128 \<Longrightarrow> takes_all b n"
  by (simp add: read_at_once_def takes_all_def)

lemma conn_input_takes_all:
  assumes "buffer_wf (m_read_buffer c)" and "m_state c = Connected" and "\<not> m_is_over_time c"
    and "sk_pending sk \<noteq> []" and "takes_all (m_read_buffer c) (length (sk_pending sk))"
  shows "\<exists>b acts. conn_input sk c = Inr (Returns, sk\<lparr>sk_pending := []\<rparr>, c\<lparr>m_read_buffer := b\<rparr>, acts) \<and>
    buffer_wf b \<and> view b = view (m_read_buffer c) @ sk_pending sk"
proof (cases "int (length (sk_pending sk)) < writeAble (m_read_buffer c)")
  case True
  with conn_input_one_read [OF assms(1-4)] show ?thesis .
next
  case False
  let ?b = "m_read_buffer c" and ?n = "length (view (m_read_buffer c)) + length (sk_pending sk)"
  from False assms(5) have f: "at_front ?b" "2 * int ?n \<le> INT_MAX" "\<not> fills (length (m_buffer ?b)) ?n"
    by (simp_all add: takes_all_def)
  then have "\<not> (\<exists>j. ?n = length (m_buffer ?b) * 2 ^ j)" by (simp add: fills_iff at_front_def)
  with front_loop [OF f(1) refl f(2) assms(3,4), of False] obtain b where
    "input_loop sk c = Inr (Read_All, sk\<lparr>sk_pending := []\<rparr>, c\<lparr>m_read_buffer := b\<rparr>)" "buffer_wf b"
    "view b = view ?b @ sk_pending sk" by auto
  with assms(2,3) show ?thesis by (intro exI [of _ b]) (simp add: conn_input_def)
qed

text \<open>What fills the vector exactly leaves \<open>input\<close> waiting, with all of it in the buffer.\<close>

lemma conn_input_fills:
  assumes "at_front (m_read_buffer c)" and "m_state c = Connected" and "\<not> m_is_over_time c"
    and "sk_pending sk \<noteq> []" and "sk_events sk = []"
    and "2 * int (length (view (m_read_buffer c)) + length (sk_pending sk)) \<le> INT_MAX"
    and "fills (length (m_buffer (m_read_buffer c))) (length (view (m_read_buffer c)) + length (sk_pending sk))"
  shows "\<exists>b. conn_input sk c = Inr (Waits, sk\<lparr>sk_pending := []\<rparr>, c\<lparr>m_read_buffer := b\<rparr>, []) \<and>
    buffer_wf b \<and> view b = view (m_read_buffer c) @ sk_pending sk"
proof -
  let ?b = "m_read_buffer c"
  have "\<exists>j. length (view ?b) + length (sk_pending sk) = length (m_buffer ?b) * 2 ^ j"
    using assms(7) by (auto simp: fills_def)
  with front_loop [OF assms(1) refl assms(6,3,4), of True] assms(5) obtain b where
    "input_loop sk c = Inr (Waiting, sk\<lparr>sk_pending := []\<rparr>, c\<lparr>m_read_buffer := b\<rparr>)" "buffer_wf b"
    "view b = view ?b @ sk_pending sk" by auto
  with assms(2,3) show ?thesis by (intro exI [of _ b]) (simp add: conn_input_def)
qed

section \<open>A write that the kernel takes as a whole\<close>

lemma conn_output_one_write:
  assumes "buffer_wf (m_write_buffer c)" and "m_state c = Connected" and "\<not> m_is_over_time c"
    and "length (view (m_write_buffer c)) \<le> k"
  shows "\<exists>b. conn_output [(Takes k, False)] c = Inr (view (m_write_buffer c), Returns, c\<lparr>m_write_buffer := b\<rparr>) \<and>
    drained (m_write_buffer c) [] b"
proof -
  let ?b = "m_write_buffer c"
  have l: "int (length (view ?b)) = readAble ?b" using length_view [OF assms(1)] by simp
  show ?thesis
  proof (cases "view ?b = []")
    case True
    with l assms(1-3) show ?thesis
      by (intro exI [of _ ?b]) (simp add: conn_output_def output_loop.simps drained_refl)
  next
    case False
    then have r: "0 < readAble ?b" using l by (cases "view ?b") auto
    have rr: "read_range (m_buffer ?b) (m_read_index ?b) (readAble ?b) = Inr (view ?b)"
      using assms(1) by (auto simp: read_range_def buffer_wf_def readAble_def view_def)
    obtain b where b: "recycleRead ?b (int (length (view ?b))) = Inr b" "drained ?b [] b"
      using returns_recycleRead [OF assms(1), of "int (length (view ?b))"] l by (auto simp: drained_def elim!: returnsE)
    then have b0: "readAble b = 0" using length_view [of b] by (simp add: drained_def)
    have "output_round (Takes k, False) c = Inr (view ?b, True, c\<lparr>m_write_buffer := b, m_is_over_time := False\<rparr>)"
      using rr b(1) b0 assms(4) by (simp add: output_round_def Let_def min_def)
    then show ?thesis
      using assms(2,3) r b(2) by (intro exI [of _ b]) (simp add: conn_output_def output_loop.simps)
  qed
qed

section \<open>Requests and answers\<close>

text \<open>The texts of the answers to messages in a row, and whether each of them is answered at all.\<close>

fun replies :: "('a \<Rightarrow> 'f \<Rightarrow> char list \<times> 'a) \<Rightarrow> 'f list \<Rightarrow> 'a \<Rightarrow> char list \<times> 'a" where
  "replies reply [] a = ([], a)"
| "replies reply (f # fs) a =
     (case reply a f of (t, a) \<Rightarrow> case replies reply fs a of (ts, a) \<Rightarrow> (t @ ts, a))"

fun all_served :: "('a \<Rightarrow> 'f \<Rightarrow> bool) \<Rightarrow> ('a \<Rightarrow> 'f \<Rightarrow> char list \<times> 'a) \<Rightarrow> 'f list \<Rightarrow> 'a \<Rightarrow> bool" where
  "all_served served reply [] a = True"
| "all_served served reply (f # fs) a \<longleftrightarrow> served a f \<and> all_served served reply fs (snd (reply a f))"

lemma replies_append:
  "replies reply (fs @ gs) a =
     (case replies reply fs a of (t, a) \<Rightarrow> case replies reply gs a of (u, a) \<Rightarrow> (t @ u, a))"
  by (induction fs arbitrary: a) (simp_all split: prod.split)

lemma all_served_append:
  "all_served served reply (fs @ gs) a \<longleftrightarrow>
     all_served served reply fs a \<and> all_served served reply gs (snd (replies reply fs a))"
  by (induction fs arbitrary: a) (simp_all split: prod.split)

text \<open>
  A protocol of a server connection: \<open>f\<close> is a message as its sender means it, \<open>wire f\<close> its bytes and
  \<open>app f\<close> what the dispatcher gets; \<open>execute\<close> takes complete messages out of the read buffer.
\<close>

locale framed_protocol =
  fixes codec :: protocal_type
    and ok :: "'f \<Rightarrow> bool"
    and wire :: "'f \<Rightarrow> char list"
    and app :: "'f \<Rightarrow> app_data"
    and dispatch :: "'s \<Rightarrow> app_data \<Rightarrow> tcp_buffer \<Rightarrow> ('s \<times> tcp_buffer) res"
  assumes execute_frames: "m_connection_type c = ServerConnection \<Longrightarrow> m_codec c = codec \<Longrightarrow>
      buffer_wf (m_read_buffer c) \<Longrightarrow> \<forall>f \<in> set fs. ok f \<Longrightarrow> view (m_read_buffer c) = concat (map wire fs) \<Longrightarrow>
      length fs < fuel \<Longrightarrow>
      \<exists>b'. drained (m_read_buffer c) [] b' \<and> conn_execute fuel dispatch (s, c) =
        Some (bindE (dispatch_all dispatch (map app fs) s (m_write_buffer c))
          (\<lambda>(s, out). Inr (s, c\<lparr>m_read_buffer := b', m_write_buffer := out\<rparr>)))"
    and wire_nonempty: "ok f \<Longrightarrow> wire f \<noteq> []"

text \<open>
  A dispatcher that answers: \<open>abs s\<close> is what the answers depend on, \<open>reply a f\<close> the text of the answer
  and what it leaves, for the messages that are \<open>served\<close>.
\<close>

locale answering_dispatcher =
  fixes app :: "'f \<Rightarrow> app_data"
    and dispatch :: "'s \<Rightarrow> app_data \<Rightarrow> tcp_buffer \<Rightarrow> ('s \<times> tcp_buffer) res"
    and abs :: "'s \<Rightarrow> 'a"
    and served :: "'a \<Rightarrow> 'f \<Rightarrow> bool"
    and reply :: "'a \<Rightarrow> 'f \<Rightarrow> char list \<times> 'a"
  assumes dispatch_reply: "served (abs s) f \<Longrightarrow> reply (abs s) f = (t, a) \<Longrightarrow> buffer_wf out \<Longrightarrow>
      m_write_index out + int (length t) \<le> WRITE_LIMIT \<Longrightarrow>
      \<exists>s' out'. dispatch s (app f) out = Inr (s', out') \<and> abs s' = a \<and> buffer_wf out' \<and>
        view out' = view out @ t \<and> m_write_index out' \<le> m_write_index out + int (length t)"
begin

lemma dispatch_all_replies:
  assumes "all_served served reply fs (abs s)" and "replies reply fs (abs s) = (t, a)" and "buffer_wf out"
    and "m_write_index out + int (length t) \<le> WRITE_LIMIT"
  shows "\<exists>s' out'. dispatch_all dispatch (map app fs) s out = Inr (s', out') \<and> abs s' = a \<and> buffer_wf out' \<and>
    view out' = view out @ t \<and> m_write_index out' \<le> m_write_index out + int (length t)"
  using assms
proof (induction fs arbitrary: s out t)
  case (Cons f fs)
  obtain t1 a1 where r: "reply (abs s) f = (t1, a1)" by (cases "reply (abs s) f")
  obtain t2 where t: "replies reply fs a1 = (t2, a)" "t = t1 @ t2"
    using Cons.prems(2) r by (auto split: prod.splits)
  from Cons.prems r t(2) dispatch_reply [OF _ r, of out] obtain s1 out1 where
    1: "dispatch s (app f) out = Inr (s1, out1)" "abs s1 = a1" "buffer_wf out1" "view out1 = view out @ t1"
    "m_write_index out1 \<le> m_write_index out + int (length t1)" by auto
  from Cons.IH [of s1 t2 out1] Cons.prems(1,4) 1 r t obtain s' out' where
    "dispatch_all dispatch (map app fs) s1 out1 = Inr (s', out')" "abs s' = a" "buffer_wf out'"
    "view out' = view out1 @ t2" "m_write_index out' \<le> m_write_index out1 + int (length t2)" by auto
  with 1 t(2) show ?case by simp
qed simp

end

section \<open>Turns of a server's connection\<close>

text \<open>The bursts of messages a peer sends, each at once, while the connection waits for input.\<close>

definition burst_socket :: "('f \<Rightarrow> char list) \<Rightarrow> 'f list list \<Rightarrow> socket" where
  "burst_socket wire fss =
     \<lparr>sk_pending = [], sk_events = map (\<lambda>fs. (Arrive (concat (map wire fs)), False)) fss\<rparr>"

lemma to_come_burst_socket: "to_come (burst_socket wire fss) = concat (map wire (concat fss))"
  by (induction fss) (simp_all add: burst_socket_def to_come_def)

lemma burst_socket_drop:
  assumes "sk_pending sk = []" and "sk_events sk = drop n (sk_events (burst_socket wire fss))"
  shows "sk = burst_socket wire (drop n fss)"
  using assms by (cases sk) (simp add: burst_socket_def drop_map)

text \<open>A connection between two turns.\<close>

definition idle :: "protocal_type \<Rightarrow> tcp_connection \<Rightarrow> bool" where
  "idle codec c \<longleftrightarrow>
     m_connection_type c = ServerConnection \<and> m_codec c = codec \<and> m_state c = Connected \<and>
     \<not> m_is_over_time c \<and> \<not> m_stop c \<and>
     buffer_wf (m_read_buffer c) \<and> settled (m_read_buffer c) \<and> m_buffer (m_read_buffer c) \<noteq> [] \<and>
     view (m_read_buffer c) = [] \<and> buffer_wf (m_write_buffer c) \<and> view (m_write_buffer c) = []"

text \<open>A burst of less than two thirds of the read buffer leaves room in it, whatever came before.\<close>

definition small_burst :: "nat \<Rightarrow> char list \<Rightarrow> bool" where
  "small_burst sz bs \<longleftrightarrow> 3 * length bs < 2 * sz"

lemma small_burst_128: "small_burst 128 bs \<longleftrightarrow> length bs \<le> 85"
  by (auto simp: small_burst_def)

lemma idle_takes_small_burst:
  assumes "idle codec c" and "sk = \<lparr>sk_pending = [], sk_events = (Arrive xs, False) # evs\<rparr>" and "xs \<noteq> []"
    and "small_burst (length (m_buffer (m_read_buffer c))) xs"
  shows "\<exists>sk' c' acts. conn_input sk c = Inr (Returns, sk', c', acts)"
proof -
  let ?b = "m_read_buffer c"
  have a: "buffer_wf ?b" "settled ?b" "view ?b = []" "\<not> m_is_over_time c" "m_state c = Connected"
    using assms(1) by (simp_all add: idle_def)
  have "m_write_index ?b = m_read_index ?b" using length_view [OF a(1)] a(3) by (simp add: readAble_def)
  then have w: "writeAble ?b = int (length (m_buffer ?b)) - m_read_index ?b"
    using a(1) by (auto simp: writeAble_def buffer_wf_def wrap32_nonneg)
  have "3 * m_read_index ?b \<le> int (length (m_buffer ?b))" using a(2) by (simp add: settled_def)
  then have l: "int (length xs) < writeAble ?b" using assms(4) w by (simp add: small_burst_def)
  then have "int (length xs) \<le> int (length (m_buffer ?b)) - m_write_index ?b" "writeAble ?b \<noteq> 0"
    using w \<open>m_write_index ?b = m_read_index ?b\<close> assms(3) by auto
  from store_read_returns [OF a(1) this(1)] obtain b where "store_read ?b xs = Inr b" by (auto elim!: returnsE)
  then have "input_round sk c =
      Inr (Some Read_All, \<lparr>sk_pending = [], sk_events = evs\<rparr>, c\<lparr>m_read_buffer := b, m_is_over_time := False\<rparr>)"
    using l \<open>writeAble ?b \<noteq> 0\<close> assms(2,3)
    by (simp add: input_round_def make_room_def read_hook_def set_over_def Let_def)
  then have "input_loop sk c =
      Inr (Read_All, \<lparr>sk_pending = [], sk_events = evs\<rparr>, c\<lparr>m_read_buffer := b, m_is_over_time := False\<rparr>)"
    by (subst input_loop.simps) simp
  with a(4,5) show ?thesis by (simp add: conn_input_def)
qed

locale answering_server =
  framed_protocol codec ok wire app dispatch + answering_dispatcher app dispatch abs served reply
  for codec ok wire app and dispatch :: "'s \<Rightarrow> app_data \<Rightarrow> tcp_buffer \<Rightarrow> ('s \<times> tcp_buffer) res"
    and abs :: "'s \<Rightarrow> 'a" and served :: "'a \<Rightarrow> 'f \<Rightarrow> bool" and reply
begin

text \<open>From the messages in the read buffer to the bytes of their answers.\<close>

lemma answer_burst:
  assumes "m_connection_type c = ServerConnection" and "m_codec c = codec" and "m_state c = Connected"
    and "\<not> m_is_over_time c" and "buffer_wf (m_read_buffer c)" and "buffer_wf (m_write_buffer c)"
    and "view (m_write_buffer c) = []" and "\<forall>f \<in> set fs. ok f" and "view (m_read_buffer c) = concat (map wire fs)"
    and "length fs < fuel" and "all_served served reply fs (abs s)" and "replies reply fs (abs s) = (t, a)"
    and "m_write_index (m_write_buffer c) + int (length t) \<le> WRITE_LIMIT" and "length t \<le> k"
  shows "\<exists>s' b out b2.
    conn_execute fuel dispatch (s, c) = Some (Inr (s', c\<lparr>m_read_buffer := b, m_write_buffer := out\<rparr>)) \<and> abs s' = a \<and>
    conn_output [(Takes k, False)] (c\<lparr>m_read_buffer := b, m_write_buffer := out\<rparr>) =
      Inr (t, Returns, c\<lparr>m_read_buffer := b, m_write_buffer := b2\<rparr>) \<and>
    drained (m_read_buffer c) [] b \<and> buffer_wf b2 \<and> view b2 = [] \<and>
    m_write_index b2 \<le> m_write_index (m_write_buffer c) + int (length t)"
proof -
  from execute_frames [OF assms(1,2,5,8,9,10), of s] obtain b where b: "drained (m_read_buffer c) [] b"
    "conn_execute fuel dispatch (s, c) = Some (bindE (dispatch_all dispatch (map app fs) s (m_write_buffer c))
          (\<lambda>(s, out). Inr (s, c\<lparr>m_read_buffer := b, m_write_buffer := out\<rparr>)))" by blast
  from dispatch_all_replies [OF assms(11,12,6,13)] obtain s' out where
    o: "dispatch_all dispatch (map app fs) s (m_write_buffer c) = Inr (s', out)" "abs s' = a" "buffer_wf out"
    "view out = t" "m_write_index out \<le> m_write_index (m_write_buffer c) + int (length t)" using assms(7) by auto
  from conn_output_one_write [of "c\<lparr>m_read_buffer := b, m_write_buffer := out\<rparr>" k] o(3,4) assms(3,4,14)
  obtain b2 where "conn_output [(Takes k, False)] (c\<lparr>m_read_buffer := b, m_write_buffer := out\<rparr>) =
      Inr (t, Returns, c\<lparr>m_read_buffer := b, m_write_buffer := b2\<rparr>)" "drained out [] b2" by auto
  with b o show ?thesis
    by (intro exI [of _ s'] exI [of _ b] exI [of _ out] exI [of _ b2]) (simp add: drained_def)
qed

text \<open>One turn: it waits for more, or it answers a number of bursts and the connection is idle again.\<close>

lemma turn:
  assumes "idle codec c" and "\<forall>fs \<in> set fss. fs \<noteq> [] \<and> (\<forall>f \<in> set fs. ok f)"
    and "2 * (m_write_index (m_read_buffer c) + int (length (concat (map wire (concat fss))))) \<le> INT_MAX"
    and "all_served served reply (concat fss) (abs s)" and "replies reply (concat fss) (abs s) = (t, a)"
    and "m_write_index (m_write_buffer c) + int (length t) \<le> WRITE_LIMIT" and "length t \<le> k"
    and "length (concat fss) < fuel"
  obtains (waits) c' where "main_server_loop dispatch ((fuel, [(Takes k, False)]) # rounds) (burst_socket wire fss) (s, c) =
      Some (Inr ([], [], Waits, s, c'))"
      "view (m_read_buffer c') = concat (map wire (concat fss))" "view (m_write_buffer c') = []"
      "fss = [] \<or> \<not> small_burst (length (m_buffer (m_read_buffer c))) (concat (map wire (hd fss)))"
  | (answers) n acts s' c' sent where "0 < n" "n \<le> length fss"
      "replies reply (concat (take n fss)) (abs s) = (sent, abs s')" "idle codec c'"
      "length (m_buffer (m_read_buffer c)) \<le> length (m_buffer (m_read_buffer c'))"
      "m_write_index (m_read_buffer c') + int (length (concat (map wire (concat (drop n fss))))) \<le>
       m_write_index (m_read_buffer c) + int (length (concat (map wire (concat fss))))"
      "m_write_index (m_write_buffer c') \<le> m_write_index (m_write_buffer c) + int (length sent)"
      "main_server_loop dispatch ((fuel, [(Takes k, False)]) # rounds) (burst_socket wire fss) (s, c) =
       map_option (\<lambda>r. bindE r (\<lambda>(sent', acts', e, s, c). Inr (sent @ sent', acts @ acts', e, s, c)))
         (main_server_loop dispatch rounds (burst_socket wire (drop n fss)) (s', c'))"
proof -
  let ?sk = "burst_socket wire fss" and ?w = "\<lambda>fss. concat (map wire (concat fss))"
  have i: "m_connection_type c = ServerConnection" "m_codec c = codec" "m_state c = Connected" "\<not> m_is_over_time c"
    "\<not> m_stop c" "buffer_wf (m_read_buffer c)" "settled (m_read_buffer c)" "m_buffer (m_read_buffer c) \<noteq> []"
    "view (m_read_buffer c) = []" "buffer_wf (m_write_buffer c)" "view (m_write_buffer c) = []"
    using assms(1) by (simp_all add: idle_def)
  have ne: "concat (map wire fs) \<noteq> []" if "fs \<in> set fss" for fs
    using assms(2) that wire_nonempty by (cases fs) auto
  have "\<exists>x xs. concat (map wire fs) = x # xs" if "fs \<in> set fss" for fs
    using ne [OF that] by (cases "concat (map wire fs)") blast+
  then have "steady ?sk" by (simp add: steady_def burst_socket_def)
  then have r: "ready ?sk c" using i assms(3) by (simp add: ready_def read_room_def to_come_burst_socket)
  from conn_input_steady [OF r i(3)] obtain e sk1 c1 acts where
    1: "conn_input ?sk c = Inr (e, sk1, c1, acts)" "taken_in ?sk c sk1 c1"
    "e = Returns \<and> sk_pending sk1 = [] \<and> length (to_come sk1) < length (to_come ?sk) \<or>
     e = Waits \<and> to_come sk1 = [] \<and> acts = []" by blast
  have c1: "c1 = c\<lparr>m_read_buffer := m_read_buffer c1\<rparr>" "buffer_wf (m_read_buffer c1)" "settled (m_read_buffer c1)"
    "m_buffer (m_read_buffer c1) \<noteq> []" "view (m_read_buffer c1) @ to_come sk1 = ?w fss"
    "length (m_buffer (m_read_buffer c)) \<le> length (m_buffer (m_read_buffer c1))"
    "m_write_index (m_read_buffer c1) + int (length (to_come sk1)) \<le>
       m_write_index (m_read_buffer c) + int (length (?w fss))"
    using 1(2) i(9) by (simp_all add: taken_in_def ready_def read_room_def to_come_burst_socket)
  from c1(1) have f: "m_write_buffer c1 = m_write_buffer c" "m_connection_type c1 = ServerConnection"
    "m_codec c1 = codec" "m_state c1 = Connected" "\<not> m_is_over_time c1" "\<not> m_stop c1"
    using i by (metis tcp_connection.select_convs tcp_connection.surjective tcp_connection.update_convs(4))+
  show ?thesis
  proof (cases e)
    case Waits
    have "\<not> small_burst (length (m_buffer (m_read_buffer c))) (concat (map wire (hd fss)))" if ne0: "fss \<noteq> []"
    proof
      from ne0 obtain fs fss' where fss: "fss = fs # fss'" by (auto simp: neq_Nil_conv)
      assume "small_burst (length (m_buffer (m_read_buffer c))) (concat (map wire (hd fss)))"
      then have "\<exists>sk' c' acts. conn_input ?sk c = Inr (Returns, sk', c', acts)"
        using ne [of fs] by (intro idle_takes_small_burst [OF assms(1)]) (auto simp: fss burst_socket_def)
      with 1(1) Waits show False by simp
    qed
    then have "fss = [] \<or> \<not> small_burst (length (m_buffer (m_read_buffer c))) (concat (map wire (hd fss)))" by blast
    then show ?thesis by (intro waits [of c1]) (use 1 Waits c1(5) f i(5,11) in simp_all)
  next
    case Returns
    with 1(3) have p: "sk_pending sk1 = []" "length (to_come sk1) < length (to_come ?sk)" by simp_all
    from 1(2) obtain n0 where "sk_events sk1 = drop n0 (sk_events ?sk)" by (auto simp: taken_in_def)
    from burst_socket_drop [OF p(1) this] have "sk1 = burst_socket wire (drop n0 fss)" .
    then obtain n where sk1: "sk1 = burst_socket wire (drop n fss)" "n \<le> length fss"
      by (cases "n0 \<le> length fss") (auto intro: that [of "length fss"] that)
    have n: "0 < n" using p(2) sk1(1) by (cases n) auto
    have fss: "concat fss = concat (take n fss) @ concat (drop n fss)" by (simp flip: concat_append)
    have v: "view (m_read_buffer c1) = ?w (take n fss)"
      using c1(5) unfolding sk1(1) to_come_burst_socket fss by simp
    obtain sent a1 where ra: "replies reply (concat (take n fss)) (abs s) = (sent, a1)"
      by (cases "replies reply (concat (take n fss)) (abs s)")
    have t: "length sent \<le> length t" using assms(5) ra by (auto simp: fss replies_append split: prod.splits)
    have sv: "all_served served reply (concat (take n fss)) (abs s)" using assms(4) by (simp add: fss all_served_append)
    have okf: "\<forall>f \<in> set (concat (take n fss)). ok f" using assms(2) by (auto dest: in_set_takeD)
    have fu: "length (concat (take n fss)) < fuel" using assms(8) by (simp add: fss)
    have "m_write_index (m_write_buffer c1) + int (length sent) \<le> WRITE_LIMIT" "length sent \<le> k"
      using assms(6,7) t f(1) by simp_all
    from answer_burst [OF f(2-5) c1(2) _ _ okf v fu sv ra this] i(10,11) f(1) obtain s' b out b2 where
      x: "conn_execute fuel dispatch (s, c1) = Some (Inr (s', c1\<lparr>m_read_buffer := b, m_write_buffer := out\<rparr>))"
      "abs s' = a1" "conn_output [(Takes k, False)] (c1\<lparr>m_read_buffer := b, m_write_buffer := out\<rparr>) =
        Inr (sent, Returns, c1\<lparr>m_read_buffer := b, m_write_buffer := b2\<rparr>)"
      "drained (m_read_buffer c1) [] b" "buffer_wf b2" "view b2 = []"
      "m_write_index b2 \<le> m_write_index (m_write_buffer c) + int (length sent)" by auto
    let ?c = "c1\<lparr>m_read_buffer := b, m_write_buffer := b2\<rparr>"
    have b: "buffer_wf b" "view b = []" "m_write_index b \<le> m_write_index (m_read_buffer c1)"
      "length (m_buffer b) = length (m_buffer (m_read_buffer c1))" "settled b" "m_buffer b \<noteq> []"
      using x(4) c1(3,4) by (auto simp: drained_def)
    have "idle codec ?c" using f b x(5,6) by (simp add: idle_def)
    then show ?thesis
      using n sk1 ra x b c1(6,7) i(5) 1(1) Returns
      by (intro answers [of n sent s' ?c acts]) (simp_all add: to_come_burst_socket)
  qed (use 1(3) in simp)
qed

text \<open>Messages that have arrived before the turn, and that the buffer takes without filling up.\<close>

lemma burst_answered:
  assumes "idle codec c" and "fs \<noteq> []" and "\<forall>f \<in> set fs. ok f" and "sk_pending sk = concat (map wire fs)"
    and "takes_all (m_read_buffer c) (length (sk_pending sk))"
    and "all_served served reply fs (abs s)" and "replies reply fs (abs s) = (t, a)"
    and "m_write_index (m_write_buffer c) + int (length t) \<le> WRITE_LIMIT" and "length t \<le> k" and "length fs < fuel"
  shows "\<exists>acts s' c'. abs s' = a \<and>
    main_server_loop dispatch ((fuel, [(Takes k, False)]) # rounds) sk (s, c) =
      map_option (\<lambda>r. bindE r (\<lambda>(sent, acts', e, s, c). Inr (t @ sent, acts @ acts', e, s, c)))
        (main_server_loop dispatch rounds (sk\<lparr>sk_pending := []\<rparr>) (s', c'))"
proof -
  have i: "m_connection_type c = ServerConnection" "m_codec c = codec" "m_state c = Connected" "\<not> m_is_over_time c"
    "\<not> m_stop c" "buffer_wf (m_read_buffer c)" "view (m_read_buffer c) = []" "buffer_wf (m_write_buffer c)"
    "view (m_write_buffer c) = []"
    using assms(1) by (simp_all add: idle_def)
  have "sk_pending sk \<noteq> []" using assms(2-4) wire_nonempty by (cases fs) auto
  from conn_input_takes_all [OF i(6,3,4) this assms(5)] obtain b acts where
    1: "conn_input sk c = Inr (Returns, sk\<lparr>sk_pending := []\<rparr>, c\<lparr>m_read_buffer := b\<rparr>, acts)" "buffer_wf b"
    "view b = concat (map wire fs)" using i(7) assms(4) by auto
  have "\<exists>s' b' out b2.
    conn_execute fuel dispatch (s, c\<lparr>m_read_buffer := b\<rparr>) = Some (Inr (s', c\<lparr>m_read_buffer := b', m_write_buffer := out\<rparr>)) \<and>
    abs s' = a \<and> conn_output [(Takes k, False)] (c\<lparr>m_read_buffer := b', m_write_buffer := out\<rparr>) =
      Inr (t, Returns, c\<lparr>m_read_buffer := b', m_write_buffer := b2\<rparr>)"
    using answer_burst [of "c\<lparr>m_read_buffer := b\<rparr>" fs fuel s t a k] i 1(2,3) assms(3,6-10) by auto
  then obtain s' b' out b2 where
    "conn_execute fuel dispatch (s, c\<lparr>m_read_buffer := b\<rparr>) = Some (Inr (s', c\<lparr>m_read_buffer := b', m_write_buffer := out\<rparr>))"
    "abs s' = a" "conn_output [(Takes k, False)] (c\<lparr>m_read_buffer := b', m_write_buffer := out\<rparr>) =
      Inr (t, Returns, c\<lparr>m_read_buffer := b', m_write_buffer := b2\<rparr>)" by blast
  with 1(1) i(5) show ?thesis
    by (intro exI [of _ acts] exI [of _ s'] exI [of _ "c\<lparr>m_read_buffer := b', m_write_buffer := b2\<rparr>"]) simp
qed

text \<open>
  A session: what has been sent are the answers to the bursts of the front, in order, and the rest is
  in the read buffer. Nothing is left there when the bursts are small.
\<close>

lemma session:
  assumes "idle codec c" and "\<forall>fs \<in> set fss. fs \<noteq> [] \<and> (\<forall>f \<in> set fs. ok f)"
    and "2 * (m_write_index (m_read_buffer c) + int (length (concat (map wire (concat fss))))) \<le> INT_MAX"
    and "all_served served reply (concat fss) (abs s)" and "replies reply (concat fss) (abs s) = (t, a)"
    and "m_write_index (m_write_buffer c) + int (length t) \<le> WRITE_LIMIT" and "length t \<le> k"
    and "length (concat fss) < fuel" and "length fss < n"
  shows "\<exists>front left sent acts s' c'. fss = front @ left \<and>
    main_server_loop dispatch (replicate n (fuel, [(Takes k, False)])) (burst_socket wire fss) (s, c) =
      Some (Inr (sent, acts, Waits, s', c')) \<and>
    replies reply (concat front) (abs s) = (sent, abs s') \<and>
    view (m_read_buffer c') = concat (map wire (concat left)) \<and> view (m_write_buffer c') = [] \<and>
    ((\<forall>fs \<in> set fss. small_burst (length (m_buffer (m_read_buffer c))) (concat (map wire fs))) \<longrightarrow> left = [])"
  using assms
proof (induction "length fss" arbitrary: fss s c t n rule: less_induct)
  case less
  obtain n' where n: "n = Suc n'" using less.prems(9) by (cases n) auto
  show ?case
  proof (rule turn [OF less.prems(1-8), of "replicate n' (fuel, [(Takes k, False)])"])
    fix c'
    assume w: "main_server_loop dispatch ((fuel, [(Takes k, False)]) # replicate n' (fuel, [(Takes k, False)]))
        (burst_socket wire fss) (s, c) = Some (Inr ([], [], Waits, s, c'))"
      "view (m_read_buffer c') = concat (map wire (concat fss))" "view (m_write_buffer c') = []"
      "fss = [] \<or> \<not> small_burst (length (m_buffer (m_read_buffer c))) (concat (map wire (hd fss)))"
    have "\<exists>fs \<in> set fss. \<not> small_burst (length (m_buffer (m_read_buffer c))) (concat (map wire fs))" if "fss \<noteq> []"
      using w(4) that by (intro bexI [of _ "hd fss"]) simp_all
    with w(1-3) show ?thesis
      by (intro exI [of _ "[]"] exI [of _ fss] exI [of _ "[]"] exI [of _ s] exI [of _ c']) (auto simp: n)
  next
    fix j acts s1 c1 sent
    assume j: "0 < j" "j \<le> length fss" and r: "replies reply (concat (take j fss)) (abs s) = (sent, abs s1)"
      and c1: "idle codec c1" "length (m_buffer (m_read_buffer c)) \<le> length (m_buffer (m_read_buffer c1))"
      "m_write_index (m_read_buffer c1) + int (length (concat (map wire (concat (drop j fss))))) \<le>
       m_write_index (m_read_buffer c) + int (length (concat (map wire (concat fss))))"
      "m_write_index (m_write_buffer c1) \<le> m_write_index (m_write_buffer c) + int (length sent)"
      and x: "main_server_loop dispatch ((fuel, [(Takes k, False)]) # replicate n' (fuel, [(Takes k, False)]))
        (burst_socket wire fss) (s, c) =
       map_option (\<lambda>r. bindE r (\<lambda>(sent', acts', e, s, c). Inr (sent @ sent', acts @ acts', e, s, c)))
         (main_server_loop dispatch (replicate n' (fuel, [(Takes k, False)])) (burst_socket wire (drop j fss)) (s1, c1))"
    let ?r = "drop j fss"
    have fss: "concat fss = concat (take j fss) @ concat ?r" by (simp flip: concat_append)
    obtain t2 where t2: "replies reply (concat ?r) (abs s1) = (t2, a)" "t = sent @ t2"
      using less.prems(5) r by (auto simp: fss replies_append split: prod.splits)
    have sv: "all_served served reply (concat ?r) (abs s1)"
      using less.prems(4) r by (simp add: fss all_served_append)
    have "\<exists>front left sent2 acts2 s' c'. ?r = front @ left \<and>
      main_server_loop dispatch (replicate n' (fuel, [(Takes k, False)])) (burst_socket wire ?r) (s1, c1) =
        Some (Inr (sent2, acts2, Waits, s', c')) \<and>
      replies reply (concat front) (abs s1) = (sent2, abs s') \<and>
      view (m_read_buffer c') = concat (map wire (concat left)) \<and> view (m_write_buffer c') = [] \<and>
      ((\<forall>fs \<in> set ?r. small_burst (length (m_buffer (m_read_buffer c1))) (concat (map wire fs))) \<longrightarrow> left = [])"
    proof (rule less.hyps [OF _ c1(1) _ _ sv t2(1)])
      show "length ?r < length fss" using j by simp
      show "\<forall>fs \<in> set ?r. fs \<noteq> [] \<and> (\<forall>f \<in> set fs. ok f)" using less.prems(2) by (auto dest: in_set_dropD)
      show "2 * (m_write_index (m_read_buffer c1) + int (length (concat (map wire (concat ?r))))) \<le> INT_MAX"
        by (rule order.trans [OF mult_left_mono [OF c1(3)] less.prems(3)]) simp
      show "length (concat ?r) < fuel" using less.prems(8) by (simp add: fss)
    qed (use less.prems(6,7,9) t2(2) c1(4) j n in auto)
    then obtain front' left sent2 acts2 s' c' where i: "?r = front' @ left"
      "main_server_loop dispatch (replicate n' (fuel, [(Takes k, False)])) (burst_socket wire ?r) (s1, c1) =
        Some (Inr (sent2, acts2, Waits, s', c'))"
      "replies reply (concat front') (abs s1) = (sent2, abs s')"
      "view (m_read_buffer c') = concat (map wire (concat left))" "view (m_write_buffer c') = []"
      "(\<forall>fs \<in> set ?r. small_burst (length (m_buffer (m_read_buffer c1))) (concat (map wire fs))) \<longrightarrow> left = []" by blast
    have "small_burst (length (m_buffer (m_read_buffer c1))) bs"
      if "small_burst (length (m_buffer (m_read_buffer c))) bs" for bs
      using that c1(2) by (simp add: small_burst_def)
    moreover have "fss = (take j fss @ front') @ left" using i(1) by (metis append.assoc append_take_drop_id)
    moreover have "replies reply (concat (take j fss @ front')) (abs s) = (sent @ sent2, abs s')"
      using r i(3) by (simp add: replies_append)
    ultimately show ?thesis
      using i(2,4-6) x by (intro exI [of _ "take j fss @ front'"] exI [of _ left] exI [of _ "sent @ sent2"]
        exI [of _ "acts @ acts2"] exI [of _ s'] exI [of _ c']) (auto simp: n dest: in_set_dropD)
  qed
qed

end

end
