(* ===== verification/Time_Wheel.thy ===== *)
theory Time_Wheel
  imports Prelude
begin

text \<open>
  The time wheel that closes idle connections: \<open>net/tcp/tcp_connection_time_wheel.h\<close>, its
  \<open>.cc\<close> and \<open>net/tcp/abstract_slot.h\<close>. A slot is a shared object whose destructor calls the
  connection's callback; the wheel's buckets hold the only lasting references to it, so it is
  destroyed by the tick that drops the last of them.
\<close>

section \<open>The code\<close>

record time_wheel =
  m_bucket_count :: int
  m_inteval :: int
  m_wheel :: "nat list list"

definition new_TcpTimeWheel :: "int \<Rightarrow> int \<Rightarrow> time_wheel" where
  "new_TcpTimeWheel bucket_count inteval =
     \<lparr>m_bucket_count = bucket_count, m_inteval = inteval,
      m_wheel = replicate (nat bucket_count) []\<rparr>"

text \<open>
  \<open>~AbstractSlot\<close> runs for the slots of the popped bucket that no other bucket refers to;
  \<open>alive s\<close> says that the connection of slot \<open>s\<close> still exists, so that its callback is called.
\<close>

definition destroyed_slots :: "nat list \<Rightarrow> nat list list \<Rightarrow> nat list" where
  "destroyed_slots bucket wheel = remdups (filter (\<lambda>s. s \<notin> set (concat wheel)) bucket)"

definition slot_callbacks :: "(nat \<Rightarrow> bool) \<Rightarrow> nat list \<Rightarrow> nat list" where
  "slot_callbacks alive slots = filter alive slots"

text \<open>The result of a tick: the wheel and the slots that are destroyed, in order.\<close>

definition loopFunc :: "time_wheel \<Rightarrow> (time_wheel \<times> nat list) res" where
  "loopFunc w =
     (case m_wheel w of
        [] \<Rightarrow> Inl Empty_Queue
      | bucket # rest \<Rightarrow>
          Inr (w\<lparr>m_wheel := rest @ [[]]\<rparr>, destroyed_slots bucket rest))"

definition fresh :: "nat \<Rightarrow> time_wheel \<Rightarrow> time_wheel res" where
  "fresh slot w =
     (if m_wheel w = [] then Inl Empty_Queue
      else Inr (w\<lparr>m_wheel := butlast (m_wheel w) @ [last (m_wheel w) @ [slot]]\<rparr>))"

section \<open>Sequences of ticks and fresh connections\<close>

datatype wheel_op = Tick | Fresh nat

text \<open>The slots that each step destroys.\<close>

fun run_wheel :: "wheel_op list \<Rightarrow> time_wheel \<Rightarrow> (time_wheel \<times> nat list list) res" where
  "run_wheel [] w = Inr (w, [])"
| "run_wheel (Tick # ops) w =
     bindE (loopFunc w) (\<lambda>(w, f). bindE (run_wheel ops w) (\<lambda>(w, fs). Inr (w, f # fs)))"
| "run_wheel (Fresh s # ops) w =
     bindE (fresh s w) (\<lambda>w. bindE (run_wheel ops w) (\<lambda>(w, fs). Inr (w, [] # fs)))"

definition ticks :: "wheel_op list \<Rightarrow> nat" where
  "ticks ops = length (filter (\<lambda>op. op = Tick) ops)"

lemma ticks_simps [simp]: "ticks [] = 0" "ticks (Tick # ops) = Suc (ticks ops)"
  "ticks (Fresh s # ops) = ticks ops"
  by (simp_all add: ticks_def)

text \<open>Slot \<open>s\<close> was last put into bucket \<open>k\<close>, and no later bucket refers to it.\<close>

definition slot_at :: "nat \<Rightarrow> nat \<Rightarrow> time_wheel \<Rightarrow> bool" where
  "slot_at s k w \<longleftrightarrow>
     k < length (m_wheel w) \<and> s \<in> set (m_wheel w ! k) \<and>
     (\<forall>j < length (m_wheel w). k < j \<longrightarrow> s \<notin> set (m_wheel w ! j))"

definition in_wheel :: "nat \<Rightarrow> time_wheel \<Rightarrow> bool" where
  "in_wheel s w \<longleftrightarrow> s \<in> set (concat (m_wheel w))"

lemma length_loopFunc: "loopFunc w = Inr (w', f) \<Longrightarrow> length (m_wheel w') = length (m_wheel w)"
  by (auto simp: loopFunc_def split: list.splits)

lemma length_fresh: "fresh s w = Inr w' \<Longrightarrow> length (m_wheel w') = length (m_wheel w)"
  by (auto simp: fresh_def split: if_splits)

lemma loopFunc_keeps_buckets: "loopFunc w = Inr (w', f) \<Longrightarrow> m_wheel w' \<noteq> []"
  by (auto simp: loopFunc_def split: list.splits)

lemma fresh_keeps_buckets: "fresh s w = Inr w' \<Longrightarrow> m_wheel w' \<noteq> []"
  by (auto simp: fresh_def split: if_splits)

lemma loopFunc_not_Nil: "m_wheel w \<noteq> [] \<Longrightarrow> \<exists>w' f. loopFunc w = Inr (w', f)"
  by (auto simp: loopFunc_def split: list.split)

lemma fresh_slot_at:
  assumes "fresh s w = Inr w'"
  shows "slot_at s (length (m_wheel w) - 1) w'"
  using assms by (auto simp: fresh_def slot_at_def nth_append split: if_splits)

lemma fresh_other_slot_at:
  assumes "fresh s w = Inr w'" and "s \<noteq> t"
  shows "slot_at t k w' \<longleftrightarrow> slot_at t k w"
proof -
  from assms(1) obtain bs b where w: "m_wheel w = bs @ [b]" by (cases "m_wheel w" rule: rev_cases) (auto simp: fresh_def)
  with assms have "m_wheel w' = bs @ [b @ [s]]" by (auto simp: fresh_def)
  with w assms(2) show ?thesis by (auto simp: slot_at_def nth_append)
qed

text \<open>A tick brings a slot one bucket nearer to the front, and destroys it at the front.\<close>

lemma loopFunc_slot_at_Suc:
  assumes "loopFunc w = Inr (w', f)" and "slot_at s (Suc k) w"
  shows "slot_at s k w' \<and> s \<notin> set f"
proof -
  from assms(1) obtain b rest where w: "m_wheel w = b # rest" "m_wheel w' = rest @ [[]]"
    "f = destroyed_slots b rest"
    by (auto simp: loopFunc_def split: list.splits)
  from assms(2) w have k: "k < length rest" "s \<in> set (rest ! k)" by (auto simp: slot_at_def)
  have "s \<notin> set (rest ! j)" if "j < length rest" "k < j" for j
    using assms(2) that unfolding slot_at_def by (auto simp: w dest: spec [of _ "Suc j"])
  moreover from k have "s \<in> set (concat rest)" by (auto intro: nth_mem)
  then have "s \<notin> set f" by (simp add: w destroyed_slots_def)
  ultimately show ?thesis using k w by (auto simp: slot_at_def nth_append)
qed

lemma loopFunc_slot_at_0:
  assumes "loopFunc w = Inr (w', f)" and "slot_at s 0 w"
  shows "s \<in> set f \<and> \<not> in_wheel s w'"
proof -
  from assms(1) obtain b rest where w: "m_wheel w = b # rest" "m_wheel w' = rest @ [[]]"
    "f = destroyed_slots b rest"
    by (auto simp: loopFunc_def split: list.splits)
  have "s \<notin> set (rest ! j)" if "j < length rest" for j
    using assms(2) that unfolding slot_at_def by (auto simp: w dest: spec [of _ "Suc j"])
  then have "\<forall>r \<in> set rest. s \<notin> set r" by (metis in_set_conv_nth)
  then have "s \<notin> set (concat rest)" by simp
  with assms(2) w show ?thesis by (auto simp: slot_at_def destroyed_slots_def in_wheel_def)
qed

lemma absent_step:
  assumes "\<not> in_wheel s w"
  shows "loopFunc w = Inr (w', f) \<Longrightarrow> \<not> in_wheel s w' \<and> s \<notin> set f"
    and "fresh t w = Inr w' \<Longrightarrow> s \<noteq> t \<Longrightarrow> \<not> in_wheel s w'"
proof -
  assume "loopFunc w = Inr (w', f)"
  with assms show "\<not> in_wheel s w' \<and> s \<notin> set f"
    by (auto simp: loopFunc_def in_wheel_def destroyed_slots_def split: list.splits)
next
  assume f: "fresh t w = Inr w'" and "s \<noteq> t"
  then obtain bs b where "m_wheel w = bs @ [b]" by (cases "m_wheel w" rule: rev_cases) (auto simp: fresh_def)
  with f \<open>s \<noteq> t\<close> assms show "\<not> in_wheel s w'" by (auto simp: fresh_def in_wheel_def)
qed

lemma run_wheel_absent:
  assumes "m_wheel w \<noteq> []" and "\<not> in_wheel s w" and "Fresh s \<notin> set ops"
  shows "returns (run_wheel ops w) (\<lambda>(w', fs). s \<notin> set (concat fs))"
  using assms
proof (induction ops arbitrary: w)
  case Nil
  then show ?case by simp
next
  case (Cons op ops)
  show ?case
  proof (cases op)
    case Tick
    from Cons.prems(1) obtain w' f where l: "loopFunc w = Inr (w', f)"
      using loopFunc_not_Nil by blast
    from absent_step(1) [OF Cons.prems(2) l] loopFunc_keeps_buckets [OF l] Cons
    have "returns (run_wheel ops w') (\<lambda>(w', fs). s \<notin> set (concat fs))" "s \<notin> set f" by auto
    then show ?thesis using Tick l by (auto elim!: returns_mono)
  next
    case (Fresh t)
    from Cons.prems(1) obtain w' where l: "fresh t w = Inr w'" by (simp add: fresh_def)
    from absent_step(2) [OF Cons.prems(2) l] fresh_keeps_buckets [OF l] Cons Fresh
    have "returns (run_wheel ops w') (\<lambda>(w', fs). s \<notin> set (concat fs))" by auto
    then show ?thesis using Fresh l by (auto elim!: returns_mono)
  qed
qed

text \<open>From bucket \<open>k\<close>, and without being refreshed, a slot is destroyed by tick \<open>k + 1\<close>.\<close>

lemma run_wheel_slot_at:
  assumes "slot_at s k w" and "Fresh s \<notin> set ops"
  shows "returns (run_wheel ops w) (\<lambda>(w', fs).
    (s \<in> set (concat fs) \<longleftrightarrow> k < ticks ops) \<and>
    (\<forall>i < length fs. s \<in> set (fs ! i) \<longrightarrow> ops ! i = Tick \<and> ticks (take i ops) = k))"
  using assms
proof (induction ops arbitrary: w k)
  case Nil
  then show ?case by simp
next
  case (Cons op ops)
  from Cons.prems(1) have ne: "m_wheel w \<noteq> []" by (auto simp: slot_at_def)
  show ?case
  proof (cases op)
    case Tick
    from ne obtain w' f where l: "loopFunc w = Inr (w', f)" using loopFunc_not_Nil by blast
    show ?thesis
    proof (cases k)
      case 0
      with loopFunc_slot_at_0 [OF l] Cons.prems(1) have s: "s \<in> set f" "\<not> in_wheel s w'" by auto
      from l ne have "m_wheel w' \<noteq> []" using length_loopFunc [OF l] by auto
      from run_wheel_absent [OF this s(2), of ops] Cons.prems(2) obtain w2 fs where
        r: "run_wheel ops w' = Inr (w2, fs)" "s \<notin> set (concat fs)"
        by (auto elim!: returnsE)
      then have "s \<notin> set (fs ! i)" if "i < length fs" for i using that by auto
      then show ?thesis using Tick l s(1) r 0
        by (auto simp: nth_Cons split: nat.splits)
    next
      case (Suc k')
      with loopFunc_slot_at_Suc [OF l] Cons.prems(1) have s: "slot_at s k' w'" "s \<notin> set f" by auto
      from Cons.IH [OF s(1)] Cons.prems(2) obtain w2 fs where
        r: "run_wheel ops w' = Inr (w2, fs)" "s \<in> set (concat fs) \<longleftrightarrow> k' < ticks ops"
        "\<forall>i < length fs. s \<in> set (fs ! i) \<longrightarrow> ops ! i = Tick \<and> ticks (take i ops) = k'"
        by (auto elim!: returnsE)
      then show ?thesis using Tick l s(2) Suc by (auto simp: nth_Cons split: nat.splits)
    qed
  next
    case (Fresh t)
    from ne obtain w' where l: "fresh t w = Inr w'" by (simp add: fresh_def)
    from Fresh Cons.prems have "t \<noteq> s" by auto
    from fresh_other_slot_at [OF l this] Cons.prems(1) have s: "slot_at s k w'" by simp
    from Cons.IH [OF s] Cons.prems(2) obtain w2 fs where
      r: "run_wheel ops w' = Inr (w2, fs)" "s \<in> set (concat fs) \<longleftrightarrow> k < ticks ops"
      "\<forall>i < length fs. s \<in> set (fs ! i) \<longrightarrow> ops ! i = Tick \<and> ticks (take i ops) = k"
      by (auto elim!: returnsE)
    then show ?thesis using Fresh l by (auto simp: nth_Cons split: nat.splits)
  qed
qed

section \<open>Properties\<close>

text \<open>
  A connection that is refreshed and then silent is given up by exactly the
  \<open>bucket_count\<close>-th tick after its last message, never by an earlier step and never twice,
  whatever the other connections do in between.
\<close>

theorem wheel_closes_idle_connection:
  assumes "m_wheel w \<noteq> []" and "Fresh s \<notin> set ops"
  shows "returns (run_wheel (Fresh s # ops) w) (\<lambda>(w', fs).
    (s \<in> set (concat fs) \<longleftrightarrow> length (m_wheel w) \<le> ticks ops) \<and>
    (\<forall>i < length ops. s \<in> set (fs ! Suc i) \<longrightarrow>
       ops ! i = Tick \<and> Suc (ticks (take i ops)) = length (m_wheel w)))"
proof -
  from assms(1) obtain w1 where f: "fresh s w = Inr w1" by (simp add: fresh_def)
  from run_wheel_slot_at [OF fresh_slot_at [OF f] assms(2)] obtain w2 fs where
    r: "run_wheel ops w1 = Inr (w2, fs)"
    "s \<in> set (concat fs) \<longleftrightarrow> length (m_wheel w) - 1 < ticks ops"
    "\<forall>i < length fs. s \<in> set (fs ! i) \<longrightarrow> ops ! i = Tick \<and> ticks (take i ops) = length (m_wheel w) - 1"
    by (auto elim!: returnsE)
  have "run_wheel ops w = Inr (w', fs) \<Longrightarrow> length fs = length ops" for ops w w' fs
    by (induction ops w arbitrary: w' fs rule: run_wheel.induct) (auto simp: bindE_eq_Inr)
  with r(1) have "length fs = length ops" by blast
  moreover have "0 < length (m_wheel w)" using assms(1) by simp
  ultimately show ?thesis using f r by auto
qed

lemma wheel_closes_idle_connection_witness:
  "returns (run_wheel (Fresh 5 # [Tick, Fresh 6, Tick, Tick]) (new_TcpTimeWheel 3 10)) (\<lambda>(w', fs).
     5 \<in> set (concat fs))"
proof -
  have "m_wheel (new_TcpTimeWheel 3 10) \<noteq> []" "Fresh 5 \<notin> set [Tick, Fresh 6, Tick, Tick]"
    by (simp_all add: new_TcpTimeWheel_def)
  from wheel_closes_idle_connection [OF this] show ?thesis
    by (elim returns_mono) (auto simp: new_TcpTimeWheel_def)
qed

end
