(* ===== verification/Timer.thy ===== *)
theory Timer
  imports Prelude "HOL-Library.Multiset"
begin

text \<open>
  The timer of a reactor: \<open>net/base/timer.h\<close> and \<open>net/base/timer.cc\<close>. Events are shared
  objects, so they live in a store and the queue holds their addresses. Readings of the
  clock are arguments (\<open>now\<close>, milliseconds), and the timer file descriptor is the time at
  which it becomes readable. The task of an event is application code, of any type \<open>'t\<close>;
  \<open>onTimer\<close> gives the tasks it runs, in order.
\<close>

section \<open>std::multimap\<close>

text \<open>The entries in iteration order; \<open>emplace\<close> puts a key behind the equal ones.\<close>

fun mm_emplace :: "'k::linorder \<Rightarrow> 'v \<Rightarrow> ('k \<times> 'v) list \<Rightarrow> ('k \<times> 'v) list" where
  "mm_emplace k v [] = [(k, v)]"
| "mm_emplace k v ((k', v') # m) =
     (if k < k' then (k, v) # (k', v') # m else (k', v') # mm_emplace k v m)"

definition mm_wf :: "('k::linorder \<times> 'v) list \<Rightarrow> bool" where
  "mm_wf m \<longleftrightarrow> sorted (map fst m)"

section \<open>The code\<close>

record 't timer_event =
  m_arrive_time :: int
  m_interval :: int
  m_is_repeated :: bool
  m_is_cancled :: bool
  m_task :: 't

definition new_TimerEvent :: "int \<Rightarrow> int \<Rightarrow> bool \<Rightarrow> 't \<Rightarrow> 't timer_event" where
  "new_TimerEvent now interval is_repeated task =
     \<lparr>m_arrive_time = now + interval, m_interval = interval, m_is_repeated = is_repeated,
      m_is_cancled = False, m_task = task\<rparr>"

definition resetTime :: "int \<Rightarrow> 't timer_event \<Rightarrow> 't timer_event" where
  "resetTime now e = e\<lparr>m_arrive_time := now + m_interval e, m_is_cancled := False\<rparr>"

definition wake :: "'t timer_event \<Rightarrow> 't timer_event" where
  "wake e = e\<lparr>m_is_cancled := False\<rparr>"

definition cancle :: "'t timer_event \<Rightarrow> 't timer_event" where
  "cancle e = e\<lparr>m_is_cancled := True\<rparr>"

definition cancleRepeated :: "'t timer_event \<Rightarrow> 't timer_event" where
  "cancleRepeated e = e\<lparr>m_is_repeated := False\<rparr>"

type_synonym 't events = "nat \<Rightarrow> 't timer_event"

record timer =
  m_pending_events :: "(int \<times> nat) list"
  m_expiry :: "int option"

text \<open>\<open>timerfd_settime\<close> with a relative time: zero disarms the timer.\<close>

definition timerfd_settime :: "int \<Rightarrow> int \<Rightarrow> int \<Rightarrow> timer \<Rightarrow> timer" where
  "timerfd_settime now tv_sec tv_nsec t =
     t\<lparr>m_expiry := (if tv_sec = 0 \<and> tv_nsec = 0 then None
                   else Some (now + tv_sec * 1000 + tv_nsec div 1000000))\<rparr>"

definition resetArriveTime :: "int \<Rightarrow> timer \<Rightarrow> timer" where
  "resetArriveTime now t =
     (let tmp = m_pending_events t in
      if tmp = [] then t
      else let it = last tmp in
        if fst it < now then t
        else let interval = fst it - now in
          timerfd_settime now (interval div 1000) (interval mod 1000 * 1000000) t)"

definition addTimerEvent :: "'t events \<Rightarrow> int \<Rightarrow> nat \<Rightarrow> bool \<Rightarrow> timer \<Rightarrow> timer" where
  "addTimerEvent ev now event need_reset t =
     (let is_reset =
        (case m_pending_events t of
           [] \<Rightarrow> True
         | it # _ \<Rightarrow> m_arrive_time (ev event) < m_arrive_time (ev (snd it)));
          t = t\<lparr>m_pending_events :=
                  mm_emplace (m_arrive_time (ev event)) event (m_pending_events t)\<rparr>
      in if is_reset \<and> need_reset then resetArriveTime now t else t)"

text \<open>
  \<open>delTimerEvent\<close>: the search runs over the events with the same arrive time. When it finds
  nothing it stops at the first later event, which is then the one that is erased.
\<close>

definition delTimerEvent :: "nat \<Rightarrow> 't events \<times> timer \<Rightarrow> 't events \<times> timer" where
  "delTimerEvent event st =
     (case st of (ev, t) \<Rightarrow>
        let ev = ev(event := cancle (ev event));
            m = m_pending_events t;
            before = takeWhile (\<lambda>e. fst e < m_arrive_time (ev event)) m;
            from_begin = dropWhile (\<lambda>e. fst e < m_arrive_time (ev event)) m;
            range = takeWhile (\<lambda>e. fst e \<le> m_arrive_time (ev event)) from_begin;
            it = length (takeWhile (\<lambda>e. snd e \<noteq> event) range)
        in (ev, t\<lparr>m_pending_events := before @ take it from_begin @ drop (Suc it) from_begin\<rparr>))"

text \<open>
  \<open>onTimer\<close>: \<open>now\<close> is the reading that decides what has expired, \<open>now'\<close> the reading at which
  repeated events are queued again and the descriptor is armed. Reading the descriptor until
  \<open>EAGAIN\<close> clears an expiration that has happened.
\<close>

definition drain_timer_fd :: "int \<Rightarrow> timer \<Rightarrow> timer" where
  "drain_timer_fd now t =
     (case m_expiry t of
        None \<Rightarrow> t
      | Some e \<Rightarrow> if e \<le> now then t\<lparr>m_expiry := None\<rparr> else t)"

fun requeue :: "int \<Rightarrow> nat list \<Rightarrow> 't events \<times> timer \<Rightarrow> 't events \<times> timer" where
  "requeue now [] st = st"
| "requeue now (i # tmps) (ev, t) =
     requeue now tmps
       (if m_is_repeated (ev i)
        then let ev = ev(i := resetTime now (ev i)) in (ev, addTimerEvent ev now i False t)
        else (ev, t))"

definition onTimer :: "int \<Rightarrow> int \<Rightarrow> 't events \<times> timer \<Rightarrow> ('t events \<times> timer) \<times> 't list" where
  "onTimer now now' st =
     (case st of (ev, t) \<Rightarrow>
        let t = drain_timer_fd now t;
            expired = (\<lambda>e. fst e \<le> now \<and> \<not> m_is_cancled (ev (snd e)));
            tmps = map snd (takeWhile expired (m_pending_events t));
            tasks = map (\<lambda>i. m_task (ev i)) tmps;
            t = t\<lparr>m_pending_events := dropWhile expired (m_pending_events t)\<rparr>;
            (ev, t) = requeue now' tmps (ev, t)
        in ((ev, resetArriveTime now' t), tasks))"

section \<open>The queue of events\<close>

lemma set_mm_emplace [simp]: "set (mm_emplace k v m) = insert (k, v) (set m)"
  by (induction k v m rule: mm_emplace.induct) auto

lemma mm_emplace_not_Nil [simp]: "mm_emplace k v m \<noteq> []"
  by (induction k v m rule: mm_emplace.induct) auto

lemma mm_wf_emplace: "mm_wf m \<Longrightarrow> mm_wf (mm_emplace k v m)"
  by (induction k v m rule: mm_emplace.induct) (auto simp: mm_wf_def)

lemma mset_mm_emplace: "mset (mm_emplace k v m) = add_mset (k, v) (mset m)"
  by (induction k v m rule: mm_emplace.induct) auto

text \<open>
  The queue is ordered, and an event is in it at most once, under its own arrive time.
\<close>

definition timer_wf :: "'t events \<times> timer \<Rightarrow> bool" where
  "timer_wf st \<longleftrightarrow>
     (case st of (ev, t) \<Rightarrow>
        mm_wf (m_pending_events t) \<and> distinct (map snd (m_pending_events t)) \<and>
        (\<forall>(k, i) \<in> set (m_pending_events t). k = m_arrive_time (ev i)))"

definition pending :: "timer \<Rightarrow> nat set" where
  "pending t = snd ` set (m_pending_events t)"

lemma distinct_mm_emplace:
  "distinct (map snd (mm_emplace k v m)) \<longleftrightarrow> v \<notin> snd ` set m \<and> distinct (map snd m)"
proof -
  have "mset (map snd (mm_emplace k v m)) = mset (map snd ((k, v) # m))"
    by (simp add: mset_mm_emplace)
  then have "distinct (map snd (mm_emplace k v m)) \<longleftrightarrow> distinct (map snd ((k, v) # m))"
    by (rule mset_eq_imp_distinct_iff)
  then show ?thesis by simp
qed

lemma pending_settime [simp]: "m_pending_events (timerfd_settime now s n t) = m_pending_events t"
  by (simp add: timerfd_settime_def)

lemma pending_resetArriveTime [simp]:
  "m_pending_events (resetArriveTime now t) = m_pending_events t"
  by (simp add: resetArriveTime_def Let_def)

lemma pending_addTimerEvent [simp]:
  "m_pending_events (addTimerEvent ev now i r t) =
     mm_emplace (m_arrive_time (ev i)) i (m_pending_events t)"
  by (simp add: addTimerEvent_def Let_def)

lemma timer_wf_addTimerEvent:
  "timer_wf (ev, t) \<Longrightarrow> i \<notin> pending t \<Longrightarrow> timer_wf (ev, addTimerEvent ev now i r t)"
  by (auto simp: timer_wf_def mm_wf_emplace distinct_mm_emplace pending_def)

text \<open>Writing to an event that is not in the queue.\<close>

lemma timer_wf_update: "i \<notin> pending t \<Longrightarrow> timer_wf (ev(i := e), t) \<longleftrightarrow> timer_wf (ev, t)"
  by (force simp: timer_wf_def pending_def)

section \<open>What onTimer runs and keeps\<close>

lemma pending_drain [simp]: "m_pending_events (drain_timer_fd now t) = m_pending_events t"
  by (simp add: drain_timer_fd_def split: option.split)

lemma requeue_spec:
  assumes "timer_wf (ev, t)" and "distinct is" and "set is \<inter> pending t = {}"
    and "requeue now is (ev, t) = (ev', t')"
  shows "timer_wf (ev', t') \<and> pending t' = pending t \<union> {i \<in> set is. m_is_repeated (ev i)} \<and>
    (\<forall>i. ev' i = (if i \<in> set is \<and> m_is_repeated (ev i) then resetTime now (ev i) else ev i))"
  using assms
proof (induction "is" arbitrary: ev t)
  case Nil
  then show ?case by simp
next
  case (Cons j "is")
  show ?case
  proof (cases "m_is_repeated (ev j)")
    case False
    with Cons show ?thesis by auto
  next
    case True
    let ?ev = "ev(j := resetTime now (ev j))"
    let ?t = "addTimerEvent ?ev now j False t"
    have p: "pending ?t = insert j (pending t)" by (simp add: pending_def)
    from Cons.prems have w: "timer_wf (?ev, ?t)"
      by (intro timer_wf_addTimerEvent) (auto simp: timer_wf_update)
    have "distinct is" "set is \<inter> pending ?t = {}" using Cons.prems p by auto
    moreover have "requeue now is (?ev, ?t) = (ev', t')"
      using Cons.prems(4) True by (simp add: Let_def)
    ultimately have ih: "timer_wf (ev', t') \<and> pending t' = pending ?t \<union> {i \<in> set is. m_is_repeated (?ev i)} \<and>
        (\<forall>i. ev' i = (if i \<in> set is \<and> m_is_repeated (?ev i) then resetTime now (?ev i) else ?ev i))"
      by (rule Cons.IH [OF w])
    from Cons.prems(2) have "j \<notin> set is" by simp
    then have "{i \<in> set is. m_is_repeated (?ev i)} = {i \<in> set is. m_is_repeated (ev i)}"
      by auto
    moreover from ih have "timer_wf (ev', t')" by blast
    moreover have "ev' i = (if i \<in> set (j # is) \<and> m_is_repeated (ev i) then resetTime now (ev i)
        else ev i)" for i
      using ih True \<open>j \<notin> set is\<close> by auto
    moreover have "pending t' = pending t \<union> {i \<in> set (j # is). m_is_repeated (ev i)}"
    proof -
      from ih have "pending t' = pending ?t \<union> {i \<in> set is. m_is_repeated (?ev i)}" by blast
      with True p \<open>{i \<in> set is. m_is_repeated (?ev i)} = {i \<in> set is. m_is_repeated (ev i)}\<close>
      show ?thesis by auto
    qed
    ultimately show ?thesis by blast
  qed
qed

lemma takeWhile_sorted_keys:
  fixes n :: int
  shows "mm_wf m \<Longrightarrow> takeWhile (\<lambda>e. fst e \<le> n) m = filter (\<lambda>e. fst e \<le> n) m"
  by (induction m) (force simp: mm_wf_def intro!: filter_False [symmetric])+

lemma dropWhile_sorted_keys:
  fixes n :: int
  shows "mm_wf m \<Longrightarrow> dropWhile (\<lambda>e. fst e \<le> n) m = filter (\<lambda>e. n < fst e) m"
  by (induction m) (force simp: mm_wf_def intro!: filter_True [symmetric])+

lemma timer_wf_filter:
  assumes "timer_wf (ev, t)" and "m_pending_events t' = filter P (m_pending_events t)"
  shows "timer_wf (ev, t')"
  using assms by (auto simp: timer_wf_def mm_wf_def sorted_filter distinct_map_filter)

text \<open>With no cancelled event in the queue, the prefix that is run is all that is due.\<close>

lemma onTimer_spec:
  assumes wf: "timer_wf (ev, t)" and nc: "\<forall>i \<in> pending t. \<not> m_is_cancled (ev i)"
    and on: "onTimer now now' (ev, t) = ((ev', t'), tasks)"
  shows "timer_wf (ev', t')"
    and "tasks = map (\<lambda>e. m_task (ev (snd e))) (filter (\<lambda>e. fst e \<le> now) (m_pending_events t))"
    and "pending t' = {i \<in> pending t. now < m_arrive_time (ev i) \<or> m_is_repeated (ev i)}"
    and "\<forall>i. ev' i = (if i \<in> pending t \<and> m_arrive_time (ev i) \<le> now \<and> m_is_repeated (ev i)
                    then resetTime now' (ev i) else ev i)"
proof -
  let ?m = "m_pending_events t"
  let ?exp = "\<lambda>e. fst e \<le> now \<and> \<not> m_is_cancled (ev (snd e))"
  from wf have mm: "mm_wf ?m" and d: "distinct (map snd ?m)"
    and key: "\<And>k i. (k, i) \<in> set ?m \<Longrightarrow> k = m_arrive_time (ev i)"
    by (auto simp: timer_wf_def)
  have nc': "\<not> m_is_cancled (ev (snd e))" if "e \<in> set ?m" for e
    using nc that by (auto simp: pending_def)
  have tw: "takeWhile ?exp ?m = filter (\<lambda>e. fst e \<le> now) ?m"
    using takeWhile_cong [of ?m ?m ?exp "\<lambda>e. fst e \<le> now"] nc' takeWhile_sorted_keys [OF mm, of now]
    by simp
  have dw: "dropWhile ?exp ?m = filter (\<lambda>e. now < fst e) ?m"
    using dropWhile_cong [of ?m ?m ?exp "\<lambda>e. fst e \<le> now"] nc' dropWhile_sorted_keys [OF mm, of now]
    by simp
  let ?is = "map snd (filter (\<lambda>e. fst e \<le> now) ?m)"
  let ?t = "(drain_timer_fd now t)\<lparr>m_pending_events := filter (\<lambda>e. now < fst e) ?m\<rparr>"
  obtain ev1 t1 where rq: "requeue now' ?is (ev, ?t) = (ev1, t1)" by fastforce
  from on rq have r: "ev' = ev1" "t' = resetArriveTime now' t1"
    "tasks = map (\<lambda>e. m_task (ev (snd e))) (filter (\<lambda>e. fst e \<le> now) ?m)"
    by (auto simp: onTimer_def Let_def tw dw comp_def)
  then show "tasks = map (\<lambda>e. m_task (ev (snd e))) (filter (\<lambda>e. fst e \<le> now) ?m)" by simp
  have wf1: "timer_wf (ev, ?t)" by (rule timer_wf_filter [OF wf]) simp
  have p: "set ?is = {i \<in> pending t. m_arrive_time (ev i) \<le> now}"
    "pending ?t = {i \<in> pending t. now < m_arrive_time (ev i)}"
    using key by (force simp: pending_def)+
  have "distinct ?is" using d by (simp add: distinct_map_filter)
  moreover have "set ?is \<inter> pending ?t = {}" using p by auto
  ultimately have s: "timer_wf (ev1, t1) \<and> pending t1 = pending ?t \<union> {i \<in> set ?is. m_is_repeated (ev i)} \<and>
    (\<forall>i. ev1 i = (if i \<in> set ?is \<and> m_is_repeated (ev i) then resetTime now' (ev i) else ev i))"
    using requeue_spec [OF wf1 _ _ rq] by simp
  then have "timer_wf (ev1, t1)" by blast
  then show "timer_wf (ev', t')" by (simp add: r timer_wf_def)
  from s have pt: "pending t1 = pending ?t \<union> {i \<in> set ?is. m_is_repeated (ev i)}" by blast
  have "pending t' = pending t1" by (simp add: r pending_def)
  with pt p show "pending t' = {i \<in> pending t. now < m_arrive_time (ev i) \<or> m_is_repeated (ev i)}"
    by auto
  from s p show "\<forall>i. ev' i = (if i \<in> pending t \<and> m_arrive_time (ev i) \<le> now \<and> m_is_repeated (ev i)
                    then resetTime now' (ev i) else ev i)"
    by (auto simp: r)
qed

section \<open>Cancelling and arming\<close>

text \<open>Deleting an event that is in the queue removes its entry and no other.\<close>

lemma delTimerEvent_pending:
  assumes wf: "timer_wf (ev, t)" and i: "i \<in> pending t"
  shows "delTimerEvent i (ev, t) =
    (ev(i := cancle (ev i)),
     t\<lparr>m_pending_events := filter (\<lambda>e. snd e \<noteq> i) (m_pending_events t)\<rparr>)"
proof -
  let ?m = "m_pending_events t" and ?a = "m_arrive_time (ev i)"
  from wf have s: "mm_wf ?m" and d: "distinct (map snd ?m)" by (auto simp: timer_wf_def)
  from wf i have "(?a, i) \<in> set ?m" by (force simp: timer_wf_def pending_def)
  then obtain xs ys where m: "?m = xs @ (?a, i) # ys" by (auto dest: split_list)
  from d m have no: "\<forall>e \<in> set xs \<union> set ys. snd e \<noteq> i" by force
  let ?lo = "takeWhile (\<lambda>e. fst e < ?a) xs" and ?eq = "dropWhile (\<lambda>e. fst e < ?a) xs"
  from s m have le: "\<forall>e \<in> set xs. fst e \<le> ?a" by (auto simp: mm_wf_def sorted_append)
  have fb: "dropWhile (\<lambda>e. fst e < ?a) ?m = ?eq @ (?a, i) # ys"
    by (simp add: m dropWhile_append dropWhile_eq_Nil_conv)
  have bf: "takeWhile (\<lambda>e. fst e < ?a) ?m = ?lo"
    by (cases "\<forall>e \<in> set xs. fst e < ?a")
      (auto simp: m takeWhile_append takeWhile_eq_all_conv [THEN iffD2])
  have eq: "set ?eq \<subseteq> set xs" by (auto dest: set_dropWhileD)
  have rg: "takeWhile (\<lambda>e. fst e \<le> ?a) (?eq @ (?a, i) # ys)
      = ?eq @ (?a, i) # takeWhile (\<lambda>e. fst e \<le> ?a) ys"
    using eq le by (subst takeWhile_append2) auto
  have it: "takeWhile (\<lambda>e. snd e \<noteq> i) (?eq @ (?a, i) # zs) = ?eq" for zs
    using eq no by (subst takeWhile_append2) auto
  have f: "filter (\<lambda>e. snd e \<noteq> i) ?m = xs @ ys"
    using no by (simp add: m filter_True)
  have "?lo @ ?eq @ ys = xs @ ys" by simp
  then show ?thesis
    by (simp add: delTimerEvent_def Let_def cancle_def fb bf rg it f)
qed

lemma timer_wf_delTimerEvent:
  assumes "timer_wf (ev, t)" and "i \<in> pending t"
  shows "timer_wf (delTimerEvent i (ev, t))"
  using assms unfolding delTimerEvent_pending [OF assms]
  by (auto simp: timer_wf_def mm_wf_def sorted_filter distinct_map_filter cancle_def)

section \<open>Properties\<close>

definition example_events :: "char list events" where
  "example_events =
     (\<lambda>_. new_TimerEvent 0 10 False ''once'')(1 := new_TimerEvent 0 20 True ''again'',
        2 := new_TimerEvent 0 90 False ''late'')"

definition example_timer :: timer where
  "example_timer = \<lparr>m_pending_events = [(10, 0), (20, 1), (90, 2)], m_expiry = Some 10\<rparr>"

lemma example_timer_wf:
  "timer_wf (example_events, example_timer)"
  "\<forall>i \<in> pending example_timer. \<not> m_is_cancled (example_events i)"
  by (simp_all add: timer_wf_def mm_wf_def example_events_def example_timer_def new_TimerEvent_def
      pending_def)

text \<open>
  C30: When no event in the queue is cancelled, a firing of the timer runs the task of every
  event whose time has come and of no other, in the order of their times; the events that
  stay in the queue are those whose time has not come and the repeated ones, which get a
  new time one interval after the present; the queue stays ordered and without duplicates.
\<close>

theorem timer_runs_what_is_due:
  assumes "timer_wf (ev, t)" and "\<forall>i \<in> pending t. \<not> m_is_cancled (ev i)"
    and "onTimer now now' (ev, t) = ((ev', t'), tasks)"
  shows "tasks = map (\<lambda>e. m_task (ev (snd e))) (filter (\<lambda>e. fst e \<le> now) (m_pending_events t)) \<and>
    pending t' = {i \<in> pending t. now < m_arrive_time (ev i) \<or> m_is_repeated (ev i)} \<and>
    (\<forall>i \<in> pending t. m_arrive_time (ev i) \<le> now \<longrightarrow> m_is_repeated (ev i) \<longrightarrow>
       m_arrive_time (ev' i) = now' + m_interval (ev i)) \<and>
    timer_wf (ev', t')"
  using onTimer_spec [OF assms] by (auto simp: resetTime_def)

lemma timer_runs_what_is_due_witness:
  "snd (onTimer 25 26 (example_events, example_timer)) = [''once'', ''again''] \<and>
   pending (snd (fst (onTimer 25 26 (example_events, example_timer)))) = {1, 2}"
proof -
  obtain ev' t' tasks where r: "onTimer 25 26 (example_events, example_timer) = ((ev', t'), tasks)"
    by (metis prod.exhaust)
  have p: "m_pending_events example_timer = [(10, 0), (20, 1), (90, 2)]"
    by (simp add: example_timer_def)
  have "tasks = map (\<lambda>e. m_task (example_events (snd e)))
      (filter (\<lambda>e. fst e \<le> 25) (m_pending_events example_timer))"
    "pending t' = {i \<in> pending example_timer.
       25 < m_arrive_time (example_events i) \<or> m_is_repeated (example_events i)}"
    using timer_runs_what_is_due [OF example_timer_wf r] by blast+
  moreover have "{i \<in> pending example_timer.
       25 < m_arrive_time (example_events i) \<or> m_is_repeated (example_events i)} = {1, 2}"
    by (auto simp: pending_def p example_events_def new_TimerEvent_def)
  ultimately show ?thesis
    by (simp add: r p) (simp add: example_events_def new_TimerEvent_def)
qed

text \<open>
  Cancelling an event that is in the queue marks it, takes its entry out, and leaves
  every other entry in place.
\<close>

theorem timer_cancel_removes_event:
  assumes "timer_wf (ev, t)" and "i \<in> pending t" and "delTimerEvent i (ev, t) = (ev', t')"
  shows "pending t' = pending t - {i} \<and> m_is_cancled (ev' i) \<and> timer_wf (ev', t') \<and>
    (\<forall>j. j \<noteq> i \<longrightarrow> ev' j = ev j)"
  using timer_wf_delTimerEvent [OF assms(1,2)] assms(3) delTimerEvent_pending [OF assms(1,2)]
  by (auto simp: pending_def cancle_def)

lemma timer_cancel_removes_event_witness:
  "pending (snd (delTimerEvent 1 (example_events, example_timer))) = {0, 2}"
proof -
  obtain ev' t' where r: "delTimerEvent 1 (example_events, example_timer) = (ev', t')" by fastforce
  have "1 \<in> pending example_timer" by (simp add: pending_def example_timer_def)
  from timer_cancel_removes_event [OF example_timer_wf(1) this r]
  have "pending t' = pending example_timer - {1}" by blast
  moreover have "pending example_timer - {1} = {0, 2}" by (auto simp: pending_def example_timer_def)
  ultimately show ?thesis by (simp only: r snd_conv)
qed

text \<open>
  Cancelling an event that is not in the queue, for example because it has fired,
  erases the first event with a later time instead: its task will never run.
\<close>

theorem timer_cancel_erases_a_stranger:
  assumes "m_pending_events t = before @ (k, j) # after" and "i \<noteq> j"
    and "\<forall>e \<in> set before. fst e < m_arrive_time (ev i)" and "m_arrive_time (ev i) < k"
  shows "m_pending_events (snd (delTimerEvent i (ev, t))) = before @ after"
  using assms
  by (simp add: delTimerEvent_def Let_def cancle_def dropWhile_append dropWhile_eq_Nil_conv
      takeWhile_append)

lemma timer_cancel_erases_a_stranger_witness:
  "m_pending_events (snd (delTimerEvent 7 (example_events(7 := new_TimerEvent 0 15 False ''gone''),
      example_timer))) = [(10, 0), (90, 2)]"
  using timer_cancel_erases_a_stranger [of example_timer "[(10, 0)]" 20 1 "[(90, 2)]" 7
      "example_events(7 := new_TimerEvent 0 15 False ''gone'')"]
  by (simp add: example_timer_def new_TimerEvent_def)

text \<open>
  The descriptor is armed for the last event of the queue, not for the first: after an
  earlier event is added, the descriptor becomes readable when the latest one is due, and
  nothing runs the others before that.
\<close>

theorem timer_armed_for_the_last_event:
  assumes "m_pending_events t \<noteq> []" and "now < fst (last (m_pending_events t))"
  shows "m_expiry (resetArriveTime now t) = Some (fst (last (m_pending_events t)))"
proof -
  let ?d = "fst (last (m_pending_events t)) - now"
  have "?d mod 1000 * 1000000 div 1000000 = ?d mod 1000" by simp
  moreover have "\<not> (?d div 1000 = 0 \<and> ?d mod 1000 * 1000000 = 0)"
    using assms(2) div_mult_mod_eq [of ?d 1000] by auto
  ultimately show ?thesis
    using assms div_mult_mod_eq [of ?d 1000]
    by (simp add: resetArriveTime_def Let_def timerfd_settime_def)
qed

lemma timer_armed_for_the_last_event_witness:
  "m_expiry (resetArriveTime 5 example_timer) = Some 90"
  using timer_armed_for_the_last_event [of example_timer 5] by (simp add: example_timer_def)

end
