(* ===== verification/Http_Dispatcher.thy ===== *)
theory Http_Dispatcher
  imports Http_Codec Run_Time Msg_Req
begin

text \<open>
  Servlets and their dispatch: \<open>net/http/http_servlet.cc\<close> and
  \<open>net/http/http_dispatcher.cc\<close>. The \<open>handle\<close> method of a registered servlet is
  application code; it is a field of the servlet, as any function of the request and the
  response that may end in a fault.
\<close>

section \<open>The code\<close>

definition setHttpCode :: "http_response \<Rightarrow> int \<Rightarrow> http_response" where
  "setHttpCode res code =
     res\<lparr>m_response_code := Some code, m_response_info := httpCodeToString code\<rparr>"

definition setHttpContentType :: "http_response \<Rightarrow> string \<Rightarrow> http_response" where
  "setHttpContentType res content_type =
     res\<lparr>m_response_header := map_put ''Content-Type'' content_type (m_response_header res)\<rparr>"

definition setHttpBody :: "http_response \<Rightarrow> string \<Rightarrow> http_response" where
  "setHttpBody res body =
     res\<lparr>m_response_body := body,
        m_response_header :=
          map_put ''Content-Length'' (show_int (int (length body))) (m_response_header res)\<rparr>"

text \<open>\<open>sprintf\<close> of \<open>default_html_template\<close> with its two strings.\<close>

definition default_html :: "string \<Rightarrow> string \<Rightarrow> string" where
  "default_html title text =
     ''<html><body><h1>'' @ title @ ''</h1><p>'' @ text @ ''</p></body></html>''"

definition handleNotFound :: "http_response \<Rightarrow> http_response" where
  "handleNotFound res =
     (let res = setHttpCode res HTTP_NOTFOUND;
          buf = default_html (show_int HTTP_NOTFOUND) (httpCodeToString HTTP_NOTFOUND);
          res = res\<lparr>m_response_body := buf\<rparr>;
          res = res\<lparr>m_response_header :=
                    map_put ''Content-Type'' content_type_text (m_response_header res)\<rparr>
      in res\<lparr>m_response_header :=
             map_put ''Content-Length'' (show_int (int (length (m_response_body res))))
               (m_response_header res)\<rparr>)"

text \<open>\<open>setCommParam\<close>; reading a missing \<open>Connection\<close> header inserts it into the request.\<close>

definition setCommParam ::
  "http_request \<Rightarrow> http_response \<Rightarrow> http_request \<times> http_response" where
  "setCommParam req res =
     (case map_index [] ''Connection'' (m_requeset_header req) of (v, m) \<Rightarrow>
        (req\<lparr>m_requeset_header := m\<rparr>,
         res\<lparr>m_response_version := m_request_version req,
            m_response_header := map_put ''Connection'' v (m_response_header res)\<rparr>))"

record http_servlet =
  getServletName :: string
  handle :: "http_request \<Rightarrow> http_response \<Rightarrow> (http_request \<times> http_response) res"

definition NotFoundHttpServlet :: http_servlet where
  "NotFoundHttpServlet =
     \<lparr>getServletName = ''NotFoundHttpServlet'', handle = (\<lambda>req res. Inr (req, handleNotFound res))\<rparr>"

type_synonym servlets = "(string \<times> http_servlet) list"

definition registerServlet :: "string \<Rightarrow> http_servlet \<Rightarrow> servlets \<Rightarrow> servlets" where
  "registerServlet path servlet m_servlets =
     (case map_get m_servlets path of
        None \<Rightarrow> map_put path servlet m_servlets
      | Some _ \<Rightarrow> m_servlets)"

definition run_servlet ::
  "http_servlet \<Rightarrow> run_time \<Rightarrow> http_request \<Rightarrow> http_response \<Rightarrow> (run_time \<times> http_request \<times> http_response) res" where
  "run_servlet servlet rt req res =
     (let rt = rt\<lparr>m_interface_name := getServletName servlet\<rparr>;
          (req, res) = setCommParam req res
      in bindE (handle servlet req res) (\<lambda>(req, res). Inr (rt, req, res)))"

text \<open>
  \<open>HttpDispacther::dispatch\<close>: \<open>gen\<close> is \<open>genMsgNumber\<close> on the state \<open>m\<close> of the calling
  thread, \<open>rt\<close> the run time of the current coroutine, \<open>out\<close> the connection's write buffer.
\<close>

definition http_dispatch ::
  "('m \<Rightarrow> (string \<times> 'm) res) \<Rightarrow> servlets \<Rightarrow> 'm \<Rightarrow> run_time \<Rightarrow> http_request \<Rightarrow> tcp_buffer \<Rightarrow>
   ('m \<times> run_time \<times> http_response \<times> tcp_buffer) res" where
  "http_dispatch gen m_servlets m rt resquest out =
     (let response = new_HttpResponse in
      bindE (gen m) (\<lambda>(no, m).
      let rt = rt\<lparr>m_msg_no := no\<rparr>;
          url_path = m_request_path resquest
      in bindE
           (if url_path \<noteq> [] then
              case map_get m_servlets url_path of
                None \<Rightarrow> run_servlet NotFoundHttpServlet rt resquest response
              | Some servlet \<Rightarrow> run_servlet servlet rt resquest response
            else Inr (rt, resquest, response)) (\<lambda>(rt, resquest, response).
         bindE (http_encode out response) (\<lambda>(out, response). Inr (m, rt, response, out)))))"

section \<open>Registration\<close>

definition servlets_wf :: "servlets \<Rightarrow> bool" where
  "servlets_wf m_servlets \<longleftrightarrow> map_wf m_servlets"

lemma registerServlet_wf: "servlets_wf ss \<Longrightarrow> servlets_wf (registerServlet path sv ss)"
  by (simp add: servlets_wf_def registerServlet_def std_map.invar_update split: option.split)

lemma map_get_registerServlet:
  assumes "servlets_wf ss"
  shows "map_get (registerServlet path sv ss) p =
    (if p = path \<and> map_get ss path = None then Some sv else map_get ss p)"
  using assms
  by (auto simp: servlets_wf_def registerServlet_def std_map.lookup_update split: option.split)

fun register_all :: "(string \<times> http_servlet) list \<Rightarrow> servlets \<Rightarrow> servlets" where
  "register_all [] ss = ss"
| "register_all ((path, sv) # rs) ss = register_all rs (registerServlet path sv ss)"

lemma map_get_register_all:
  "servlets_wf ss \<Longrightarrow> map_get (register_all rs ss) = map_of rs ++ map_get ss"
proof (induction rs ss rule: register_all.induct)
  case (2 path sv rs ss)
  then show ?case
    by (auto simp: fun_eq_iff map_add_def registerServlet_wf map_get_registerServlet
        split: option.splits)
qed simp

section \<open>Dispatch\<close>

definition connection_of :: "http_request \<Rightarrow> string" where
  "connection_of req =
     (case map_get (m_requeset_header req) ''Connection'' of Some v \<Rightarrow> v | None \<Rightarrow> [])"

text \<open>The response to a path without a servlet.\<close>

definition not_found_response :: "http_request \<Rightarrow> string" where
  "not_found_response req =
     m_request_version req @ '' 404 Not Found'' @ [CR, LF]
       @ ''Connection:'' @ connection_of req @ [CR, LF]
       @ ''Content-Length:54'' @ [CR, LF]
       @ ''Content-Type:text/html;charset=utf-8'' @ [CR, LF] @ [CR, LF]
       @ ''<html><body><h1>404</h1><p>Not Found</p></body></html>''"

lemma show_not_found: "show_int 404 = ''404''" "show_int 54 = ''54''"
  by code_simp+

lemma setCommParam_response:
  "snd (setCommParam req res) =
     res\<lparr>m_response_version := m_request_version req,
        m_response_header := map_put ''Connection'' (connection_of req) (m_response_header res)\<rparr>"
  by (simp add: setCommParam_def map_index_def connection_of_def split: option.split)

lemma handleNotFound_text:
  "response_text (handleNotFound (snd (setCommParam req new_HttpResponse))) 404 = not_found_response req"
  by (simp add: setCommParam_response handleNotFound_def Let_def setHttpCode_def default_html_def
      show_not_found httpCodeToString_def HTTP_OK_def HTTP_BADREQUEST_def HTTP_FORBIDDEN_def
      HTTP_NOTFOUND_def new_HttpResponse_def response_text_def toHttpString_def
      content_type_text_def not_found_response_def less_char_def)

lemma handleNotFound_code: "m_response_code (handleNotFound res) = Some 404"
  by (simp add: handleNotFound_def Let_def setHttpCode_def HTTP_NOTFOUND_def)

text \<open>The servlet of a path, the response it gives to a request, if it gives one, and its text.\<close>

definition servlet_of :: "servlets \<Rightarrow> string \<Rightarrow> http_servlet" where
  "servlet_of ss path = (case map_get ss path of None \<Rightarrow> NotFoundHttpServlet | Some servlet \<Rightarrow> servlet)"

definition http_answer :: "servlets \<Rightarrow> http_request \<Rightarrow> http_response" where
  "http_answer ss req =
     (case setCommParam req new_HttpResponse of (req, res) \<Rightarrow>
        case handle (servlet_of ss (m_request_path req)) req res of
          Inl _ \<Rightarrow> new_HttpResponse | Inr (_, res) \<Rightarrow> res)"

definition http_page :: "servlets \<Rightarrow> http_request \<Rightarrow> string" where
  "http_page ss req =
     (case m_response_code (http_answer ss req) of
        Some code \<Rightarrow> response_text (http_answer ss req) code | None \<Rightarrow> [])"

lemma setCommParam_path: "m_request_path (fst (setCommParam req res)) = m_request_path req"
  by (simp add: setCommParam_def split: prod.split)

lemma returns_dispatch:
  assumes "buffer_wf out" and "m_request_path req \<noteq> []" and "gen m = Inr (no, m')"
    and "m_response_code (http_answer ss req) = Some code"
    and "m_write_index out + int (length (http_page ss req)) \<le> WRITE_LIMIT"
  shows "returns (http_dispatch gen ss m rt req out)
    (\<lambda>(m1, rt', res', out'). m1 = m' \<and>
       rt' = \<lparr>m_msg_no = no, m_interface_name = getServletName (servlet_of ss (m_request_path req))\<rparr> \<and>
       buffer_wf out' \<and> view out' = view out @ http_page ss req \<and>
       m_write_index out' \<le> m_write_index out + int (length (http_page ss req)))"
proof -
  have "http_page ss req = response_text (http_answer ss req) code" by (simp add: http_page_def assms(4))
  with returns_http_encode [OF assms(1,4)] assms(5) have
    "returns (http_encode out (http_answer ss req)) (\<lambda>(b', res'). buffer_wf b' \<and>
      view b' = view out @ http_page ss req \<and> encode_succ res' \<and>
      m_write_index b' \<le> m_write_index out + int (length (http_page ss req)))" by simp
  moreover obtain req' where "handle (servlet_of ss (m_request_path req)) (fst (setCommParam req new_HttpResponse))
      (snd (setCommParam req new_HttpResponse)) = Inr (req', http_answer ss req)"
    using assms(4) setCommParam_path [of req new_HttpResponse]
    by (auto simp: http_answer_def new_HttpResponse_def split: prod.splits sum.splits)
  then have "http_dispatch gen ss m rt req out =
      bindE (http_encode out (http_answer ss req)) (\<lambda>(out, response).
        Inr (m', \<lparr>m_msg_no = no, m_interface_name = getServletName (servlet_of ss (m_request_path req))\<rparr>, response, out))"
    using assms(2,3)
    by (cases rt) (auto simp: http_dispatch_def Let_def run_servlet_def servlet_of_def case_prod_beta split: option.splits)
  ultimately show ?thesis by (auto elim!: returns_mono)
qed

lemma page_not_found:
  assumes "map_get ss (m_request_path req) = None"
  shows "m_response_code (http_answer ss req) = Some 404" and "http_page ss req = not_found_response req"
proof -
  have a: "http_answer ss req = handleNotFound (snd (setCommParam req new_HttpResponse))"
    using assms setCommParam_path [of req new_HttpResponse]
    by (simp add: http_answer_def servlet_of_def NotFoundHttpServlet_def case_prod_beta)
  show "m_response_code (http_answer ss req) = Some 404" by (simp add: a handleNotFound_code)
  then show "http_page ss req = not_found_response req" by (simp add: http_page_def a handleNotFound_text)
qed

lemma returns_dispatch_not_found:
  assumes wf: "buffer_wf out" and path: "m_request_path req \<noteq> []" "map_get ss (m_request_path req) = None"
    and gen: "gen m = Inr (no, m')"
    and room: "m_write_index out + int (length (not_found_response req)) \<le> WRITE_LIMIT"
  shows "returns (http_dispatch gen ss m rt req out)
    (\<lambda>(m1, rt', res, out'). m1 = m' \<and> rt' = \<lparr>m_msg_no = no, m_interface_name = ''NotFoundHttpServlet''\<rparr> \<and>
       buffer_wf out' \<and> view out' = view out @ not_found_response req)"
  using returns_dispatch [where gen = gen and m = m and rt = rt, OF wf path(1) gen page_not_found(1) [OF path(2)]]
    page_not_found(2) [OF path(2)] room path(2)
  by (auto simp: servlet_of_def NotFoundHttpServlet_def elim!: returns_mono)

text \<open>A registered servlet sees the request and its response is what is encoded.\<close>

lemma returns_dispatch_servlet:
  assumes wf: "buffer_wf out" and path: "m_request_path req \<noteq> []" "map_get ss (m_request_path req) = Some sv"
    and gen: "gen m = Inr (no, m')"
    and h: "handle sv (fst (setCommParam req new_HttpResponse)) (snd (setCommParam req new_HttpResponse))
            = Inr (req', res)" "m_response_code res = Some code"
    and room: "m_write_index out + int (length (response_text res code)) \<le> WRITE_LIMIT"
  shows "returns (http_dispatch gen ss m rt req out)
    (\<lambda>(m1, rt', res', out'). m1 = m' \<and> rt' = \<lparr>m_msg_no = no, m_interface_name = getServletName sv\<rparr> \<and>
       buffer_wf out' \<and> view out' = view out @ response_text res code)"
proof -
  have a: "http_answer ss req = res"
    using h(1) path(2) setCommParam_path [of req new_HttpResponse]
    by (simp add: http_answer_def servlet_of_def case_prod_beta)
  then have p: "http_page ss req = response_text res code" by (simp add: http_page_def h(2))
  show ?thesis
    using returns_dispatch [where gen = gen and m = m and rt = rt, OF wf path(1) gen h(2) [folded a]] p room path(2)
    by (auto simp: servlet_of_def elim!: returns_mono)
qed

text \<open>An empty path reaches no servlet, so the status code is read before it is written.\<close>

lemma dispatch_empty_path:
  assumes "m_request_path req = []" and "gen m = Inr (no, m')"
  shows "http_dispatch gen ss m rt req out = Inl Indeterminate_Value"
  using assms by (simp add: http_dispatch_def http_encode_no_code new_HttpResponse_def)

section \<open>Properties\<close>

definition hello_servlet :: http_servlet where
  "hello_servlet = \<lparr>getServletName = ''Hello'',
     handle = (\<lambda>req res. Inr (req, setHttpBody (setHttpCode res HTTP_OK) ''hi''))\<rparr>"

text \<open>
  However many servlets are registered, and in whatever order, a path ends up with the
  servlet registered for it first; later registrations of the path are refused and the
  table stays a well-formed map.
\<close>

theorem http_first_servlet_wins:
  "map_wf (register_all rs []) \<and> map_get (register_all rs []) = map_of rs"
proof -
  have "servlets_wf (register_all rs ss)" if "servlets_wf ss" for ss :: servlets
    using that by (induction rs ss rule: register_all.induct) (auto simp: registerServlet_wf)
  then show ?thesis
    using map_get_register_all [of "[]" rs] by (simp add: servlets_wf_def map_wf_Nil map_get_Nil)
qed

text \<open>
  A request whose path has no servlet is answered with the complete 404 page, under the
  request's own version and \<open>Connection\<close> header; the run time of the coroutine records the
  fresh message number and the name of the built-in servlet.
\<close>

theorem http_unknown_path_gets_404:
  assumes "buffer_wf out" and "m_request_path req \<noteq> []"
    and "map_get ss (m_request_path req) = None" and "gen m = Inr (no, m')"
    and "m_write_index out + int (length (not_found_response req)) \<le> WRITE_LIMIT"
  shows "returns (http_dispatch gen ss m rt req out)
    (\<lambda>(m1, rt', res, out'). m1 = m' \<and> m_msg_no rt' = no \<and>
       m_interface_name rt' = ''NotFoundHttpServlet'' \<and> view out' = view out @ not_found_response req)"
  using returns_dispatch_not_found [where gen = gen and m = m and rt = rt, OF assms]
  by (elim returns_mono) auto

lemma http_unknown_path_gets_404_witness:
  "returns (http_dispatch (\<lambda>m. Inr (''7'', m)) [] () new_RunTime
      (new_HttpRequest\<lparr>m_request_path := ''/x'', m_request_version := ''HTTP/1.1'',
         m_requeset_header := [(''Connection'', ''close'')]\<rparr>) (filled []))
    (\<lambda>(m1, rt', res, out'). m1 = () \<and> m_msg_no rt' = ''7'' \<and>
       m_interface_name rt' = ''NotFoundHttpServlet'' \<and>
       view out' = ''HTTP/1.1 404 Not Found'' @ g_CRLF @ ''Connection:close'' @ g_CRLF @ ''Content-Length:54'' @ g_CRLF
         @ ''Content-Type:text/html;charset=utf-8'' @ g_CRLF @ g_CRLF
         @ ''<html><body><h1>404</h1><p>Not Found</p></body></html>'')"
proof -
  let ?req = "new_HttpRequest\<lparr>m_request_path := ''/x'', m_request_version := ''HTTP/1.1'',
         m_requeset_header := [(''Connection'', ''close'')]\<rparr>"
  have c: "connection_of ?req = ''close''" by (simp add: connection_of_def map_get_def)
  have "m_write_index (filled []) + int (length (not_found_response ?req)) \<le> WRITE_LIMIT"
    by (simp add: not_found_response_def c filled_def WRITE_LIMIT_def)
  from http_unknown_path_gets_404 [where gen = "\<lambda>m. Inr (''7'', m)" and m = "()" and ss = "[]",
      OF filled_ok(1) _ _ _ this]
  show ?thesis
    by (simp add: filled_ok INT_MAX_def map_get_Nil not_found_response_def c g_CRLF_def)
qed

text \<open>
  A registered servlet is called once with the request and a response that already has
  the request's version and \<open>Connection\<close> header, and what it returns is encoded as it is.
\<close>

theorem http_servlet_response_sent:
  assumes "buffer_wf out" and "m_request_path req \<noteq> []"
    and "map_get ss (m_request_path req) = Some sv" and "gen m = Inr (no, m')"
    and "handle sv (fst (setCommParam req new_HttpResponse)) (snd (setCommParam req new_HttpResponse))
         = Inr (req', res)"
    and "m_response_code res = Some code"
    and "m_write_index out + int (length (response_text res code)) \<le> WRITE_LIMIT"
  shows "returns (http_dispatch gen ss m rt req out)
    (\<lambda>(m1, rt', res', out'). m1 = m' \<and> m_msg_no rt' = no \<and> m_interface_name rt' = getServletName sv \<and>
       buffer_wf out' \<and> view out' = view out @ response_text res code)"
  using returns_dispatch_servlet [where gen = gen and m = m and rt = rt, OF assms]
  by (elim returns_mono) auto

lemma http_servlet_response_sent_witness:
  "returns (http_dispatch (\<lambda>m. Inr (''7'', m)) [(''/x'', hello_servlet)] () new_RunTime
      (new_HttpRequest\<lparr>m_request_path := ''/x'', m_request_version := ''HTTP/1.1''\<rparr>) (filled []))
    (\<lambda>(m1, rt', res', out'). m1 = () \<and> m_msg_no rt' = ''7'' \<and> m_interface_name rt' = ''Hello'' \<and>
       buffer_wf out' \<and> view out' = ''HTTP/1.1 200 OK'' @ g_CRLF @ ''Connection:'' @ g_CRLF
         @ ''Content-Length:2'' @ g_CRLF @ g_CRLF @ ''hi'')"
proof -
  let ?req = "new_HttpRequest\<lparr>m_request_path := ''/x'', m_request_version := ''HTTP/1.1''\<rparr>"
  let ?res = "setHttpBody (setHttpCode (snd (setCommParam ?req new_HttpResponse)) HTTP_OK) ''hi''"
  have t: "response_text ?res 200 = ''HTTP/1.1 200 OK'' @ g_CRLF @ ''Connection:'' @ g_CRLF
         @ ''Content-Length:2'' @ g_CRLF @ g_CRLF @ ''hi''" by code_simp
  have c: "m_response_code ?res = Some 200" by code_simp
  have "m_write_index (filled []) + int (length (response_text ?res 200)) \<le> WRITE_LIMIT"
    unfolding t by (simp add: filled_def WRITE_LIMIT_def g_CRLF_def)
  from http_servlet_response_sent [where gen = "\<lambda>m. Inr (''7'', m)" and m = "()"
      and ss = "[(''/x'', hello_servlet)]" and sv = hello_servlet, OF filled_ok(1) _ _ _ _ c this]
  show ?thesis
    unfolding t by (simp add: filled_ok INT_MAX_def map_get_def hello_servlet_def)
qed

text \<open>
  A request with an empty path, such as an absolute url that names only the host,
  reaches no servlet at all: the response is encoded although its status code was never
  written.
\<close>

theorem http_empty_path_unanswered:
  assumes "m_request_path req = []" and "gen m = Inr (no, m')"
  shows "http_dispatch gen ss m rt req out = Inl Indeterminate_Value"
  using assms by (rule dispatch_empty_path [where gen = gen and m = m])

lemma http_empty_path_unanswered_witness:
  "http_dispatch (\<lambda>m. Inr (''7'', m)) [] () new_RunTime new_HttpRequest (filled []) = Inl Indeterminate_Value"
  by (rule http_empty_path_unanswered [where no = "''7''" and m' = "()"]) (simp_all add: new_HttpRequest_def)

end
