(* ===== verification/Net_Address.thy ===== *)
theory Net_Address
  imports Std_Lib
begin

text \<open>
  Addresses: \<open>net/base/net_address.h\<close> and \<open>net/base/net_address.cc\<close>. \<open>inet_addr\<close> and
  \<open>inet_ntoa\<close> of the C library are arguments. A socket address is the record the kernel
  reads, with the port and the address in network byte order.
\<close>

section \<open>The code\<close>

record sockaddr_in =
  sin_family :: int
  s_addr :: "32 word"
  sin_port :: "16 word"

record ip_address =
  m_ip :: string
  m_port :: "16 word"
  m_addr :: sockaddr_in

definition AF_INET :: int where
  "AF_INET = 2"

definition AF_UNIX :: int where
  "AF_UNIX = 1"

definition INADDR_NONE :: "32 word" where
  "INADDR_NONE = 0xFFFFFFFF"

text \<open>\<open>htons\<close> and \<open>ntohs\<close> on a little-endian machine: the two bytes change places.\<close>

definition htons :: "16 word \<Rightarrow> 16 word" where
  "htons p = word_of_int (uint p mod 256 * 256 + uint p div 256)"

definition CheckValidIPAddr :: "(string \<Rightarrow> 32 word) \<Rightarrow> string \<Rightarrow> bool res" where
  "CheckValidIPAddr inet_addr addr =
     (case find_first_of '':'' addr of
        None \<Rightarrow> Inr False
      | Some i \<Rightarrow>
          bindE (substr addr (int i + 1) (int (length addr) - int i - 1)) (\<lambda>p.
          bindE (atoi (c_str p)) (\<lambda>port.
          if port < 0 \<or> port > 65536 then Inr False
          else bindE (substr addr 0 (int i)) (\<lambda>ip.
               if inet_addr (c_str ip) = INADDR_NONE then Inr False else Inr True))))"

definition sockaddr_of :: "(string \<Rightarrow> 32 word) \<Rightarrow> string \<Rightarrow> 16 word \<Rightarrow> sockaddr_in" where
  "sockaddr_of inet_addr ip port =
     \<lparr>sin_family = AF_INET, s_addr = inet_addr (c_str ip), sin_port = htons port\<rparr>"

definition IPAddress_of :: "(string \<Rightarrow> 32 word) \<Rightarrow> string \<Rightarrow> 16 word \<Rightarrow> ip_address" where
  "IPAddress_of inet_addr ip port =
     \<lparr>m_ip = ip, m_port = port, m_addr = sockaddr_of inet_addr ip port\<rparr>"

definition IPAddress_of_sockaddr :: "(32 word \<Rightarrow> string) \<Rightarrow> sockaddr_in \<Rightarrow> ip_address" where
  "IPAddress_of_sockaddr inet_ntoa addr =
     \<lparr>m_ip = inet_ntoa (s_addr addr), m_port = htons (sin_port addr), m_addr = addr\<rparr>"

text \<open>
  From a string: without a colon the port and the socket address are never written, which is
  \<open>None\<close>. The port is the \<open>int\<close> of \<open>atoi\<close>, cut to 16 bits.
\<close>

definition IPAddress_of_string :: "(string \<Rightarrow> 32 word) \<Rightarrow> string \<Rightarrow> ip_address option res" where
  "IPAddress_of_string inet_addr addr =
     (case find_first_of '':'' addr of
        None \<Rightarrow> Inr None
      | Some i \<Rightarrow>
          bindE (substr addr 0 (int i)) (\<lambda>ip.
          bindE (substr addr (int i + 1) (int (length addr) - int i - 1)) (\<lambda>p.
          bindE (atoi (c_str p)) (\<lambda>port.
          Inr (Some (IPAddress_of inet_addr ip (word_of_int port))))))) "

text \<open>From a port alone: any address, and \<open>m_ip\<close> stays empty.\<close>

definition IPAddress_of_port :: "16 word \<Rightarrow> ip_address" where
  "IPAddress_of_port port =
     \<lparr>m_ip = [], m_port = port,
      m_addr = \<lparr>sin_family = AF_INET, s_addr = 0, sin_port = htons port\<rparr>\<rparr>"

definition ip_toString :: "ip_address \<Rightarrow> string" where
  "ip_toString a = m_ip a @ '':'' @ show_int (uint (m_port a))"

text \<open>
  \<open>UnixDomainAddress\<close>: the path is copied with its zero byte into the 108 bytes of
  \<open>sun_path\<close>; \<open>unlink\<close> has removed the file of that name.
\<close>

record unix_address =
  m_path :: string
  sun_path :: "char list"

definition UnixDomainAddress_of :: "string \<Rightarrow> unix_address res" where
  "UnixDomainAddress_of path =
     bindE (write_range (replicate 108 NUL) 0 (c_str path @ [NUL])) (\<lambda>a.
     Inr \<lparr>m_path = path, sun_path = a\<rparr>)"

definition UnixDomainAddress_of_sockaddr :: "char list \<Rightarrow> unix_address res" where
  "UnixDomainAddress_of_sockaddr a =
     (if NUL \<in> set a then Inr \<lparr>m_path = c_str a, sun_path = a\<rparr> else Inl Out_Of_Bounds)"

datatype net_address = IPAddress ip_address | UnixDomainAddress unix_address

definition getFamily :: "net_address \<Rightarrow> int" where
  "getFamily a = (case a of IPAddress ip \<Rightarrow> sin_family (m_addr ip) | UnixDomainAddress _ \<Rightarrow> AF_UNIX)"

definition toString :: "net_address \<Rightarrow> string" where
  "toString a = (case a of IPAddress ip \<Rightarrow> ip_toString ip | UnixDomainAddress u \<Rightarrow> m_path u)"

section \<open>Byte order and strings\<close>

lemma htons_htons: "htons (htons p) = p"
proof -
  define q r where "q = uint p div 256" and "r = uint p mod 256"
  have "0 \<le> uint p" "uint p < 65536" using uint_lt2p [of p] by simp_all
  then have qr: "0 \<le> q" "q < 256" "0 \<le> r" "r < 256" by (auto simp: q_def r_def pos_imp_zdiv_nonneg_iff)
  then have "(r * 256 + q) mod 65536 = r * 256 + q" by (intro mod_pos_pos_trivial) auto
  then have h: "uint (htons p) = r * 256 + q"
    unfolding htons_def q_def [symmetric] r_def [symmetric] uint_word_of_int by simp
  have "(r * 256 + q) mod 256 = q" "(r * 256 + q) div 256 = r" using qr by auto
  moreover have "q * 256 + r = uint p" by (simp add: q_def r_def)
  ultimately show ?thesis unfolding htons_def [of "htons p"] h by simp
qed

lemma ip_split:
  assumes "CHR '':'' \<notin> set ip"
  shows "find_first_of '':'' (ip @ '':'' @ p) = Some (length ip)"
    "substr (ip @ '':'' @ p) 0 (int (length ip)) = Inr ip"
    "substr (ip @ '':'' @ p) (int (length ip) + 1) (int (length (ip @ '':'' @ p)) - int (length ip) - 1) = Inr p"
  using find_first_of_at [of ip "'':''" "CHR '':''" p] assms by (simp_all add: substr_def nat_add_distrib)

lemma c_str_show_nat: "c_str (show_nat n) = show_nat n"
  unfolding c_str_def takeWhile_eq_all_conv
  using show_nat_digits by (fastforce simp: is_dec_def NUL_def)

section \<open>Properties\<close>

text \<open>
  An address printed and read back is the same address, for every port and every host part
  without a colon; the port survives the way through a socket address in network byte order.
\<close>

theorem ip_address_roundtrip:
  assumes "CHR '':'' \<notin> set ip"
  shows "IPAddress_of_string inet_addr (ip_toString (IPAddress_of inet_addr ip port))
      = Inr (Some (IPAddress_of inet_addr ip port)) \<and>
    m_port (IPAddress_of_sockaddr inet_ntoa (m_addr (IPAddress_of inet_addr ip port))) = port"
proof -
  let ?n = "unat port"
  have n: "int ?n = uint port" "int ?n < 65536" using uint_lt2p [of port] by simp_all
  then have "show_int (uint port) = show_nat ?n" by (simp add: show_int_def)
  moreover have "atoi (show_nat ?n) = Inr (uint port)"
    using atoi_show_nat [of ?n] n by (simp add: INT_MAX_def)
  ultimately show ?thesis
    by (simp add: IPAddress_of_string_def ip_toString_def IPAddress_of_def ip_split [OF assms, simplified]
        c_str_show_nat IPAddress_of_sockaddr_def sockaddr_of_def htons_htons)
qed

lemma ip_address_roundtrip_witness:
  "IPAddress_of_string (\<lambda>_. 7) (ip_toString (IPAddress_of (\<lambda>_. 7) ''10.0.0.1'' 8080))
     = Inr (Some (IPAddress_of (\<lambda>_. 7) ''10.0.0.1'' 8080))"
  using ip_address_roundtrip [of "''10.0.0.1''" "\<lambda>_. 7" 8080 "\<lambda>_. []"] by simp

text \<open>
  The check lets port 65536 pass, and the address that is then built from the same string
  has port zero.
\<close>

theorem ip_port_65536_is_valid:
  assumes "CHR '':'' \<notin> set ip" and "inet_addr (c_str ip) \<noteq> INADDR_NONE"
  shows "CheckValidIPAddr inet_addr (ip @ '':65536'') = Inr True \<and>
    IPAddress_of_string inet_addr (ip @ '':65536'') = Inr (Some (IPAddress_of inet_addr ip 0))"
proof -
  have a: "atoi (c_str ''65536'') = Inr 65536" by code_simp
  have z: "(65536 :: 16 word) = 0" by code_simp
  note s = ip_split [OF assms(1), of "''65536''", simplified]
  show ?thesis using assms(2)
    by (simp add: CheckValidIPAddr_def IPAddress_of_string_def s a z)
qed

lemma ip_port_65536_is_valid_witness:
  "CheckValidIPAddr (\<lambda>_. 7) ''10.0.0.1:65536'' = Inr True"
  using ip_port_65536_is_valid [of "''10.0.0.1''" "\<lambda>_. 7"] by (simp add: INADDR_NONE_def)

end
