(* ===== verification/Rpc_Controller.thy ===== *)
theory Rpc_Controller
  imports Net_Address
begin

text \<open>
  The error codes of \<open>comm/error_code.h\<close>, the closure of \<open>flconcpb_rpc_closure.h\<close> and the
  controller of one call, \<open>net/flconcpb/flconcpb_rpc_controller.h\<close> and \<open>.cc\<close>.
\<close>

text \<open>\<open>SYS_ERROR_PREFIX(xx)\<close> pastes \<open>1000\<close> in front of the four digits.\<close>

definition ERROR_PEER_CLOSED :: int where "ERROR_PEER_CLOSED = 10000000"
definition ERROR_FAILED_CONNECT :: int where "ERROR_FAILED_CONNECT = 10000001"
definition ERROR_FAILED_GET_REPLY :: int where "ERROR_FAILED_GET_REPLY = 10000002"
definition ERROR_FAILED_DESERIALIZE :: int where "ERROR_FAILED_DESERIALIZE = 10000003"
definition ERROR_FAILED_SERIALIZE :: int where "ERROR_FAILED_SERIALIZE = 10000004"
definition ERROR_FAILED_ENCODE :: int where "ERROR_FAILED_ENCODE = 10000005"
definition ERROR_FAILED_DECODE :: int where "ERROR_FAILED_DECODE = 10000006"
definition ERROR_RPC_CALL_TIMEOUT :: int where "ERROR_RPC_CALL_TIMEOUT = 10000007"
definition ERROR_SERVICE_NOT_FOUND :: int where "ERROR_SERVICE_NOT_FOUND = 10000008"
definition ERROR_METHOD_NOT_FOUND :: int where "ERROR_METHOD_NOT_FOUND = 10000009"
definition ERROR_PARSE_SERVICE_NAME :: int where "ERROR_PARSE_SERVICE_NAME = 10000010"
definition ERROR_NOT_SET_ASYNC_PRE_CALL :: int where "ERROR_NOT_SET_ASYNC_PRE_CALL = 10000011"
definition ERROR_CONNECT_SYS_ERR :: int where "ERROR_CONNECT_SYS_ERR = 10000012"

lemmas error_codes =
  ERROR_PEER_CLOSED_def ERROR_FAILED_CONNECT_def ERROR_FAILED_GET_REPLY_def
  ERROR_FAILED_DESERIALIZE_def ERROR_FAILED_SERIALIZE_def ERROR_FAILED_ENCODE_def
  ERROR_FAILED_DECODE_def ERROR_RPC_CALL_TIMEOUT_def ERROR_SERVICE_NOT_FOUND_def
  ERROR_METHOD_NOT_FOUND_def ERROR_PARSE_SERVICE_NAME_def ERROR_NOT_SET_ASYNC_PRE_CALL_def
  ERROR_CONNECT_SYS_ERR_def

record rpc_controller =
  m_error_code :: int
  m_error_info :: string
  m_msg_req :: string
  m_is_failed :: bool
  m_is_cancled :: bool
  m_peer_addr :: "net_address option"
  m_local_addr :: "net_address option"
  m_timeout :: int
  m_method_name :: string
  m_full_name :: string

definition new_RpcController :: rpc_controller where
  "new_RpcController =
     \<lparr>m_error_code = 0, m_error_info = [], m_msg_req = [], m_is_failed = False,
      m_is_cancled = False, m_peer_addr = None, m_local_addr = None, m_timeout = 5000,
      m_method_name = [], m_full_name = []\<rparr>"

definition Reset :: "rpc_controller \<Rightarrow> rpc_controller" where
  "Reset c = c"

definition StartCancel :: "rpc_controller \<Rightarrow> rpc_controller" where
  "StartCancel c = c"

definition IsCanceled :: "rpc_controller \<Rightarrow> bool" where
  "IsCanceled c = False"

definition SetFailed :: "string \<Rightarrow> rpc_controller \<Rightarrow> rpc_controller" where
  "SetFailed reason c = c\<lparr>m_is_failed := True, m_error_info := reason\<rparr>"

definition SetErrorCode :: "int \<Rightarrow> rpc_controller \<Rightarrow> rpc_controller" where
  "SetErrorCode error_code c = c\<lparr>m_error_code := error_code\<rparr>"

definition SetMsgReq :: "string \<Rightarrow> rpc_controller \<Rightarrow> rpc_controller" where
  "SetMsgReq no c = c\<lparr>m_msg_req := no\<rparr>"

definition SetError :: "int \<Rightarrow> string \<Rightarrow> rpc_controller \<Rightarrow> rpc_controller" where
  "SetError err_code err_info c = SetErrorCode err_code (SetFailed err_info c)"

definition SetPeerAddr :: "net_address \<Rightarrow> rpc_controller \<Rightarrow> rpc_controller" where
  "SetPeerAddr addr c = c\<lparr>m_peer_addr := Some addr\<rparr>"

definition SetLocalAddr :: "net_address \<Rightarrow> rpc_controller \<Rightarrow> rpc_controller" where
  "SetLocalAddr addr c = c\<lparr>m_local_addr := Some addr\<rparr>"

definition SetTimeout :: "int \<Rightarrow> rpc_controller \<Rightarrow> rpc_controller" where
  "SetTimeout timeout c = c\<lparr>m_timeout := timeout\<rparr>"

definition SetMethodName :: "string \<Rightarrow> rpc_controller \<Rightarrow> rpc_controller" where
  "SetMethodName name c = c\<lparr>m_method_name := name\<rparr>"

definition SetMethodFullName :: "string \<Rightarrow> rpc_controller \<Rightarrow> rpc_controller" where
  "SetMethodFullName name c = c\<lparr>m_full_name := name\<rparr>"

text \<open>\<open>FlconcPbRpcClosure::Run\<close>: an empty callback is not called.\<close>

definition closure_run :: "('w \<Rightarrow> 'w) option \<Rightarrow> 'w \<Rightarrow> 'w" where
  "closure_run m_cb w = (case m_cb of None \<Rightarrow> w | Some cb \<Rightarrow> cb w)"

text \<open>What a failed call leaves in the controller.\<close>

lemma SetError_sets:
  "m_is_failed (SetError e i c)" "m_error_code (SetError e i c) = e"
  "m_error_info (SetError e i c) = i" "m_msg_req (SetError e i c) = m_msg_req c"
  by (simp_all add: SetError_def SetErrorCode_def SetFailed_def)

end
