(* ===== verification/Rpc_Dispatcher.thy ===== *)
theory Rpc_Dispatcher
  imports Flconcpb_Codec Rpc_Controller Run_Time
begin

text \<open>
  The dispatcher of the binary protocol: \<open>net/flconcpb/flconcpb_rpc_dispatcher.cc\<close>. Protocol
  Buffers is not part of the code: a method descriptor with its prototypes is a record of the
  operations the dispatcher calls, parsing and printing a message of any type \<open>'msg\<close>; the
  method itself is application code and may change a state \<open>'w\<close> of its own.
\<close>

section \<open>The code\<close>

record ('msg, 'w) rpc_method =
  request_type_name :: string
  parse_request :: "string \<Rightarrow> 'msg option"
  new_response :: 'msg
  call_method :: "rpc_controller \<Rightarrow> 'msg \<Rightarrow> 'msg \<Rightarrow> 'w \<Rightarrow> 'msg \<times> 'w"
  serialize_response :: "'msg \<Rightarrow> string option"

record ('msg, 'w) rpc_service =
  service_descriptor_name :: string
  find_method :: "string \<Rightarrow> ('msg, 'w) rpc_method option"

type_synonym ('msg, 'w) services = "(string \<times> ('msg, 'w) rpc_service) list"

definition parseServiceFullName :: "string \<Rightarrow> (string \<times> string) option res" where
  "parseServiceFullName full_name =
     (if full_name = [] then Inr None
      else case find_str ''.'' full_name of
        None \<Rightarrow> Inr None
      | Some i \<Rightarrow>
          bindE (substr full_name 0 (int i)) (\<lambda>service_name.
          bindE (substr full_name (int i + 1) (int (length full_name) - int i - 1)) (\<lambda>method_name.
          Inr (Some (service_name, method_name)))))"

definition registerService ::
  "('msg, 'w) rpc_service \<Rightarrow> ('msg, 'w) services \<Rightarrow> ('msg, 'w) services" where
  "registerService service m_service_map =
     map_put (service_descriptor_name service) service m_service_map"

text \<open>
  \<open>dispatch\<close>: \<open>gen\<close> is \<open>genMsgNumber\<close> on the calling thread's state, \<open>rt\<close> the run time of the
  current coroutine, \<open>out\<close> the write buffer of the connection. \<open>reply\<close> is \<open>encode\<close> of
  \<open>reply_pk\<close>. The service map holds no null pointers: \<open>registerService\<close> is only called with a
  service. The closure given to the method does nothing.
\<close>

definition rpc_dispatch ::
  "('m \<Rightarrow> (string \<times> 'm) res) \<Rightarrow> ('msg, 'w) services \<Rightarrow> 'm \<times> 'w \<Rightarrow> run_time \<Rightarrow> flconcpb_struct \<Rightarrow>
   tcp_buffer \<Rightarrow> (('m \<times> 'w) \<times> run_time \<times> flconcpb_struct \<times> tcp_buffer) res" where
  "rpc_dispatch gen m_service_map st rt tmp out =
     (case st of (m, w) \<Rightarrow>
      let rt = rt\<lparr>m_msg_no := msg_req tmp\<rparr>;
          reply_pk = new_FlconcPbStruct\<lparr>service_full_name := service_full_name tmp,
                                        msg_req := msg_req tmp\<rparr>;
          reply = (\<lambda>m w rt pk. bindE (encode gen m out pk) (\<lambda>(m, out, pk).
                     Inr ((m, w), rt, pk, out)))
      in
      bindE (if msg_req reply_pk = []
             then bindE (gen m) (\<lambda>(no, m). Inr (reply_pk\<lparr>msg_req := no\<rparr>, m))
             else Inr (reply_pk, m)) (\<lambda>(reply_pk, m).
      bindE (parseServiceFullName (service_full_name tmp)) (\<lambda>names.
      case names of
        None \<Rightarrow>
          reply m w rt (reply_pk\<lparr>err_code := ERROR_PARSE_SERVICE_NAME,
            err_info := ''cannot parse service_name:['' @ service_full_name tmp @ '']''\<rparr>)
      | Some (service_name, method_name) \<Rightarrow>
          let rt = rt\<lparr>m_interface_name := service_full_name tmp\<rparr> in
          case map_get m_service_map service_name of
            None \<Rightarrow>
              reply m w rt (reply_pk\<lparr>err_code := ERROR_SERVICE_NOT_FOUND,
                err_info := ''not found service_name:['' @ service_name @ '']''\<rparr>)
          | Some service \<Rightarrow>
              (case find_method service method_name of
                 None \<Rightarrow>
                   reply m w rt (reply_pk\<lparr>err_code := ERROR_METHOD_NOT_FOUND,
                     err_info := ''not found method_name:['' @ method_name @ '']''\<rparr>)
               | Some mth \<Rightarrow>
                   (case parse_request mth (pb_data tmp) of
                      None \<Rightarrow>
                        reply m w rt (reply_pk\<lparr>err_code := ERROR_FAILED_SERIALIZE,
                          err_info := ''faild to parse request data, request.name:['' @
                                      request_type_name mth @ '']''\<rparr>)
                    | Some request \<Rightarrow>
                        let rpc_controller = SetMethodFullName (service_full_name tmp)
                              (SetMethodName method_name
                                (SetMsgReq (msg_req reply_pk) new_RpcController));
                            (response, w) = call_method mth rpc_controller request (new_response mth) w
                        in case serialize_response mth response of
                             None \<Rightarrow>
                               reply m w rt (reply_pk\<lparr>pb_data := [],
                                 err_code := ERROR_FAILED_SERIALIZE,
                                 err_info := ''failed to serilize relpy data''\<rparr>)
                           | Some s \<Rightarrow> reply m w rt (reply_pk\<lparr>pb_data := s\<rparr>))))))"

section \<open>What a request is answered\<close>

text \<open>
  The contract: the outcome of a call as a function of the registered services, without
  buffers and generators, and the package that carries it.
\<close>

datatype ('msg, 'w) lookup =
    Bad_Name
  | No_Service string
  | No_Method string
  | Bad_Request string
  | Callable "('msg, 'w) rpc_method" string 'msg

fun split_dot :: "string \<Rightarrow> (string \<times> string) option" where
  "split_dot [] = None"
| "split_dot (c # s) =
     (if c = CHR ''.'' then Some ([], s)
      else case split_dot s of None \<Rightarrow> None | Some (a, b) \<Rightarrow> Some (c # a, b))"

definition lookup_call ::
  "(string \<Rightarrow> ('msg, 'w) rpc_service option) \<Rightarrow> string \<Rightarrow> string \<Rightarrow> ('msg, 'w) lookup" where
  "lookup_call services full_name data =
     (case split_dot full_name of
        None \<Rightarrow> Bad_Name
      | Some (s, n) \<Rightarrow>
          (case services s of
             None \<Rightarrow> No_Service s
           | Some service \<Rightarrow>
               (case find_method service n of
                  None \<Rightarrow> No_Method n
                | Some mth \<Rightarrow>
                    (case parse_request mth data of
                       None \<Rightarrow> Bad_Request (request_type_name mth)
                     | Some request \<Rightarrow> Callable mth n request))))"

text \<open>The error code, the error text, the data of the reply and the new application state.\<close>

definition answer ::
  "('msg, 'w) lookup \<Rightarrow> string \<Rightarrow> string \<Rightarrow> 'w \<Rightarrow> int \<times> string \<times> string \<times> 'w" where
  "answer l full_name no w =
     (case l of
        Bad_Name \<Rightarrow> (10000010, ''cannot parse service_name:['' @ full_name @ '']'', [], w)
      | No_Service s \<Rightarrow> (10000008, ''not found service_name:['' @ s @ '']'', [], w)
      | No_Method n \<Rightarrow> (10000009, ''not found method_name:['' @ n @ '']'', [], w)
      | Bad_Request t \<Rightarrow>
          (10000004, ''faild to parse request data, request.name:['' @ t @ '']'', [], w)
      | Callable mth n request \<Rightarrow>
          (case call_method mth (new_RpcController\<lparr>m_msg_req := no, m_method_name := n,
                                    m_full_name := full_name\<rparr>) request (new_response mth) w of
             (response, w) \<Rightarrow>
               (case serialize_response mth response of
                  None \<Rightarrow> (10000004, ''failed to serilize relpy data'', [], w)
                | Some s \<Rightarrow> (0, [], s, w))))"

definition answer_struct :: "string \<Rightarrow> string \<Rightarrow> int \<times> string \<times> string \<times> 'w \<Rightarrow> flconcpb_struct" where
  "answer_struct full_name no a =
     (case a of (code, info, data, w) \<Rightarrow>
        new_FlconcPbStruct\<lparr>service_full_name := full_name, msg_req := no, err_code := code,
                           err_info := info, pb_data := data\<rparr>)"

lemma split_dot_find: "split_dot s = map_option (\<lambda>i. (take i s, drop (Suc i) s)) (find_str ''.'' s)"
  by (induction s) (auto split: option.splits)

lemma split_dot_at: "CHR ''.'' \<notin> set s \<Longrightarrow> split_dot (s @ CHR ''.'' # n) = Some (s, n)"
  by (induction s) auto

lemma split_dot_dotfree: "split_dot s = Some (a, b) \<Longrightarrow> CHR ''.'' \<notin> set a"
  by (induction s arbitrary: a) (auto split: if_splits option.splits)

lemma parseServiceFullName_split: "parseServiceFullName s = Inr (split_dot s)"
proof (cases "find_str ''.'' s")
  case None
  then show ?thesis by (cases s) (simp_all add: parseServiceFullName_def split_dot_find)
next
  case (Some i)
  then have "i + 1 \<le> length s" using find_str_le [of "''.''" s i] by simp
  then show ?thesis
    using Some by (cases s) (auto simp: parseServiceFullName_def split_dot_find substr_def nat_add_distrib)
qed

text \<open>The dispatcher encodes exactly the answer; with no service name there is nothing to encode.\<close>

lemma rpc_dispatch_encodes:
  assumes "if msg_req tmp = [] then gen m = Inr (no, m') else no = msg_req tmp \<and> m' = m"
    and "answer (lookup_call (map_get ss) (service_full_name tmp) (pb_data tmp))
           (service_full_name tmp) no w = a"
  shows "\<exists>rt'. m_msg_no rt' = msg_req tmp \<and>
    rpc_dispatch gen ss (m, w) rt tmp out =
      bindE (encode gen m' out (answer_struct (service_full_name tmp) no a))
        (\<lambda>(m, out, pk). Inr ((m, snd (snd (snd a))), rt', pk, out))"
proof -
  let ?rt = "if split_dot (service_full_name tmp) = None then rt\<lparr>m_msg_no := msg_req tmp\<rparr>
    else rt\<lparr>m_msg_no := msg_req tmp, m_interface_name := service_full_name tmp\<rparr>"
  note defs = rpc_dispatch_def Let_def parseServiceFullName_split lookup_call_def answer_def
    answer_struct_def error_codes SetMethodFullName_def SetMethodName_def SetMsgReq_def
    new_FlconcPbStruct_def
  have "rpc_dispatch gen ss (m, w) rt tmp out =
      bindE (encode gen m' out (answer_struct (service_full_name tmp) no a))
        (\<lambda>(m, out, pk). Inr ((m, snd (snd (snd a))), ?rt, pk, out))"
    using assms(1) unfolding assms(2) [symmetric]
    by (cases "msg_req tmp = []") (simp_all add: defs case_prod_beta split: option.splits)
  then show ?thesis by (intro exI [of _ ?rt]) simp
qed

lemma returns_rpc_dispatch:
  assumes "if msg_req tmp = [] then gen m = Inr (no, m') else no = msg_req tmp \<and> m' = m"
    and "answer (lookup_call (map_get ss) (service_full_name tmp) (pb_data tmp))
           (service_full_name tmp) no w = a"
    and "buffer_wf out" and "service_full_name tmp \<noteq> []" and "no \<noteq> []"
    and "pb_sized (answer_struct (service_full_name tmp) no a)"
    and "m_write_index out + int (pb_size (answer_struct (service_full_name tmp) no a)) \<le> WRITE_LIMIT"
  shows "returns (rpc_dispatch gen ss (m, w) rt tmp out) (\<lambda>((m1, w1), rt', pk, out').
    m1 = m' \<and> w1 = snd (snd (snd a)) \<and> m_msg_no rt' = msg_req tmp \<and> buffer_wf out' \<and>
    view out' = view out @ package (answer_struct (service_full_name tmp) no a) \<and>
    m_write_index out' \<le> m_write_index out + int (pb_size (answer_struct (service_full_name tmp) no a)))"
proof -
  let ?d = "answer_struct (service_full_name tmp) no a"
  have d: "service_full_name ?d = service_full_name tmp" "msg_req ?d = no"
    by (simp_all add: answer_struct_def case_prod_beta)
  have "returns (writeToBuffer out (package ?d)) (\<lambda>b'. buffer_wf b' \<and> view b' = view out @ package ?d \<and>
      m_write_index b' \<le> m_write_index out + int (pb_size ?d))"
    using writeToBuffer_used [OF assms(3), of "package ?d"] assms(7) by (simp add: length_package)
  then have "returns (encode gen m' out ?d) (\<lambda>(m1, out', pk). m1 = m' \<and> buffer_wf out' \<and>
      view out' = view out @ package ?d \<and> m_write_index out' \<le> m_write_index out + int (pb_size ?d))"
    using encode_given_msg_req [of ?d gen m' out] assms(4-6) d by simp
  moreover obtain rt' where "m_msg_no rt' = msg_req tmp"
    "rpc_dispatch gen ss (m, w) rt tmp out = bindE (encode gen m' out ?d)
       (\<lambda>(m, out, pk). Inr ((m, snd (snd (snd a))), rt', pk, out))"
    using rpc_dispatch_encodes [where gen = gen and m = m and rt = rt and out = out, OF assms(1,2)] by blast
  ultimately show ?thesis by (auto elim!: returns_mono)
qed

section \<open>Properties\<close>

definition echo_method :: "(string, nat) rpc_method" where
  "echo_method = \<lparr>request_type_name = ''EchoRequest'', parse_request = Some, new_response = [],
     call_method = (\<lambda>c req res w. (req @ ''!'', Suc w)), serialize_response = Some\<rparr>"

definition echo_service :: "string \<Rightarrow> (string, nat) rpc_service" where
  "echo_service name = \<lparr>service_descriptor_name = name,
     find_method = (\<lambda>n. if n = ''echo'' then Some echo_method else None)\<rparr>"

definition echo_request :: "string \<Rightarrow> flconcpb_struct" where
  "echo_request name = new_FlconcPbStruct\<lparr>msg_req := ''4217'', service_full_name := name, pb_data := ''hi''\<rparr>"

text \<open>
  C6: Every request that names a service is answered by exactly one package, under its own
  message number and service name: with the serialized response and error code zero when the
  service, the method and the request data are right, and otherwise with the error code and
  text of the first thing that was wrong. The method is called only in the first case, once.
\<close>

theorem rpc_request_answered:
  assumes "buffer_wf out" and "service_full_name tmp \<noteq> []" and "msg_req tmp \<noteq> []"
    and "answer (lookup_call (map_get ss) (service_full_name tmp) (pb_data tmp))
           (service_full_name tmp) (msg_req tmp) w = a"
    and "pb_sized (answer_struct (service_full_name tmp) (msg_req tmp) a)"
    and "m_write_index out + int (pb_size (answer_struct (service_full_name tmp) (msg_req tmp) a)) \<le> WRITE_LIMIT"
  shows "returns (rpc_dispatch gen ss (m, w) rt tmp out) (\<lambda>((m1, w1), rt', pk, out').
    m1 = m \<and> w1 = snd (snd (snd a)) \<and> m_msg_no rt' = msg_req tmp \<and> buffer_wf out' \<and>
    view out' = view out @ package (answer_struct (service_full_name tmp) (msg_req tmp) a))"
  using returns_rpc_dispatch [where gen = gen and m = m and m' = m and rt = rt, OF _ assms(4,1,2,3,5,6)]
    assms(3)
  by (auto elim!: returns_mono)

lemma echo_answer:
  "answer (lookup_call (map_get [(''Echo'', echo_service ''Echo'')]) ''Echo.echo'' ''hi'') ''Echo.echo'' ''4217'' 5
     = (0, [], ''hi!'', 6)"
  by (simp add: lookup_call_def answer_def map_get_def echo_service_def echo_method_def)

lemma rpc_request_answered_witness:
  "returns (rpc_dispatch (\<lambda>m. Inr ([], m)) [(''Echo'', echo_service ''Echo'')] ((), 5) new_RunTime
      (echo_request ''Echo.echo'') \<lparr>m_read_index = 0, m_write_index = 0, m_buffer = ''abc''\<rparr>)
     (\<lambda>((m1, w1), rt', pk, out'). w1 = 6 \<and>
        view out' = package (answer_struct ''Echo.echo'' ''4217'' (0, [], ''hi!'', 6 :: nat)))"
proof -
  let ?b = "\<lparr>m_read_index = 0, m_write_index = 0, m_buffer = ''abc''\<rparr>" and ?r = "echo_request ''Echo.echo''"
  have r: "service_full_name ?r = ''Echo.echo''" "msg_req ?r = ''4217''" "pb_data ?r = ''hi''"
    by (simp_all add: echo_request_def)
  have b: "buffer_wf ?b" "view ?b = []" by (simp_all add: buffer_wf_def INT_MAX_def view_def readAble_def)
  have s: "pb_sized (answer_struct ''Echo.echo'' ''4217'' (0, [], ''hi!'', 6))"
    "pb_size (answer_struct ''Echo.echo'' ''4217'' (0, [], ''hi!'', 6)) = 42"
    by (simp_all add: answer_struct_def pb_sized_def pb_size_def new_FlconcPbStruct_def WRITE_LIMIT_def
        fits_int_def INT_MIN_def INT_MAX_def)
  let ?ss = "[(''Echo'', echo_service ''Echo'')]"
  have a: "answer (lookup_call (map_get ?ss) (service_full_name ?r) (pb_data ?r)) (service_full_name ?r) (msg_req ?r) 5
      = (0, [], ''hi!'', 6)"
    unfolding r by (rule echo_answer)
  have "returns (rpc_dispatch (\<lambda>m. Inr ([], m)) ?ss ((), 5) new_RunTime ?r ?b) (\<lambda>((m1, w1), rt', pk, out').
    m1 = () \<and> w1 = snd (snd (snd (0 :: int, [] :: string, ''hi!'', 6 :: nat))) \<and>
    m_msg_no rt' = msg_req ?r \<and> buffer_wf out' \<and>
    view out' = view ?b @ package (answer_struct (service_full_name ?r) (msg_req ?r) (0, [], ''hi!'', 6 :: nat)))"
    by (rule rpc_request_answered [OF b(1) _ _ a]) (simp_all add: r s WRITE_LIMIT_def)
  then show ?thesis by (rule returns_mono) (auto simp: r b)
qed

text \<open>
  A service is registered under its full name, but looked up under what stands in front of
  the first dot: when the full name has a package in it, every call of the service is answered
  with "service not found".
\<close>

theorem rpc_packaged_service_not_found:
  assumes "CHR ''.'' \<in> set (service_descriptor_name service)"
    and "\<forall>p. service_descriptor_name service \<noteq> p \<longrightarrow> map_get ss p = None"
    and "service_full_name tmp = service_descriptor_name service @ CHR ''.'' # n" and "msg_req tmp \<noteq> []"
    and "rpc_dispatch gen (registerService service ss) (m, w) rt tmp out = Inr (st', rt', pk, out')"
  shows "err_code pk = ERROR_SERVICE_NOT_FOUND \<and> snd st' = w"
proof -
  let ?full = "service_full_name tmp" and ?name = "service_descriptor_name service"
  obtain a b where ab: "split_dot ?full = Some (a, b)"
    using assms(1,3) by (cases "split_dot ?full") (auto simp: split_dot_find find_char_iff)
  then have "a \<noteq> ?name" using split_dot_dotfree assms(1) by blast
  then have "map_get (registerService service ss) a = None"
    using assms(2) by (simp add: registerService_def map_get_put_other)
  then have l: "lookup_call (map_get (registerService service ss)) ?full (pb_data tmp) = No_Service a"
    by (simp add: lookup_call_def ab)
  let ?d = "answer_struct ?full (msg_req tmp) (10000008, ''not found service_name:['' @ a @ '']'', [], w)"
  have "err_code p = err_code ?d" if "encode gen m out ?d = Inr (m1, o1, p)" for m1 o1 p
    using that by (auto simp: encode_def encodePbData_def bindE_eq_Inr Let_def split: if_splits)
  then have e: "err_code p = ERROR_SERVICE_NOT_FOUND" if "encode gen m out ?d = Inr (m1, o1, p)" for m1 o1 p
    using that by (simp add: answer_struct_def error_codes)
  moreover 
  moreover obtain rt1 where "rpc_dispatch gen (registerService service ss) (m, w) rt tmp out =
      bindE (encode gen m out ?d) (\<lambda>(m, out, pk). Inr ((m, w), rt1, pk, out))"
    using rpc_dispatch_encodes [where gen = gen and m = m and m' = m and w = w and rt = rt and out = out
        and tmp = tmp and no = "msg_req tmp", OF _ refl, of "registerService service ss"] assms(4)
    by (auto simp: l answer_def)
  ultimately have "bindE (encode gen m out ?d) (\<lambda>(m, out, pk). Inr ((m, w), rt1, pk, out)) = Inr (st', rt', pk, out')"
    using assms(5) by simp
  then obtain m1 o1 where "encode gen m out ?d = Inr (m1, o1, pk)" "st' = (m1, w)"
    by (auto simp: bindE_eq_Inr)
  with e show ?thesis by simp
qed

lemma rpc_packaged_service_not_found_witness:
  "\<exists>st' rt' pk out'. rpc_dispatch (\<lambda>m. Inr ([], m)) (registerService (echo_service ''demo.Echo'') []) ((), 5) new_RunTime
     (echo_request ''demo.Echo.echo'') \<lparr>m_read_index = 0, m_write_index = 0, m_buffer = ''abc''\<rparr> = Inr (st', rt', pk, out') \<and>
     err_code pk = 10000008"
proof -
  let ?r = "rpc_dispatch (\<lambda>m. Inr ([], m)) (registerService (echo_service ''demo.Echo'') []) ((), 5) new_RunTime
     (echo_request ''demo.Echo.echo'') \<lparr>m_read_index = 0, m_write_index = 0, m_buffer = ''abc''\<rparr>"
  have "\<not> isl ?r" by code_simp
  then obtain x where "?r = Inr x" by (cases ?r) auto
  then obtain st' rt' pk out' where r: "?r = Inr (st', rt', pk, out')" by (cases x) auto
  have "err_code pk = ERROR_SERVICE_NOT_FOUND"
    using rpc_packaged_service_not_found [OF _ _ _ _ r]
    by (simp add: echo_service_def echo_request_def map_get_Nil)
  then have "err_code pk = 10000008" by (simp add: error_codes)
  with r show ?thesis by (intro exI conjI)
qed

text \<open>
  A request with an empty service name is decoded and dispatched, but its answer has no
  service name either, which the encoder refuses: nothing is sent, and the caller waits for a
  reply until its timeout.
\<close>

theorem rpc_empty_name_unanswered:
  assumes "service_full_name tmp = []" and "msg_req tmp \<noteq> []"
  shows "returns (rpc_dispatch gen ss (m, w) rt tmp out) (\<lambda>(st', rt', pk, out').
    st' = (m, w) \<and> out' = out \<and> \<not> encode_succ pk)"
proof -
  let ?d = "answer_struct [] (msg_req tmp) (10000010, ''cannot parse service_name:[]'', [], w)"
  have n: "service_full_name ?d = []" by (simp add: answer_struct_def case_prod_beta)
  obtain rt1 where "rpc_dispatch gen ss (m, w) rt tmp out =
      bindE (encode gen m out ?d) (\<lambda>(m, out, pk). Inr ((m, w), rt1, pk, out))"
    using rpc_dispatch_encodes [where gen = gen and m = m and m' = m and w = w and rt = rt and out = out
        and tmp = tmp and no = "msg_req tmp" and ss = ss, OF _ refl] assms
    by (auto simp: lookup_call_def answer_def)
  then show ?thesis by (simp add: encode_no_service [OF n])
qed

lemma rpc_empty_name_unanswered_witness:
  "returns (rpc_dispatch (\<lambda>m. Inr ([], m)) [(''Echo'', echo_service ''Echo'')] ((), 5) new_RunTime
      (echo_request []) (\<lparr>m_read_index = 0, m_write_index = 0, m_buffer = ''abc''\<rparr>))
     (\<lambda>(st', rt', pk, out'). out' = \<lparr>m_read_index = 0, m_write_index = 0, m_buffer = ''abc''\<rparr>)"
proof -
  let ?b = "\<lparr>m_read_index = 0, m_write_index = 0, m_buffer = ''abc''\<rparr>"
  have "returns (rpc_dispatch (\<lambda>m. Inr ([], m)) [(''Echo'', echo_service ''Echo'')] ((), 5) new_RunTime
      (echo_request []) ?b) (\<lambda>(st', rt', pk, out'). st' = ((), 5) \<and> out' = ?b \<and> \<not> encode_succ pk)"
    by (rule rpc_empty_name_unanswered) (simp_all add: echo_request_def)
  then show ?thesis by (rule returns_mono) auto
qed

end
