(* ===== verification/Tcp_Server.thy ===== *)
theory Tcp_Server
  imports Io_Thread Connection_Turn Time_Wheel Timer Http_Dispatcher Rpc_Dispatcher
begin

text \<open>
  The server: \<open>net/tcp/tcp_server.h\<close> and \<open>net/tcp/tcp_server.cc\<close>. The closures it gives to timers
  and reactors are the constructors of \<open>server_task\<close>. The results of \<open>accept\<close>, and the numbers of
  the slot and of the coroutine of a new connection, are arguments.
\<close>

section \<open>The code\<close>

datatype server_task = Wheel_Loop | Clear_Clients | Fresh_Task nat | Resume_Task nat | Log_Loop

record ('msg, 'w) tcp_server =
  m_family :: int
  m_peer_address :: "net_address option"
  m_tcp_counts :: int
  m_is_stop_accept :: bool
  m_protocal_type :: protocal_type
  m_services :: "('msg, 'w) services"
  m_http_servlets :: servlets
  m_io_pool :: "server_task io_thread_pool"
  m_clients :: "(int \<times> tcp_connection option) list"
  m_main_reactor :: "server_task reactor"
  m_time_wheel :: time_wheel
  m_timer_events :: "server_task events"
  m_main_timer :: timer

text \<open>
  The constructor: \<open>wheel_ev\<close> and \<open>clear_ev\<close> are the addresses of the two timer events, of which
  the first is created by the constructor of the time wheel.
\<close>

definition new_TcpServer ::
  "net_address \<Rightarrow> protocal_type \<Rightarrow> (server_task reactor \<times> nat) list \<Rightarrow> server_task reactor \<Rightarrow> int \<Rightarrow> int \<Rightarrow>
   int \<Rightarrow> nat \<Rightarrow> nat \<Rightarrow> server_task events \<Rightarrow> timer \<Rightarrow> ('msg, 'w) tcp_server res" where
  "new_TcpServer addr ty threads main_r bucket_num inteval now wheel_ev clear_ev evs tm =
     bindE (chk (inteval * 1000)) (\<lambda>wheel_ms.
     let evs1 = evs(wheel_ev := new_TimerEvent now wheel_ms True Wheel_Loop);
         tm1 = addTimerEvent evs1 now wheel_ev True tm;
         evs2 = evs1(clear_ev := new_TimerEvent now 10000 True Clear_Clients);
         tm2 = addTimerEvent evs2 now clear_ev True tm1
     in Inr \<lparr>m_family = getFamily addr, m_peer_address = None, m_tcp_counts = 0, m_is_stop_accept = False,
             m_protocal_type = ty, m_services = [], m_http_servlets = [],
             m_io_pool = new_IOThreadPool threads, m_clients = [],
             m_main_reactor = setReactorType MainReactor main_r,
             m_time_wheel = new_TcpTimeWheel bucket_num inteval,
             m_timer_events = evs2, m_main_timer = tm2\<rparr>)"

text \<open>\<open>TcpAcceptor::toAccept\<close>: \<open>rt\<close> and \<open>peer\<close> are what \<open>accept\<close> gives.\<close>

definition toAccept :: "int \<Rightarrow> net_address \<Rightarrow> ('msg, 'w) tcp_server \<Rightarrow> int \<times> ('msg, 'w) tcp_server" where
  "toAccept rt peer s =
     (if m_family s = AF_INET \<or> m_family s = AF_UNIX then
        (if rt = -1 then (-1, s) else (rt, s\<lparr>m_peer_address := Some peer\<rparr>))
      else (-1, s))"

definition server_registerService :: "('msg, 'w) rpc_service option \<Rightarrow> ('msg, 'w) tcp_server \<Rightarrow> bool \<times> ('msg, 'w) tcp_server" where
  "server_registerService service s =
     (if m_protocal_type s = FlconcPb_Protocal then
        (case service of
           Some sv \<Rightarrow> (True, s\<lparr>m_services := registerService sv (m_services s)\<rparr>)
         | None \<Rightarrow> (False, s))
      else (False, s))"

definition registerHttpServlet ::
  "string \<Rightarrow> http_servlet option \<Rightarrow> ('msg, 'w) tcp_server \<Rightarrow> bool \<times> ('msg, 'w) tcp_server" where
  "registerHttpServlet url_path servlet s =
     (if m_protocal_type s = Http_Protocal then
        (case servlet of
           Some sv \<Rightarrow> (True, s\<lparr>m_http_servlets := registerServlet url_path sv (m_http_servlets s)\<rparr>)
         | None \<Rightarrow> (False, s))
      else (False, s))"

text \<open>\<open>addClient\<close>: an entry of the same descriptor is replaced.\<close>

definition addClient :: "int \<Rightarrow> ('msg, 'w) tcp_server \<Rightarrow> (tcp_connection \<times> ('msg, 'w) tcp_server) res" where
  "addClient fd s =
     bindE (new_connection ServerConnection (m_protocal_type s) 128) (\<lambda>conn.
     Inr (conn, s\<lparr>m_clients := map_put fd (Some conn) (m_clients s)\<rparr>))"

definition freshTcpConnection :: "nat \<Rightarrow> ('msg, 'w) tcp_server \<Rightarrow> ('msg, 'w) tcp_server" where
  "freshTcpConnection slot s =
     s\<lparr>m_main_reactor := addTask (Some (Fresh_Task slot)) True (m_main_reactor s)\<rparr>"

text \<open>\<open>TcpConnection::initServer\<close> on the server's side: the slot of the connection is freshened.\<close>

definition initServer :: "int \<Rightarrow> nat \<Rightarrow> tcp_connection \<Rightarrow> ('msg, 'w) tcp_server \<Rightarrow> ('msg, 'w) tcp_server" where
  "initServer fd slot conn s =
     (case registerToTimeWheel slot conn of (conn, acts) \<Rightarrow>
        fold (\<lambda>a. case a of Fresh_Slot sl \<Rightarrow> freshTcpConnection sl | _ \<Rightarrow> id) acts
          (s\<lparr>m_clients := map_put fd (Some conn) (m_clients s)\<rparr>))"

text \<open>
  \<open>IOThread::addClient\<close>, which nothing calls: the slot of the connection is freshened and its coroutine
  \<open>cor\<close> given to the reactor of the connection, that of the thread \<open>i\<close>.
\<close>

definition setUpServer :: "nat \<Rightarrow> nat \<Rightarrow> ('msg, 'w) tcp_server \<Rightarrow> ('msg, 'w) tcp_server" where
  "setUpServer i cor s = s\<lparr>m_io_pool := on_thread i (addCoroutine Resume_Task cor True) (m_io_pool s)\<rparr>"

definition thread_addClient ::
  "nat \<Rightarrow> int \<Rightarrow> nat \<Rightarrow> nat \<Rightarrow> tcp_connection \<Rightarrow> ('msg, 'w) tcp_server \<Rightarrow> ('msg, 'w) tcp_server" where
  "thread_addClient i fd slot cor conn s =
     (case registerToTimeWheel slot conn of (conn, acts) \<Rightarrow>
        setUpServer i cor
          (fold (\<lambda>a. case a of Fresh_Slot sl \<Rightarrow> freshTcpConnection sl | _ \<Rightarrow> id) acts
            (s\<lparr>m_clients := map_put fd (Some conn) (m_clients s)\<rparr>)))"

text \<open>One turn of \<open>MainAcceptCorFunc\<close> with a descriptor; -1 makes the coroutine yield.\<close>

definition accept_turn :: "int \<Rightarrow> net_address \<Rightarrow> nat \<Rightarrow> nat \<Rightarrow> ('msg, 'w) tcp_server \<Rightarrow> ('msg, 'w) tcp_server res" where
  "accept_turn rt peer slot cor s =
     (case toAccept rt peer s of (fd, s) \<Rightarrow>
      if fd = -1 then Inr s
      else
        bindE (getIOThread (m_io_pool s)) (\<lambda>(i, pool).
        bindE (addClient fd (s\<lparr>m_io_pool := pool\<rparr>)) (\<lambda>(conn, s).
        let s = initServer fd slot conn s;
            s = s\<lparr>m_io_pool := on_thread i (addCoroutine Resume_Task cor True) (m_io_pool s)\<rparr>
        in bindE (chk (m_tcp_counts s + 1)) (\<lambda>n. Inr (s\<lparr>m_tcp_counts := n\<rparr>)))))"

fun MainAcceptCorFunc ::
  "(int \<times> net_address \<times> nat \<times> nat) list \<Rightarrow> ('msg, 'w) tcp_server \<Rightarrow> ('msg, 'w) tcp_server res" where
  "MainAcceptCorFunc [] s = Inr s"
| "MainAcceptCorFunc ((rt, peer, slot, cor) # as) s =
     (if m_is_stop_accept s then Inr s else bindE (accept_turn rt peer slot cor s) (MainAcceptCorFunc as))"

text \<open>
  \<open>TcpAcceptor::init\<close>: the results of \<open>socket\<close>, \<open>bind\<close> and \<open>listen\<close>, each of which ends the process when it
  fails; a failure of \<open>setsockopt\<close> is only logged. The destructor unregisters the descriptor and closes it.
\<close>

record listen_results =
  rt_socket :: int
  rt_bind :: int
  rt_listen :: int

definition acceptor_init :: "listen_results \<Rightarrow> int res" where
  "acceptor_init l =
     (if rt_socket l < 0 then Inl Process_Exit
      else if rt_bind l \<noteq> 0 then Inl Process_Exit
      else if rt_listen l \<noteq> 0 then Inl Process_Exit
      else Inr (rt_socket l))"

definition acceptor_destroy :: "int \<Rightarrow> conn_action list" where
  "acceptor_destroy fd = [Unregister_Fd] @ (if fd \<noteq> -1 then [Close_Fd] else [])"

text \<open>
  \<open>TcpServer::start\<close> up to the loop of the main reactor: the accept coroutine runs first, until it waits,
  with \<open>as\<close> as the connections that are there, and the threads are started after it.
\<close>

definition server_start ::
  "listen_results \<Rightarrow> (int \<times> net_address \<times> nat \<times> nat) list \<Rightarrow> ('msg, 'w) tcp_server \<Rightarrow> ('msg, 'w) tcp_server res" where
  "server_start l as s =
     bindE (acceptor_init l) (\<lambda>_.
     bindE (MainAcceptCorFunc as s) (\<lambda>s. Inr (s\<lparr>m_io_pool := io_start (m_io_pool s)\<rparr>)))"

definition server_addCoroutine :: "nat \<Rightarrow> ('msg, 'w) tcp_server \<Rightarrow> ('msg, 'w) tcp_server" where
  "server_addCoroutine cor s = s\<lparr>m_main_reactor := addCoroutine Resume_Task cor True (m_main_reactor s)\<rparr>"

definition ClearClientTimerFunc :: "('msg, 'w) tcp_server \<Rightarrow> ('msg, 'w) tcp_server" where
  "ClearClientTimerFunc s =
     s\<lparr>m_clients := map (\<lambda>(fd, c). (fd, case c of
          Some conn \<Rightarrow> if m_state conn = Closed then None else c
        | None \<Rightarrow> None)) (m_clients s)\<rparr>"

text \<open>The tasks of the main reactor that are the server's own. Resuming a coroutine and the logger's loop do
  not touch the server.\<close>

definition run_server_task ::
  "server_task \<Rightarrow> ('msg, 'w) tcp_server \<Rightarrow> (('msg, 'w) tcp_server \<times> nat list) res" where
  "run_server_task t s =
     (case t of
        Wheel_Loop \<Rightarrow> bindE (loopFunc (m_time_wheel s)) (\<lambda>(w, dropped). Inr (s\<lparr>m_time_wheel := w\<rparr>, dropped))
      | Clear_Clients \<Rightarrow> Inr (ClearClientTimerFunc s, [])
      | Fresh_Task slot \<Rightarrow> bindE (fresh slot (m_time_wheel s)) (\<lambda>w. Inr (s\<lparr>m_time_wheel := w\<rparr>, []))
      | Resume_Task _ \<Rightarrow> Inr (s, [])
      | Log_Loop \<Rightarrow> Inr (s, []))"

section \<open>Accepting\<close>

definition pending_of :: "nat \<Rightarrow> ('msg, 'w) tcp_server \<Rightarrow> server_task option list" where
  "pending_of i s = m_pending_tasks (io_reactor (m_io_threads (m_io_pool s) ! i))"

definition new_server_connection :: "protocal_type \<Rightarrow> nat \<Rightarrow> tcp_connection" where
  "new_server_connection ty slot =
     \<lparr>m_state = Connected, m_connection_type = ServerConnection, m_codec = ty,
      m_read_buffer = \<lparr>m_read_index = 0, m_write_index = 0, m_buffer = replicate 128 NUL\<rparr>,
      m_write_buffer = \<lparr>m_read_index = 0, m_write_index = 0, m_buffer = replicate 128 NUL\<rparr>,
      m_stop = False, m_is_over_time = False, m_reply_datas = [], m_weak_slot = Some slot\<rparr>"

lemma new_connection_idle: "idle ty (new_server_connection ty slot)"
  by (simp add: idle_def new_server_connection_def buffer_wf_def settled_def INT_MAX_def view_def readAble_def)

lemma new_connection_at_front:
  "at_front (m_read_buffer (new_server_connection ty slot))" "view (m_read_buffer (new_server_connection ty slot)) = []"
  "length (m_buffer (m_read_buffer (new_server_connection ty slot))) = 128"
  "m_write_index (m_write_buffer (new_server_connection ty slot)) = 0"
  by (simp_all add: at_front_def new_server_connection_def buffer_wf_def INT_MAX_def view_def readAble_def)

definition server_wf :: "('msg, 'w) tcp_server \<Rightarrow> bool" where
  "server_wf s \<longleftrightarrow> io_pool_wf (m_io_pool s) \<and> map_wf (m_clients s) \<and> \<not> m_is_stop_accept s \<and>
     (m_family s = AF_INET \<or> m_family s = AF_UNIX)"

lemma m_pending_tasks_addTask: "m_pending_tasks (addTask t v r) = m_pending_tasks r @ [t]"
  by (simp add: addTask_def wakeup_def Let_def)

lemma on_thread_wf:
  assumes "io_pool_wf p" and "map m_thread (m_io_threads (on_thread i f p)) = map m_thread (m_io_threads p)"
  shows "length (m_io_threads (on_thread i f p)) = length (m_io_threads p)" "io_pool_wf (on_thread i f p)"
    "next_thread (on_thread i f p) = next_thread p"
  using assms unfolding io_pool_wf_def next_thread_def by (auto simp: on_thread_def)

lemma accept_turn_accepts:
  assumes "server_wf s" and "fd \<noteq> -1" and "fits_int (m_tcp_counts s + 1)"
  shows "\<exists>s'. accept_turn fd peer slot cor s = Inr s' \<and> server_wf s' \<and>
    m_tcp_counts s' = m_tcp_counts s + 1 \<and> m_protocal_type s' = m_protocal_type s \<and>
    map_get (m_clients s') = (map_get (m_clients s))(fd \<mapsto> Some (new_server_connection (m_protocal_type s) slot)) \<and>
    m_pending_tasks (m_main_reactor s') = m_pending_tasks (m_main_reactor s) @ [Some (Fresh_Task slot)] \<and>
    length (m_io_threads (m_io_pool s')) = length (m_io_threads (m_io_pool s)) \<and>
    next_thread (m_io_pool s') = Suc (next_thread (m_io_pool s)) mod length (m_io_threads (m_io_pool s)) \<and>
    (\<forall>i < length (m_io_threads (m_io_pool s)). pending_of i s' = pending_of i s @
       (if i = next_thread (m_io_pool s) then [Some (Resume_Task cor)] else []))"
proof -
  from assms(1) have w: "io_pool_wf (m_io_pool s)" "map_wf (m_clients s)" "m_family s = AF_INET \<or> m_family s = AF_UNIX"
    by (simp_all add: server_wf_def)
  from getIOThread_next [OF w(1)] obtain p where p: "getIOThread (m_io_pool s) = Inr (next_thread (m_io_pool s), p)"
    "io_pool_wf p" "m_io_threads p = m_io_threads (m_io_pool s)"
    "next_thread p = Suc (next_thread (m_io_pool s)) mod length (m_io_threads (m_io_pool s))" by blast
  let ?i = "next_thread (m_io_pool s)" and ?f = "addCoroutine Resume_Task cor True"
  let ?p = "on_thread ?i ?f p"
  have l: "m_io_threads (m_io_pool s) \<noteq> []" using w(1) by (simp add: io_pool_wf_def)
  then have i: "?i < length (m_io_threads p)" by (simp add: next_thread_def p(3))
  have th: "map m_thread (m_io_threads ?p) = map m_thread (m_io_threads p)"
    by (rule nth_equalityI) (use i in \<open>auto simp: on_thread_def nth_list_update\<close>)
  have p'': "length (m_io_threads ?p) = length (m_io_threads p)" "io_pool_wf ?p" "next_thread ?p = next_thread p"
    using on_thread_wf [OF p(2) th] .
  have pend: "m_pending_tasks (io_reactor (m_io_threads ?p ! j)) =
      m_pending_tasks (io_reactor (m_io_threads p ! j)) @ (if j = ?i then [Some (Resume_Task cor)] else [])"
    if "j < length (m_io_threads p)" for j
    using that i by (simp add: on_thread_def nth_list_update addCoroutine_def m_pending_tasks_addTask)
  have "new_connection ServerConnection (m_protocal_type s) 128 =
      Inr ((new_server_connection (m_protocal_type s) slot)\<lparr>m_weak_slot := None\<rparr>)"
    by (simp add: new_connection_def initBuffer_def new_TcpBuffer_def new_vector_def new_server_connection_def)
  moreover have "map_get (map_put fd (Some c) (map_put fd d (m_clients s))) = (map_get (m_clients s))(fd \<mapsto> Some c)"
    "map_wf (map_put fd (Some c) (map_put fd d (m_clients s)))" for c d
    using w(2) by (simp_all add: map_get_put map_wf_put)
  ultimately show ?thesis
    using w(3) assms(1-3) p(1,3,4) p'' pend
    by (auto simp: accept_turn_def toAccept_def addClient_def initServer_def registerToTimeWheel_def
        freshTcpConnection_def Let_def m_pending_tasks_addTask server_wf_def pending_of_def new_server_connection_def)
qed

text \<open>
  A turn does to the reactors and the clients what \<open>IOThread::addClient\<close> would; it is \<open>initServer\<close>, in the
  turn only, that gives the coroutine its callback.
\<close>

lemma accept_turn_addClient:
  assumes "getIOThread (m_io_pool s) = Inr (i, p)" and "m_family s = AF_INET" and "fd \<noteq> -1"
    and "addClient fd (s\<lparr>m_peer_address := Some peer, m_io_pool := p\<rparr>) = Inr (conn, s')"
  shows "accept_turn fd peer slot cor s =
    (let s = thread_addClient i fd slot cor conn s'
     in bindE (chk (m_tcp_counts s + 1)) (\<lambda>n. Inr (s\<lparr>m_tcp_counts := n\<rparr>)))"
  using assms
  by (simp add: accept_turn_def toAccept_def initServer_def thread_addClient_def setUpServer_def Let_def split: prod.splits)

text \<open>The tasks that \<open>k\<close> connections leave in thread \<open>i\<close> of \<open>n\<close>, dealt out from thread \<open>b\<close> on.\<close>

definition dealt :: "nat \<Rightarrow> nat \<Rightarrow> nat \<Rightarrow> nat list \<Rightarrow> server_task option list" where
  "dealt n b i cors = map (\<lambda>(j, c). Some (Resume_Task c)) (filter (\<lambda>(j, c). (b + j) mod n = i) (enumerate 0 cors))"

lemma dealt_Cons:
  assumes "b < n"
  shows "dealt n b i (c # cors) = (if i = b then [Some (Resume_Task c)] else []) @ dealt n (Suc b mod n) i cors"
proof -
  have e: "enumerate (Suc 0) cors = map (\<lambda>(j, c). (Suc j, c)) (enumerate 0 cors)"
    by (simp add: enumerate_eq_zip map_Suc_upt [symmetric] zip_map1 case_prod_unfold del: upt_Suc)
  have "(b + Suc j) mod n = (Suc b mod n + j) mod n" for j by (simp add: mod_simps)
  with assms show ?thesis
    by (simp add: dealt_def e filter_map comp_def case_prod_unfold)
qed

lemma MainAcceptCorFunc_accepts:
  assumes "server_wf s" and "\<forall>(fd, peer, slot, cor) \<in> set as. fd \<noteq> -1" and "0 \<le> m_tcp_counts s"
    and "m_tcp_counts s + int (length as) \<le> INT_MAX"
  shows "\<exists>s'. MainAcceptCorFunc as s = Inr s' \<and> server_wf s' \<and> m_tcp_counts s' = m_tcp_counts s + int (length as) \<and>
    m_pending_tasks (m_main_reactor s') = m_pending_tasks (m_main_reactor s) @
      map (\<lambda>(fd, peer, slot, cor). Some (Fresh_Task slot)) as \<and>
    map_get (m_clients s') = map_get (m_clients s) ++
      map_of (rev (map (\<lambda>(fd, peer, slot, cor). (fd, Some (new_server_connection (m_protocal_type s) slot))) as)) \<and>
    (\<forall>i < length (m_io_threads (m_io_pool s)). pending_of i s' = pending_of i s @
       dealt (length (m_io_threads (m_io_pool s))) (next_thread (m_io_pool s)) i
         (map (\<lambda>(fd, peer, slot, cor). cor) as))"
  using assms
proof (induction as arbitrary: s)
  case Nil
  then show ?case by (simp add: dealt_def)
next
  case (Cons a as)
  obtain fd peer slot cor where a: "a = (fd, peer, slot, cor)" by (cases a)
  let ?n = "length (m_io_threads (m_io_pool s))"
  have f: "fd \<noteq> -1" "fits_int (m_tcp_counts s + 1)" using Cons.prems a by (auto intro!: fits_int_nonneg)
  from accept_turn_accepts [OF Cons.prems(1) f, of peer slot cor] obtain s1 where
    s1: "accept_turn fd peer slot cor s = Inr s1" "server_wf s1" "m_tcp_counts s1 = m_tcp_counts s + 1"
    "m_protocal_type s1 = m_protocal_type s"
    "map_get (m_clients s1) = (map_get (m_clients s))(fd \<mapsto> Some (new_server_connection (m_protocal_type s) slot))"
    "m_pending_tasks (m_main_reactor s1) = m_pending_tasks (m_main_reactor s) @ [Some (Fresh_Task slot)]"
    "length (m_io_threads (m_io_pool s1)) = ?n"
    "next_thread (m_io_pool s1) = Suc (next_thread (m_io_pool s)) mod ?n"
    "\<forall>i < ?n. pending_of i s1 = pending_of i s @ (if i = next_thread (m_io_pool s) then [Some (Resume_Task cor)] else [])"
    by blast
  have "0 < ?n" using Cons.prems(1) by (simp add: server_wf_def io_pool_wf_def)
  then have b: "next_thread (m_io_pool s) < ?n" by (simp add: next_thread_def)
  from Cons.IH [OF s1(2)] Cons.prems s1(3) a obtain s' where
    s': "MainAcceptCorFunc as s1 = Inr s'" "server_wf s'" "m_tcp_counts s' = m_tcp_counts s1 + int (length as)"
    "m_pending_tasks (m_main_reactor s') = m_pending_tasks (m_main_reactor s1) @
      map (\<lambda>(fd, peer, slot, cor). Some (Fresh_Task slot)) as"
    "map_get (m_clients s') = map_get (m_clients s1) ++
      map_of (rev (map (\<lambda>(fd, peer, slot, cor). (fd, Some (new_server_connection (m_protocal_type s1) slot))) as))"
    "\<forall>i < length (m_io_threads (m_io_pool s1)). pending_of i s' = pending_of i s1 @
       dealt (length (m_io_threads (m_io_pool s1))) (next_thread (m_io_pool s1)) i (map (\<lambda>(fd, peer, slot, cor). cor) as)"
    by auto
  have "\<not> m_is_stop_accept s" using Cons.prems(1) by (simp add: server_wf_def)
  with s' s1 show ?case
    by (intro exI [of _ s']) (simp add: a dealt_Cons [OF b] map_add_def fun_eq_iff split: option.split)
qed

lemma io_start_started:
  "io_pool_wf (io_start p) = io_pool_wf p" "\<forall>t \<in> set (m_io_threads (io_start p)). io_started t"
  by (auto simp: io_pool_wf_def io_start_def comp_def)

lemma acceptor_init_eq_Inr:
  "acceptor_init l = Inr fd \<longleftrightarrow> fd = rt_socket l \<and> 0 \<le> rt_socket l \<and> rt_bind l = 0 \<and> rt_listen l = 0"
  by (auto simp: acceptor_init_def)

text \<open>A server that can listen takes the connections that wait for it and starts all its threads.\<close>

lemma server_start_returns:
  assumes "server_wf s" and "\<forall>(fd, peer, slot, cor) \<in> set as. fd \<noteq> -1" and "m_tcp_counts s = 0"
    and "int (length as) \<le> INT_MAX" and "acceptor_init l = Inr fd"
  shows "returns (server_start l as s) (\<lambda>s'. server_wf s' \<and> m_tcp_counts s' = int (length as) \<and>
    (\<forall>t \<in> set (m_io_threads (m_io_pool s')). io_started t))"
proof -
  from MainAcceptCorFunc_accepts [OF assms(1,2)] assms(3,4) obtain s1 where
    "MainAcceptCorFunc as s = Inr s1" "server_wf s1" "m_tcp_counts s1 = int (length as)" by auto
  with assms(5) io_start_started [of "m_io_pool s1"] show ?thesis by (simp add: server_start_def server_wf_def)
qed

section \<open>Properties\<close>

definition example_server :: "(string, nat) tcp_server" where
  "example_server =
     \<lparr>m_family = AF_INET, m_peer_address = None, m_tcp_counts = 0, m_is_stop_accept = False,
      m_protocal_type = Http_Protocal, m_services = [], m_http_servlets = [],
      m_io_pool = new_IOThreadPool (map (\<lambda>i. (new_Reactor (\<lambda>fd. 0 \<le> fd) (int i), i)) [11, 12]),
      m_clients = [], m_main_reactor = setReactorType MainReactor (new_Reactor (\<lambda>fd. 0 \<le> fd) 5),
      m_time_wheel = new_TcpTimeWheel 6 10,
      m_timer_events = (\<lambda>_. new_TimerEvent 0 10 False Clear_Clients),
      m_main_timer = \<lparr>m_pending_events = [], m_expiry = None\<rparr>\<rparr>"

definition example_peer :: net_address where
  "example_peer = IPAddress (IPAddress_of (\<lambda>_. 7) ''10.0.0.9'' 4000)"

text \<open>
  C18: However many clients connect, every one of them gets a fresh open connection under its
  descriptor, its slot is handed to the time wheel in the main reactor's tasks, and its
  coroutine is queued, in the order of arrival, on the threads of the pool in turn: from thread
  zero on, the \<open>j\<close>-th of them on thread \<open>j mod n\<close>.
\<close>

theorem server_shares_connections:
  assumes "server_wf s" and "\<forall>(fd, peer, slot, cor) \<in> set as. fd \<noteq> -1" and "m_tcp_counts s = 0"
    and "int (length as) \<le> INT_MAX" and "next_thread (m_io_pool s) = 0"
  shows "returns (MainAcceptCorFunc as s) (\<lambda>s'. m_tcp_counts s' = int (length as) \<and>
    m_pending_tasks (m_main_reactor s') = m_pending_tasks (m_main_reactor s) @
      map (\<lambda>(fd, peer, slot, cor). Some (Fresh_Task slot)) as \<and>
    map_get (m_clients s') = map_get (m_clients s) ++
      map_of (rev (map (\<lambda>(fd, peer, slot, cor). (fd, Some (new_server_connection (m_protocal_type s) slot))) as)) \<and>
    (\<forall>i < length (m_io_threads (m_io_pool s)). pending_of i s' = pending_of i s @
       map (\<lambda>(j, fd, peer, slot, cor). Some (Resume_Task cor))
         (filter (\<lambda>(j, _). j mod length (m_io_threads (m_io_pool s)) = i) (enumerate 0 as))))"
proof -
  have "dealt n 0 i (map (\<lambda>(fd, peer, slot, cor). cor) as) =
      map (\<lambda>(j, fd, peer, slot, cor). Some (Resume_Task cor)) (filter (\<lambda>(j, _). j mod n = i) (enumerate 0 as))" for n i
    by (simp add: dealt_def enumerate_eq_zip zip_map2 filter_map comp_def case_prod_unfold)
  with MainAcceptCorFunc_accepts [OF assms(1,2)] assms(3-5) show ?thesis by (auto simp: returns_iff)
qed

lemma example_server_wf: "server_wf example_server" "next_thread (m_io_pool example_server) = 0"
  using new_IOThreadPool_wf [of "map (\<lambda>i. (new_Reactor (\<lambda>fd. 0 \<le> fd) (int i), i)) [11, 12 :: nat] :: (server_task reactor \<times> nat) list",
    unfolded list.map prod.sel, simplified]
  by (simp_all add: server_wf_def example_server_def map_wf_Nil)

lemma server_shares_connections_witness:
  "returns (MainAcceptCorFunc [(20, example_peer, 1, 7), (21, example_peer, 2, 8), (22, example_peer, 3, 9)] example_server)
     (\<lambda>s'. pending_of 0 s' = [Some (Resume_Task 7), Some (Resume_Task 9)])"
proof -
  let ?as = "[(20, example_peer, 1, 7), (21, example_peer, 2, 8), (22, example_peer, 3, 9)]"
  have "pending_of 0 example_server = []" "length (m_io_threads (m_io_pool example_server)) = 2"
    "m_tcp_counts example_server = 0"
    by (simp_all add: pending_of_def example_server_def new_IOThreadPool_def setThreadIndex_def new_IOThread_def
        setReactorType_def new_Reactor_def addWakeupFd_def epoll_ctl_def)
  then show ?thesis
    using server_shares_connections [OF example_server_wf(1), of ?as] example_server_wf(2)
    by (auto simp: INT_MAX_def elim!: returns_mono)
qed

lemma map_get_map_values: "map_get (map (\<lambda>(k, v). (k, f v)) m) k = map_option f (map_get m k)"
  by (induction m) (auto simp: map_get_def)

text \<open>
  The periodic clearing drops exactly the closed connections: under a descriptor there is
  afterwards what was there, except that a closed connection has given way to a null pointer;
  no entry is removed, and clearing again changes nothing.
\<close>

theorem server_clears_closed_connections:
  "map_get (m_clients (ClearClientTimerFunc s)) fd =
     (case map_get (m_clients s) fd of
        Some (Some c) \<Rightarrow> Some (if m_state c = Closed then None else Some c)
      | x \<Rightarrow> x) \<and>
   map fst (m_clients (ClearClientTimerFunc s)) = map fst (m_clients s) \<and>
   ClearClientTimerFunc (ClearClientTimerFunc s) = ClearClientTimerFunc s"
proof -
  define f where "f c = (case c of Some conn \<Rightarrow> if m_state conn = Closed then None else c | None \<Rightarrow> None)"
    for c :: "tcp_connection option"
  have c: "ClearClientTimerFunc s = s\<lparr>m_clients := map (\<lambda>(fd, c). (fd, f c)) (m_clients s)\<rparr>" for s :: "('a, 'b) tcp_server"
    by (simp add: ClearClientTimerFunc_def f_def)
  have "f (f x) = f x" for x by (simp add: f_def split: option.split)
  then have "ClearClientTimerFunc (ClearClientTimerFunc s) = ClearClientTimerFunc s"
    by (simp add: c case_prod_unfold comp_def)
  moreover have "map fst (m_clients (ClearClientTimerFunc s)) = map fst (m_clients s)"
    by (simp add: c case_prod_unfold comp_def)
  moreover have "map_get (m_clients (ClearClientTimerFunc s)) fd = map_option f (map_get (m_clients s) fd)"
    by (simp add: c map_get_map_values)
  ultimately show ?thesis by (simp add: f_def split: option.split)
qed

end
