(* ===== verification/Tcp_Client.thy ===== *)
theory Tcp_Client
  imports Connection_Turn Rpc_Controller
begin

text \<open>
  The client: \<open>net/tcp/tcp_client.h\<close> and \<open>net/tcp/tcp_client.cc\<close>. As for a connection, what
  happens while it waits is an argument: the results of the connection attempts, each with
  whether the call's timer has fired meanwhile, the write events and the socket. The effects on
  the timer and on the descriptor come out as actions; the number of a new socket is not kept.
\<close>

section \<open>The code\<close>

datatype sys_errno = ECONNREFUSED | EAFNOSUPPORT | ETIMEDOUT | Other_Errno

record tcp_client =
  m_max_timeout :: int
  m_try_counts :: int
  m_is_stop :: bool
  m_err_info :: string
  m_peer :: net_address
  m_connection :: tcp_connection

datatype client_action = Add_Timer int | Del_Timer | Reset_Fd | Stop_Reactor

definition new_TcpClient :: "net_address \<Rightarrow> protocal_type \<Rightarrow> tcp_client res" where
  "new_TcpClient addr ty =
     bindE (new_connection ClientConnection ty 128) (\<lambda>c.
     Inr \<lparr>m_max_timeout = 10000, m_try_counts = 3, m_is_stop = False, m_err_info = [],
          m_peer = addr, m_connection = c\<rparr>)"

definition on_connection :: "(tcp_connection \<Rightarrow> tcp_connection) \<Rightarrow> tcp_client \<Rightarrow> tcp_client" where
  "on_connection f cl = cl\<lparr>m_connection := f (m_connection cl)\<rparr>"

definition client_setTimeout :: "int \<Rightarrow> tcp_client \<Rightarrow> tcp_client" where
  "client_setTimeout v cl = cl\<lparr>m_max_timeout := v\<rparr>"

definition client_stop :: "tcp_client \<Rightarrow> tcp_client \<times> client_action list" where
  "client_stop cl = (if \<not> m_is_stop cl then (cl\<lparr>m_is_stop := True\<rparr>, [Stop_Reactor]) else (cl, []))"

text \<open>\<open>resetFd\<close> replaces the socket of the client, not the one of its connection.\<close>

definition resetFd :: "client_action list" where
  "resetFd = [Reset_Fd]"

datatype connect_end = Connect_Done | Connect_Timeout | Connect_Error int | Connect_Waits

fun connect_loop ::
  "(sys_errno \<Rightarrow> string) \<Rightarrow> (int \<times> sys_errno \<times> bool) list \<Rightarrow> tcp_client \<Rightarrow>
   connect_end \<times> tcp_client \<times> client_action list" where
  "connect_loop strerror evs cl =
     (if m_state (m_connection cl) \<noteq> Connected then
        (case evs of
           [] \<Rightarrow> (Connect_Waits, cl, [])
         | (rt, errno, is_timeout) # evs \<Rightarrow>
             let cl = (if is_timeout then on_connection (setOverTimeFlag True) cl else cl) in
             if rt = 0 then (Connect_Done, on_connection setUpClient cl, [])
             else if is_timeout then (Connect_Timeout, cl, resetFd)
             else if errno = ECONNREFUSED then
               (Connect_Error ERROR_PEER_CLOSED,
                cl\<lparr>m_err_info := ''connect error, peer[ '' @ toString (m_peer cl) @ '' ] closed.''\<rparr>,
                resetFd @ [Del_Timer])
             else if errno = EAFNOSUPPORT then
               (Connect_Error ERROR_CONNECT_SYS_ERR,
                cl\<lparr>m_err_info := ''connect cur sys ror, errinfo is '' @ strerror errno @ '' ] closed.''\<rparr>,
                resetFd @ [Del_Timer])
             else (case connect_loop strerror evs cl of (e, cl, acts) \<Rightarrow> (e, cl, resetFd @ acts)))
      else (Connect_Done, cl, []))"

declare connect_loop.simps [simp del]

datatype client_end =
    Client_Returns int "flconcpb_struct option"
  | Client_Waits
  | Client_Parked

text \<open>The code behind the label \<open>err_deal\<close>. It does not delete the timer event of the call.\<close>

definition err_deal :: "bool \<Rightarrow> tcp_client \<Rightarrow> client_end \<times> tcp_client \<times> client_action list" where
  "err_deal is_timeout cl =
     (if is_timeout then
        (Client_Returns ERROR_RPC_CALL_TIMEOUT None,
         on_connection (setOverTimeFlag False)
           (cl\<lparr>m_err_info := ''call rpc falied, over '' @ show_int (m_max_timeout cl) @ '' ms''\<rparr>),
         [Reset_Fd])
      else
        (Client_Returns ERROR_PEER_CLOSED None,
         cl\<lparr>m_err_info := ''call rpc falied, peer closed ['' @ toString (m_peer cl) @ '']''\<rparr>,
         [Reset_Fd]))"

definition no_dispatch :: "unit \<Rightarrow> app_data \<Rightarrow> tcp_buffer \<Rightarrow> (unit \<times> tcp_buffer) res" where
  "no_dispatch s d out = Inr (s, out)"

text \<open>
  The loop that waits for the reply, with fuel for its rounds and for \<open>execute\<close>. \<open>in_main\<close>: on
  the main coroutine, \<open>Yield\<close> does nothing and \<open>input\<close> returns after closing the connection;
  on any other one it never does.
\<close>

fun recv_loop ::
  "nat \<Rightarrow> nat \<Rightarrow> bool \<Rightarrow> string \<Rightarrow> socket \<Rightarrow> tcp_client \<Rightarrow>
   (client_end \<times> socket \<times> tcp_client \<times> client_action list) res option" where
  "recv_loop 0 fuel in_main no sk cl = None"
| "recv_loop (Suc n) fuel in_main no sk cl =
     (case getResPackageData no (m_connection cl) of
        (Some res, c) \<Rightarrow>
          Some (Inr (Client_Returns 0 (Some res), sk, cl\<lparr>m_connection := c, m_err_info := []\<rparr>, [Del_Timer]))
      | (None, c) \<Rightarrow>
          (case conn_input sk c of
             Inl e \<Rightarrow> Some (Inl e)
           | Inr (e, sk, c, _) \<Rightarrow>
               let cl = cl\<lparr>m_connection := c\<rparr> in
               if e = Waits then Some (Inr (Client_Waits, sk, cl, []))
               else if e = Parked \<and> \<not> in_main then Some (Inr (Client_Parked, sk, cl, []))
               else if m_is_over_time c then
                 Some (case err_deal True cl of (e, cl, acts) \<Rightarrow> Inr (e, sk, cl, acts))
               else if m_state c = Closed then
                 Some (case err_deal False cl of (e, cl, acts) \<Rightarrow> Inr (e, sk, cl, acts))
               else case conn_execute fuel no_dispatch ((), c) of
                 None \<Rightarrow> None
               | Some (Inl e) \<Rightarrow> Some (Inl e)
               | Some (Inr (_, c)) \<Rightarrow> recv_loop n fuel in_main no sk (cl\<lparr>m_connection := c\<rparr>)))"

text \<open>\<open>sendAndRecvFlconcPb\<close>: what was sent, how it ended, and the actions in their order.\<close>

definition sendAndRecvFlconcPb ::
  "(sys_errno \<Rightarrow> string) \<Rightarrow> nat \<Rightarrow> nat \<Rightarrow> bool \<Rightarrow> (int \<times> sys_errno \<times> bool) list \<Rightarrow>
   (write_event \<times> bool) list \<Rightarrow> string \<Rightarrow> socket \<Rightarrow> tcp_client \<Rightarrow>
   (char list \<times> client_end \<times> socket \<times> tcp_client \<times> client_action list) res option" where
  "sendAndRecvFlconcPb strerror n fuel in_main connects writes no sk cl =
     (let start = [Add_Timer (m_max_timeout cl)] in
      case connect_loop strerror connects cl of
        (Connect_Waits, cl, acts) \<Rightarrow> Some (Inr ([], Client_Waits, sk, cl, start @ acts))
      | (Connect_Timeout, cl, acts) \<Rightarrow>
          Some (case err_deal True cl of (e, cl, acts') \<Rightarrow> Inr ([], e, sk, cl, start @ acts @ acts'))
      | (Connect_Error e, cl, acts) \<Rightarrow> Some (Inr ([], Client_Returns e None, sk, cl, start @ acts))
      | (Connect_Done, cl, acts) \<Rightarrow>
          if m_state (m_connection cl) \<noteq> Connected then
            Some (Inr ([], Client_Returns ERROR_FAILED_CONNECT None, sk,
              cl\<lparr>m_err_info := ''connect peer addr['' @ toString (m_peer cl) @ ''] error. sys error=''
                               @ strerror Other_Errno\<rparr>, start @ acts @ [Del_Timer]))
          else
            (case conn_output writes (setUpClient (m_connection cl)) of
               Inl e \<Rightarrow> Some (Inl e)
             | Inr (sent, e, c) \<Rightarrow>
                 let cl = cl\<lparr>m_connection := c\<rparr> in
                 if e \<noteq> Returns then Some (Inr (sent, Client_Waits, sk, cl, start @ acts))
                 else if m_is_over_time c then
                   Some (case err_deal True cl of (e, cl, acts') \<Rightarrow> Inr (sent, e, sk, cl, start @ acts @ acts'))
                 else map_option (\<lambda>r. bindE r (\<lambda>(e, sk, cl, acts'). Inr (sent, e, sk, cl, start @ acts @ acts')))
                        (recv_loop n fuel in_main no sk cl)))"

section \<open>Properties\<close>

text \<open>A client whose connection has a request in its write buffer.\<close>

definition example_client :: "tcp_connection_state \<Rightarrow> tcp_client" where
  "example_client st =
     \<lparr>m_max_timeout = 5000, m_try_counts = 3, m_is_stop = False, m_err_info = [],
      m_peer = IPAddress (IPAddress_of (\<lambda>_. 7) ''10.0.0.1'' 80),
      m_connection = (example_conn ClientConnection FlconcPb_Protocal [] ''ask'')
        \<lparr>m_state := st, m_read_buffer := \<lparr>m_read_index = 0, m_write_index = 0, m_buffer = replicate 128 NUL\<rparr>\<rparr>\<rparr>"

definition no_error :: "sys_errno \<Rightarrow> string" where
  "no_error _ = ''''"

lemma client_call_reply:
  assumes "m_state (m_connection cl) = Connected \<and> connects = [] \<or> connects = [(0, err, False)]"
    and "m_connection_type (m_connection cl) = ClientConnection"
    and "m_codec (m_connection cl) = FlconcPb_Protocal" and "m_reply_datas (m_connection cl) = []"
    and "conn_output writes (setUpClient (m_connection cl)) = Inr (sent, Returns, c1)"
    and "\<not> m_is_over_time c1" and "m_state c1 = Connected"
    and "m_connection_type c1 = ClientConnection \<and> m_codec c1 = FlconcPb_Protocal \<and>
         m_reply_datas c1 = [] \<and> m_read_buffer c1 = m_read_buffer (m_connection cl)"
    and "buffer_wf (m_read_buffer (m_connection cl))" and "view (m_read_buffer (m_connection cl)) = []"
    and "sk_pending sk = concat (map package ds)" and "\<forall>d \<in> set ds. pb_fits d"
    and "takes_all (m_read_buffer (m_connection cl)) (length (sk_pending sk))"
    and "find (\<lambda>d. msg_req d = no) ds = Some d" and "1 < n" and "length ds < fuel"
  shows "\<exists>sk' cl'. sendAndRecvFlconcPb strerror n fuel in_main connects writes no sk cl =
    Some (Inr (sent, Client_Returns 0 (Some (received d new_FlconcPbStruct)), sk', cl',
               [Add_Timer (m_max_timeout cl), Del_Timer]))"
proof -
  obtain n' where n: "n = Suc (Suc n')" using assms(15) by (cases n; cases "n - 1") auto
  have "ds \<noteq> []" using assms(14) by auto
  then have ne: "sk_pending sk \<noteq> []"
    using assms(11) length_package by (cases ds) (auto simp: package_def pb_bytes_def)
  have cd: "connect_loop strerror connects cl = (Connect_Done, on_connection setUpClient cl, []) \<or>
      connect_loop strerror connects cl = (Connect_Done, cl, []) \<and> m_state (m_connection cl) = Connected"
  proof (cases "m_state (m_connection cl) = Connected")
    case True
    then show ?thesis by (subst (2) connect_loop.simps) simp
  next
    case False
    with assms(1) have "connects = [(0, err, False)]" by simp
    with False show ?thesis by (subst connect_loop.simps) (simp add: Let_def)
  qed
  let ?cl = "cl\<lparr>m_connection := c1\<rparr>"
  obtain b acts where i: "conn_input sk c1 = Inr (Returns, sk\<lparr>sk_pending := []\<rparr>, c1\<lparr>m_read_buffer := b\<rparr>, acts)"
    "buffer_wf b" "view b = concat (map package ds)"
    using conn_input_takes_all [of c1 sk] assms(6-11,13) ne by auto
  let ?c2 = "c1\<lparr>m_read_buffer := b\<rparr>"
  obtain c3 where e: "conn_execute fuel no_dispatch ((), ?c2) = Some (Inr ((), c3))"
    "fst (getResPackageData no c3) = Some (received d new_FlconcPbStruct)"
    using client_replies [of ?c2 ds fuel no_dispatch "()" no] assms(8,12,14,16) i(2,3) by auto
  obtain c4 where g: "getResPackageData no c3 = (Some (received d new_FlconcPbStruct), c4)"
    using e(2) by (cases "getResPackageData no c3") auto
  have g0: "getResPackageData no c1 = (None, c1)" using assms(8) by (simp add: getResPackageData_def map_get_Nil)
  have "recv_loop n fuel in_main no sk ?cl =
      Some (Inr (Client_Returns 0 (Some (received d new_FlconcPbStruct)), sk\<lparr>sk_pending := []\<rparr>,
        (?cl\<lparr>m_connection := c3\<rparr>)\<lparr>m_connection := c4, m_err_info := []\<rparr>, [Del_Timer]))"
    using assms(6,7) by (simp add: n g0 i(1) e(1) g Let_def)
  then show ?thesis
    using cd assms(5-7)
    by (elim disjE) (simp_all add: sendAndRecvFlconcPb_def on_connection_def setUpClient_def setState_def Let_def)
qed

text \<open>
  A call on a client that is connected, or whose first attempt connects, sends its write
  buffer and, when the packages that come back do not fill the read buffer exactly, returns
  code zero with the first reply that has the message number of the call. The timer event of
  the call is added first and deleted at the end.
\<close>

theorem client_call_returns_reply:
  assumes "m_state (m_connection cl) = Connected \<and> connects = [] \<or> connects = [(0, err, False)]"
    and "m_connection_type (m_connection cl) = ClientConnection"
    and "m_codec (m_connection cl) = FlconcPb_Protocal" and "m_reply_datas (m_connection cl) = []"
    and "conn_output writes (setUpClient (m_connection cl)) = Inr (sent, Returns, c1)"
    and "\<not> m_is_over_time c1" and "m_state c1 = Connected"
    and "m_connection_type c1 = ClientConnection \<and> m_codec c1 = FlconcPb_Protocal \<and>
         m_reply_datas c1 = [] \<and> m_read_buffer c1 = m_read_buffer (m_connection cl)"
    and "buffer_wf (m_read_buffer (m_connection cl))" and "view (m_read_buffer (m_connection cl)) = []"
    and "sk_pending sk = concat (map package ds)" and "\<forall>d \<in> set ds. pb_fits d"
    and "takes_all (m_read_buffer (m_connection cl)) (length (sk_pending sk))"
    and "find (\<lambda>d. msg_req d = no) ds = Some d" and "1 < n" and "length ds < fuel"
  shows "\<exists>sk' cl'. sendAndRecvFlconcPb strerror n fuel in_main connects writes no sk cl =
    Some (Inr (sent, Client_Returns 0 (Some (received d new_FlconcPbStruct)), sk', cl',
               [Add_Timer (m_max_timeout cl), Del_Timer]))"
  using assms by (rule client_call_reply)

lemma client_call_returns_reply_witness:
  "\<exists>sk' cl'. sendAndRecvFlconcPb no_error 2 2 False [(0, Other_Errno, False)] [(Takes 9, False)] ''4217''
      \<lparr>sk_pending = package pb_example, sk_events = []\<rparr> (example_client NotConnected) =
    Some (Inr (''ask'', Client_Returns 0 (Some (received pb_example new_FlconcPbStruct)), sk', cl',
               [Add_Timer 5000, Del_Timer]))"
proof -
  let ?cl = "example_client NotConnected" and ?sk = "\<lparr>sk_pending = package pb_example, sk_events = []\<rparr>"
  have o: "\<not> isl (conn_output [(Takes 9, False)] (setUpClient (m_connection ?cl)))" by code_simp
  then obtain sent e c1 where c1: "conn_output [(Takes 9, False)] (setUpClient (m_connection ?cl)) = Inr (sent, e, c1)"
    by (cases "conn_output [(Takes 9, False)] (setUpClient (m_connection ?cl))") auto
  have "case_sum (\<lambda>_. False) (\<lambda>(sent, e, c1). sent = ''ask'' \<and> e = Returns \<and> \<not> m_is_over_time c1 \<and>
      m_state c1 = Connected \<and> m_connection_type c1 = ClientConnection \<and> m_codec c1 = FlconcPb_Protocal \<and>
      m_reply_datas c1 = [] \<and> m_read_buffer c1 = m_read_buffer (m_connection ?cl))
      (conn_output [(Takes 9, False)] (setUpClient (m_connection ?cl)))" by code_simp
  then have f: "sent = ''ask''" "e = Returns" "\<not> m_is_over_time c1" "m_state c1 = Connected"
    "m_connection_type c1 = ClientConnection \<and> m_codec c1 = FlconcPb_Protocal \<and>
         m_reply_datas c1 = [] \<and> m_read_buffer c1 = m_read_buffer (m_connection ?cl)" by (simp_all add: c1)
  have m: "msg_req pb_example = ''4217''" "length (package pb_example) = 36"
    by (simp_all add: pb_example_def length_package pb_example_fits [unfolded pb_example_def])
  show ?thesis
    using client_call_returns_reply [where strerror = no_error and n = 2 and fuel = 2 and in_main = False
        and cl = ?cl and sk = ?sk and ds = "[pb_example]" and no = "''4217''", OF _ _ _ _ c1 [unfolded f(1,2)] f(3-5)]
    by (simp add: example_client_def example_conn_def m pb_example_fits buffer_wf_def INT_MAX_def view_def
        readAble_def writeAble_def wrap32_nonneg takes_all_def)
qed

text \<open>
  C37: When the server closes the connection before it has replied, a call made from a coroutine
  never returns: \<open>input\<close> parks the coroutine, so the code that would report the closed peer is
  not reached, and the timer event of the call stays behind, unable to resume it. On the main
  coroutine the same call reports the closed peer, also without deleting the event.
\<close>

theorem client_parked_by_closed_peer:
  assumes "m_state (m_connection cl) = Connected" and "m_reply_datas (m_connection cl) = []"
    and "conn_output writes (setUpClient (m_connection cl)) = Inr (sent, Returns, c1)"
    and "\<not> m_is_over_time c1" and "m_state c1 = Connected" and "m_reply_datas c1 = []"
    and "buffer_wf (m_read_buffer c1)" and "0 < writeAble (m_read_buffer c1)"
    and "sk_pending sk = []" and "sk_events sk = (Read_Failed, False) # evs" and "0 < n"
  shows "\<exists>sk' cl' cl''.
    sendAndRecvFlconcPb strerror n fuel False [] writes no sk cl =
      Some (Inr (sent, Client_Parked, sk', cl', [Add_Timer (m_max_timeout cl)])) \<and>
    sendAndRecvFlconcPb strerror n fuel True [] writes no sk cl =
      Some (Inr (sent, Client_Returns ERROR_PEER_CLOSED None, sk', cl'', [Add_Timer (m_max_timeout cl), Reset_Fd]))"
proof -
  obtain n' where n: "n = Suc n'" using assms(11) by (cases n) auto
  let ?sk = "sk\<lparr>sk_events := evs\<rparr>" and ?c = "c1\<lparr>m_read_buffer := m_read_buffer c1, m_is_over_time := False\<rparr>"
  let ?c2 = "setState Closed (?c\<lparr>m_stop := True\<rparr>)"
  have "input_round sk c1 = Inr (Some Peer_Closed, ?sk, ?c)"
    using assms(8-10) by (simp add: input_round_def make_room_def read_hook_def Let_def)
  then have "input_loop sk c1 = Inr (Peer_Closed, ?sk, ?c)" by (subst input_loop.simps) simp
  then have i: "conn_input sk c1 = Inr (Parked, ?sk, ?c2, [Unregister_Fd, Close_Fd])"
    using assms(4,5) by (simp add: conn_input_def clearClient_def)
  have cd: "connect_loop strerror [] cl = (Connect_Done, cl, [])"
    using assms(1) by (subst connect_loop.simps) simp
  have g0: "getResPackageData no c1 = (None, c1)" using assms(6) by (simp add: getResPackageData_def map_get_Nil)
  show ?thesis
    using cd assms(1,3-5) i
    by (simp add: sendAndRecvFlconcPb_def n g0 Let_def setState_def err_deal_def)
qed

lemma client_parked_by_closed_peer_witness:
  "\<exists>sk' cl'. sendAndRecvFlconcPb no_error 1 1 False [] [(Takes 9, False)] ''4217''
      \<lparr>sk_pending = [], sk_events = [(Read_Failed, False)]\<rparr> (example_client Connected) =
    Some (Inr (''ask'', Client_Parked, sk', cl', [Add_Timer 5000]))"
proof -
  let ?cl = "example_client Connected" and ?sk = "\<lparr>sk_pending = [], sk_events = [(Read_Failed, False)]\<rparr>"
  have o: "\<not> isl (conn_output [(Takes 9, False)] (setUpClient (m_connection ?cl)))" by code_simp
  then obtain sent e c1 where c1: "conn_output [(Takes 9, False)] (setUpClient (m_connection ?cl)) = Inr (sent, e, c1)"
    by (cases "conn_output [(Takes 9, False)] (setUpClient (m_connection ?cl))") auto
  have "case_sum (\<lambda>_. False) (\<lambda>(sent, e, c1). sent = ''ask'' \<and> e = Returns \<and> \<not> m_is_over_time c1 \<and>
      m_state c1 = Connected \<and> m_reply_datas c1 = [] \<and> m_read_buffer c1 = m_read_buffer (m_connection ?cl))
      (conn_output [(Takes 9, False)] (setUpClient (m_connection ?cl)))" by code_simp
  then have f: "sent = ''ask''" "e = Returns" "\<not> m_is_over_time c1" "m_state c1 = Connected"
    "m_reply_datas c1 = []" "m_read_buffer c1 = m_read_buffer (m_connection ?cl)" by (simp_all add: c1)
  show ?thesis
    using client_parked_by_closed_peer [where strerror = no_error and n = 1 and fuel = 1
        and cl = ?cl and sk = ?sk and no = "''4217''" and evs = "[]", OF _ _ c1 [unfolded f(1,2)] f(3-5)]
    by (auto simp: f(6) example_client_def example_conn_def buffer_wf_def INT_MAX_def
        writeAble_def wrap32_nonneg)
qed

end
