(* ===== verification/Rpc_Channel.thy ===== *)
theory Rpc_Channel
  imports Tcp_Client Run_Time
begin

text \<open>
  The client side of a remote call: \<open>net/flconcpb/flconcpb_rpc_channel.cc\<close> and
  \<open>net/flconcpb/flconcpb_rpc_async_channel.cc\<close>. Protocol Buffers is an argument: \<open>serialize\<close> and
  \<open>parse\<close> of the message types of the call. The environment of the client is a record of the
  arguments \<open>sendAndRecvFlconcPb\<close> takes.
\<close>

section \<open>The synchronous channel\<close>

record client_env =
  env_strerror :: "sys_errno \<Rightarrow> string"
  env_rounds :: nat
  env_fuel :: nat
  env_in_main :: bool
  env_connects :: "(int \<times> sys_errno \<times> bool) list"
  env_writes :: "(write_event \<times> bool) list"
  env_socket :: socket

text \<open>
  How a call ends: it returns, having run the closure or not, or its coroutine waits or is
  parked in the client. \<open>Sent_Nothing\<close> is a return before anything was sent.
\<close>

datatype 'msg call_end =
    Sent_Nothing rpc_controller
  | Call_Failed "char list" rpc_controller "client_action list"
  | Call_Done "char list" rpc_controller 'msg bool "client_action list"
  | Call_Suspended "char list" client_end "client_action list"

definition local_address :: "(string \<Rightarrow> 32 word) \<Rightarrow> net_address" where
  "local_address inet_addr = IPAddress (IPAddress_of inet_addr ''127.0.0.1'' 0)"

text \<open>The message number of the call: the controller's, else that of the run time, else a new one.\<close>

definition call_number ::
  "('m \<Rightarrow> (string \<times> 'm) res) \<Rightarrow> 'm \<Rightarrow> run_time option \<Rightarrow> rpc_controller \<Rightarrow> (string \<times> rpc_controller \<times> 'm) res" where
  "call_number gen m rt controller =
     (if m_msg_req controller \<noteq> [] then Inr (m_msg_req controller, controller, m)
      else
        bindE (case rt of
                 Some rt \<Rightarrow> if m_msg_no rt \<noteq> [] then Inr (m_msg_no rt, m) else gen m
               | None \<Rightarrow> gen m) (\<lambda>(no, m).
        Inr (no, SetMsgReq no controller, m)))"

definition CallMethod ::
  "('m \<Rightarrow> (string \<times> 'm) res) \<Rightarrow> (string \<Rightarrow> 32 word) \<Rightarrow> ('req \<Rightarrow> string option) \<Rightarrow> (string \<Rightarrow> 'res option) \<Rightarrow>
   client_env \<Rightarrow> net_address \<Rightarrow> 'm \<Rightarrow> run_time option \<Rightarrow> string \<Rightarrow> rpc_controller \<Rightarrow> 'req \<Rightarrow> bool \<Rightarrow>
   ('m \<times> 'res call_end) res option" where
  "CallMethod gen inet_addr serialize parse env addr m rt full_name controller request done_set =
     (case new_TcpClient addr FlconcPb_Protocal of
        Inl e \<Rightarrow> Some (Inl e)
      | Inr client \<Rightarrow>
          let controller = SetPeerAddr (m_peer client) (SetLocalAddr (local_address inet_addr) controller) in
          case serialize request of
            None \<Rightarrow> Some (Inr (m, Sent_Nothing controller))
          | Some data \<Rightarrow>
              (case call_number gen m rt controller of
                 Inl e \<Rightarrow> Some (Inl e)
               | Inr (no, controller, m) \<Rightarrow>
                   let pb_struct = new_FlconcPbStruct\<lparr>service_full_name := full_name, pb_data := data, msg_req := no\<rparr> in
                   case encode gen m (m_write_buffer (m_connection client)) pb_struct of
                     Inl e \<Rightarrow> Some (Inl e)
                   | Inr (m, out, pb_struct) \<Rightarrow>
                       if \<not> encode_succ pb_struct then
                         Some (Inr (m, Sent_Nothing (SetError ERROR_FAILED_ENCODE ''encode flconcpb data error'' controller)))
                       else
                         let client = client_setTimeout (m_timeout controller)
                               (on_connection (\<lambda>c. c\<lparr>m_write_buffer := out\<rparr>) client) in
                         map_option (\<lambda>r. bindE r (\<lambda>(sent, e, sk, client, acts).
                           case e of
                             Client_Returns rt res \<Rightarrow>
                               if rt \<noteq> 0 then
                                 Inr (m, Call_Failed sent (SetError rt (m_err_info client) controller) acts)
                               else (case res of
                                 None \<Rightarrow> Inl Null_Pointer
                               | Some res_data \<Rightarrow>
                                   Inr (m, case parse (pb_data res_data) of
                                      None \<Rightarrow> Call_Failed sent (SetError ERROR_FAILED_DESERIALIZE
                                                ''failed to deserialize data from server'' controller) acts
                                    | Some response \<Rightarrow>
                                        if err_code res_data \<noteq> 0 then
                                          Call_Failed sent (SetError (err_code res_data) (err_info res_data) controller) acts
                                        else Call_Done sent controller response done_set acts))
                           | _ \<Rightarrow> Inr (m, Call_Suspended sent e acts)))
                           (sendAndRecvFlconcPb (env_strerror env) (env_rounds env) (env_fuel env)
                              (env_in_main env) (env_connects env) (env_writes env)
                              (msg_req pb_struct) (env_socket env) client)))"

section \<open>A call that is answered\<close>

text \<open>What the caller is told, given the reply that came back.\<close>

definition call_result ::
  "(string \<Rightarrow> 'res option) \<Rightarrow> char list \<Rightarrow> rpc_controller \<Rightarrow> bool \<Rightarrow> client_action list \<Rightarrow> flconcpb_struct \<Rightarrow> 'res call_end" where
  "call_result parse sent c done_set acts d =
     (case parse (pb_data d) of
        None \<Rightarrow> Call_Failed sent (SetError 10000003 ''failed to deserialize data from server'' c) acts
      | Some response \<Rightarrow>
          if err_code d \<noteq> 0 then Call_Failed sent (SetError (err_code d) (err_info d) c) acts
          else Call_Done sent c response done_set acts)"

lemma new_client:
  "\<exists>cl. new_TcpClient addr FlconcPb_Protocal = Inr cl \<and> m_peer cl = addr \<and>
    m_connection_type (m_connection cl) = ClientConnection \<and> m_codec (m_connection cl) = FlconcPb_Protocal \<and>
    m_reply_datas (m_connection cl) = [] \<and> m_state (m_connection cl) = NotConnected \<and>
    \<not> m_is_over_time (m_connection cl) \<and> buffer_wf (m_read_buffer (m_connection cl)) \<and>
    view (m_read_buffer (m_connection cl)) = [] \<and> at_front (m_read_buffer (m_connection cl)) \<and>
    length (m_buffer (m_read_buffer (m_connection cl))) = 128 \<and>
    buffer_wf (m_write_buffer (m_connection cl)) \<and> view (m_write_buffer (m_connection cl)) = [] \<and>
    m_write_index (m_write_buffer (m_connection cl)) = 0"
  by (simp add: new_TcpClient_def new_connection_def initBuffer_def new_TcpBuffer_def new_vector_def
      buffer_wf_def INT_MAX_def view_def readAble_def at_front_def)

lemma CallMethod_answered:
  assumes "serialize request = Some data" and "call_number gen m rt controller0 = Inr (no, controller, m')"
    and "controller0 = SetPeerAddr addr (SetLocalAddr (local_address inet_addr) c)"
    and "pk = new_FlconcPbStruct\<lparr>service_full_name := full_name, pb_data := data, msg_req := no\<rparr>"
    and "pb_fits pk" and "env_connects env = [(0, err, False)]" and "env_writes env = [(Takes k, False)]"
    and "pb_size pk \<le> k" and "sk_pending (env_socket env) = concat (map package ds)"
    and "\<forall>d \<in> set ds. pb_fits d" and "read_at_once (length (sk_pending (env_socket env)))"
    and "find (\<lambda>d. msg_req d = no) ds = Some d" and "1 < env_rounds env" and "length ds < env_fuel env"
  shows "CallMethod gen inet_addr serialize parse env addr m rt full_name c request done_set =
    Some (Inr (m', call_result parse (package pk) controller done_set
      [Add_Timer (m_timeout controller), Del_Timer] (received d new_FlconcPbStruct)))"
proof -
  from new_client [of addr] obtain cl where cl: "new_TcpClient addr FlconcPb_Protocal = Inr cl" "m_peer cl = addr"
    "m_connection_type (m_connection cl) = ClientConnection" "m_codec (m_connection cl) = FlconcPb_Protocal"
    "m_reply_datas (m_connection cl) = []" "m_state (m_connection cl) = NotConnected"
    "\<not> m_is_over_time (m_connection cl)" "buffer_wf (m_read_buffer (m_connection cl))"
    "view (m_read_buffer (m_connection cl)) = []" "at_front (m_read_buffer (m_connection cl))"
    "length (m_buffer (m_read_buffer (m_connection cl))) = 128"
    "buffer_wf (m_write_buffer (m_connection cl))" "view (m_write_buffer (m_connection cl)) = []"
    "m_write_index (m_write_buffer (m_connection cl)) = 0" by blast
  have lim: "int (pb_size pk) \<le> WRITE_LIMIT" using assms(5) by (simp add: pb_fits_def pb_sized_def)
  have sz: "pb_sized pk" "service_full_name pk \<noteq> []" "msg_req pk \<noteq> []" "msg_req pk = no"
    using assms(4,5) by (simp_all add: pb_fits_def)
  obtain out where out: "writeToBuffer (m_write_buffer (m_connection cl)) (package pk) = Inr out"
    "buffer_wf out" "view out = package pk"
    using writeToBuffer_used [OF cl(12), of "package pk"] lim cl(13,14) by (auto simp: length_package elim!: returnsE)
  obtain pk' where enc: "encode gen m' (m_write_buffer (m_connection cl)) pk = Inr (m', out, pk')"
    "encode_succ pk'" "msg_req pk' = no"
    using encode_given_msg_req [OF sz(2,3,1), of gen m'] out(1) sz(4) by auto
  let ?cl = "client_setTimeout (m_timeout controller) (on_connection (\<lambda>c. c\<lparr>m_write_buffer := out\<rparr>) cl)"
  let ?c = "setUpClient (m_connection ?cl)"
  have f: "m_write_buffer ?c = out" "m_state ?c = Connected" "\<not> m_is_over_time ?c"
    using cl by (simp_all add: setUpClient_def setState_def client_setTimeout_def on_connection_def)
  have ne: "package pk \<noteq> []" by (simp add: package_def pb_bytes_def)
  obtain b where o: "conn_output [(Takes k, False)] ?c = Inr (package pk, Returns, ?c\<lparr>m_write_buffer := b\<rparr>)"
    using conn_output_one_write [of ?c k] f out(2,3) ne assms(8) by (auto simp: length_package)
  have "\<exists>sk' cl'. sendAndRecvFlconcPb (env_strerror env) (env_rounds env) (env_fuel env) (env_in_main env)
      [(0, err, False)] [(Takes k, False)] no (env_socket env) ?cl =
    Some (Inr (package pk, Client_Returns 0 (Some (received d new_FlconcPbStruct)), sk', cl',
               [Add_Timer (m_max_timeout ?cl), Del_Timer]))"
    by (rule client_call_reply [OF _ _ _ _ o, where ds = ds])
      (use assms(9-14) cl f in \<open>simp_all add: setUpClient_def setState_def client_setTimeout_def on_connection_def
        read_at_once_takes_all\<close>)
  then obtain sk' cl' where s: "sendAndRecvFlconcPb (env_strerror env) (env_rounds env) (env_fuel env) (env_in_main env)
      [(0, err, False)] [(Takes k, False)] no (env_socket env) ?cl =
    Some (Inr (package pk, Client_Returns 0 (Some (received d new_FlconcPbStruct)), sk', cl',
               [Add_Timer (m_timeout controller), Del_Timer]))"
    by (auto simp: client_setTimeout_def)
  show ?thesis
    unfolding CallMethod_def cl(1)
    by (simp add: cl(2) assms(1,2,6,7) assms(3) [symmetric] assms(4) [symmetric] Let_def enc s call_result_def
        error_codes split: option.split)
qed

section \<open>Properties\<close>

definition example_env :: "char list \<Rightarrow> client_env" where
  "example_env reply =
     \<lparr>env_strerror = no_error, env_rounds = 2, env_fuel = 2, env_in_main = False,
      env_connects = [(0, Other_Errno, False)], env_writes = [(Takes 99, False)],
      env_socket = \<lparr>sk_pending = reply, sk_events = []\<rparr>\<rparr>"

text \<open>
  A call that connects and whose reply comes back sends exactly one package, with the
  method's name, the serialized request and the message number, and tells the caller what the
  reply says: the server's error code and text, or the parsed response, after which the closure
  runs. A reply whose data does not parse is reported as such even when the server had sent an
  error code with it.
\<close>

theorem rpc_call_reports_reply:
  assumes "serialize request = Some data"
    and "call_number gen m rt (SetPeerAddr addr (SetLocalAddr (local_address inet_addr) c)) = Inr (no, controller, m')"
    and "pk = new_FlconcPbStruct\<lparr>service_full_name := full_name, pb_data := data, msg_req := no\<rparr>"
    and "pb_fits pk" and "env_connects env = [(0, err, False)]" and "env_writes env = [(Takes k, False)]"
    and "pb_size pk \<le> k" and "sk_pending (env_socket env) = concat (map package ds)"
    and "\<forall>d \<in> set ds. pb_fits d" and "read_at_once (length (sk_pending (env_socket env)))"
    and "find (\<lambda>d. msg_req d = no) ds = Some d" and "1 < env_rounds env" and "length ds < env_fuel env"
  shows "CallMethod gen inet_addr serialize parse env addr m rt full_name c request done_set =
    Some (Inr (m',
      (case parse (pb_data d) of
         None \<Rightarrow> Call_Failed (package pk) (SetError ERROR_FAILED_DESERIALIZE
                  ''failed to deserialize data from server'' controller) [Add_Timer (m_timeout controller), Del_Timer]
       | Some response \<Rightarrow>
           if err_code d \<noteq> 0 then
             Call_Failed (package pk) (SetError (err_code d) (err_info d) controller) [Add_Timer (m_timeout controller), Del_Timer]
           else Call_Done (package pk) controller response done_set [Add_Timer (m_timeout controller), Del_Timer])))"
  using CallMethod_answered [where serialize = serialize and request = request and gen = gen and m = m and rt = rt
      and ?controller0.0 = "SetPeerAddr addr (SetLocalAddr (local_address inet_addr) c)",
      OF assms(1,2) refl assms(3-13), of parse done_set]
  by (simp add: call_result_def received_def error_codes split: option.split)

lemma rpc_call_reports_reply_witness:
  "CallMethod (\<lambda>m. Inr (''4217'', m)) (\<lambda>_. 7) Some Some (example_env (package pb_example))
     (IPAddress (IPAddress_of (\<lambda>_. 7) ''10.0.0.1'' 80)) () None ''S.m'' new_RpcController ''ask'' True =
   Some (Inr ((), Call_Failed
     (package (new_FlconcPbStruct\<lparr>service_full_name := ''S.m'', pb_data := ''ask'', msg_req := ''4217''\<rparr>))
     (SetError (-1) ''e'' (SetMsgReq ''4217'' (SetPeerAddr (IPAddress (IPAddress_of (\<lambda>_. 7) ''10.0.0.1'' 80))
        (SetLocalAddr (local_address (\<lambda>_. 7)) new_RpcController))))
     [Add_Timer 5000, Del_Timer]))"
proof -
  let ?addr = "IPAddress (IPAddress_of (\<lambda>_. 7) ''10.0.0.1'' 80)"
  let ?c = "SetPeerAddr ?addr (SetLocalAddr (local_address (\<lambda>_. 7)) new_RpcController)"
  let ?pk = "new_FlconcPbStruct\<lparr>service_full_name := ''S.m'', pb_data := ''ask'', msg_req := ''4217''\<rparr>"
  have c: "call_number (\<lambda>m. Inr (''4217'', m)) () None ?c = Inr (''4217'', SetMsgReq ''4217'' ?c, ())"
    by (simp add: call_number_def SetPeerAddr_def SetLocalAddr_def new_RpcController_def)
  have k: "pb_fits ?pk" "pb_size ?pk \<le> 99"
    by (simp_all add: pb_fits_def pb_sized_def pb_size_def new_FlconcPbStruct_def WRITE_LIMIT_def NUL_def
        fits_int_def INT_MIN_def INT_MAX_def)
  have m: "msg_req pb_example = ''4217''" "pb_data pb_example = ''pq''" "err_code pb_example = -1"
    "err_info pb_example = ''e''" by (simp_all add: pb_example_def)
  have t: "m_timeout (SetMsgReq ''4217'' ?c) = 5000"
    by (simp add: SetMsgReq_def SetPeerAddr_def SetLocalAddr_def new_RpcController_def)
  show ?thesis
    using rpc_call_reports_reply [where serialize = Some and parse = Some and ds = "[pb_example]" and d = pb_example
        and env = "example_env (package pb_example)" and err = Other_Errno and k = 99, OF _ c refl k(1) _ _ k(2)]
    by (simp add: example_env_def m t pb_example_fits length_package read_at_onceI)
qed

end
