(* ===== verification/Rpc_Round.thy ===== *)
theory Rpc_Round
  imports Tcp_Server Rpc_Channel
begin

text \<open>
  A call from the client's channel through the server's connection and dispatcher and back: the
  theories of the two sides put together.
\<close>

section \<open>The dispatcher of a connection\<close>

text \<open>
  \<open>m_tcp_svr->getDispatcher()->dispatch(data.get(), this)\<close> for a server that speaks protobuf; the cast
  of other data fails and nothing is done. The state is that of the message numbers and of the
  application, and the coroutine's run time.
\<close>

definition server_dispatch ::
  "('m \<Rightarrow> (string \<times> 'm) res) \<Rightarrow> ('msg, 'w) services \<Rightarrow> ('m \<times> 'w) \<times> run_time \<Rightarrow> app_data \<Rightarrow> tcp_buffer \<Rightarrow>
   ((('m \<times> 'w) \<times> run_time) \<times> tcp_buffer) res" where
  "server_dispatch gen m_service_map st data out =
     (case data of
        Pb_Data tmp \<Rightarrow>
          bindE (rpc_dispatch gen m_service_map (fst st) (snd st) tmp out) (\<lambda>(mw, rt, pk, out). Inr ((mw, rt), out))
      | Http_Data _ \<Rightarrow> Inr (st, out))"

lemma server_dispatch_Pb:
  "server_dispatch gen ss (mw, rt) (Pb_Data tmp) out =
     bindE (rpc_dispatch gen ss mw rt tmp out) (\<lambda>(mw, rt, pk, out). Inr ((mw, rt), out))"
  by (simp add: server_dispatch_def)

section \<open>Requests on one connection\<close>

text \<open>The answers to requests in a row, each on the application state the one before has left.\<close>

fun answers ::
  "('msg, 'w) services \<Rightarrow> flconcpb_struct list \<Rightarrow> 'w \<Rightarrow> flconcpb_struct list \<times> 'w" where
  "answers ss [] w = ([], w)"
| "answers ss (d # ds) w =
     (let a = answer (lookup_call (map_get ss) (service_full_name d) (pb_data d)) (service_full_name d) (msg_req d) w
      in case answers ss ds (snd (snd (snd a))) of (rs, w') \<Rightarrow>
           (answer_struct (service_full_name d) (msg_req d) a # rs, w'))"

definition total_size :: "flconcpb_struct list \<Rightarrow> nat" where
  "total_size ds = sum_list (map pb_size ds)"

lemma length_packages: "length (concat (map package ds)) = total_size ds"
  by (induction ds) (simp_all add: total_size_def length_package)

text \<open>One request: the package of its answer, and what it leaves.\<close>

definition pb_answer :: "('msg, 'w) services \<Rightarrow> 'w \<Rightarrow> flconcpb_struct \<Rightarrow> flconcpb_struct \<times> 'w" where
  "pb_answer ss w d =
     (let a = answer (lookup_call (map_get ss) (service_full_name d) (pb_data d)) (service_full_name d) (msg_req d) w
      in (answer_struct (service_full_name d) (msg_req d) a, snd (snd (snd a))))"

definition pb_reply :: "('msg, 'w) services \<Rightarrow> 'm \<times> 'w \<Rightarrow> flconcpb_struct \<Rightarrow> char list \<times> ('m \<times> 'w)" where
  "pb_reply ss mw d = (case pb_answer ss (snd mw) d of (r, w) \<Rightarrow> (package r, (fst mw, w)))"

definition pb_served :: "('msg, 'w) services \<Rightarrow> 'm \<times> 'w \<Rightarrow> flconcpb_struct \<Rightarrow> bool" where
  "pb_served ss mw d \<longleftrightarrow> service_full_name d \<noteq> [] \<and> msg_req d \<noteq> [] \<and> pb_sized (fst (pb_answer ss (snd mw) d))"

interpretation rpc_server: answering_server FlconcPb_Protocal pb_fits package
  "\<lambda>d. Pb_Data (received d new_FlconcPbStruct)" "server_dispatch gen ss" fst "pb_served ss" "pb_reply ss"
  for gen :: "'m \<Rightarrow> (string \<times> 'm) res" and ss :: "('msg, 'w) services"
proof
  fix c :: tcp_connection and fs fuel and s :: "('m \<times> 'w) \<times> run_time"
  assume "m_connection_type c = ServerConnection" "m_codec c = FlconcPb_Protocal" "buffer_wf (m_read_buffer c)"
    "\<forall>f \<in> set fs. pb_fits f" "view (m_read_buffer c) = concat (map package fs)" "length fs < fuel"
  then show "\<exists>b'. drained (m_read_buffer c) [] b' \<and> conn_execute fuel (server_dispatch gen ss) (s, c) =
        Some (bindE (dispatch_all (server_dispatch gen ss) (map (\<lambda>d. Pb_Data (received d new_FlconcPbStruct)) fs) s
          (m_write_buffer c)) (\<lambda>(s, out). Inr (s, c\<lparr>m_read_buffer := b', m_write_buffer := out\<rparr>)))"
    by (rule execute_packages)
next
  fix f
  assume "pb_fits f"
  then show "package f \<noteq> []" by (rule pb_codec.wire_nonempty)
next
  fix s :: "('m \<times> 'w) \<times> run_time" and d t a and out :: tcp_buffer
  assume s: "pb_served ss (fst s) d" and r: "pb_reply ss (fst s) d = (t, a)" and wf: "buffer_wf out"
    and lim: "m_write_index out + int (length t) \<le> WRITE_LIMIT"
  obtain m w rt where st: "s = ((m, w), rt)" by (metis prod.exhaust)
  let ?n = "service_full_name d" and ?t = "received d new_FlconcPbStruct"
  define x where "x = answer (lookup_call (map_get ss) ?n (pb_data d)) ?n (msg_req d) w"
  let ?r = "answer_struct ?n (msg_req d) x"
  have f: "?n \<noteq> []" "msg_req d \<noteq> []" "pb_sized ?r" "t = package ?r" "a = (m, snd (snd (snd x)))"
    using s r by (simp_all add: pb_served_def pb_reply_def pb_answer_def st Let_def x_def)
  have g: "service_full_name ?t = ?n" "msg_req ?t = msg_req d" "pb_data ?t = pb_data d" by (simp_all add: received_def)
  have "returns (rpc_dispatch gen ss (m, w) rt ?t out) (\<lambda>((m1, w1), rt', pk, out').
    m1 = m \<and> w1 = snd (snd (snd x)) \<and> m_msg_no rt' = msg_req ?t \<and> buffer_wf out' \<and>
    view out' = view out @ package (answer_struct (service_full_name ?t) (msg_req d) x) \<and>
    m_write_index out' \<le> m_write_index out + int (pb_size (answer_struct (service_full_name ?t) (msg_req d) x)))"
    by (rule returns_rpc_dispatch) (use wf f lim g in \<open>simp_all add: x_def [symmetric] length_package\<close>)
  then show "\<exists>s' out'. server_dispatch gen ss s (Pb_Data ?t) out = Inr (s', out') \<and> fst s' = a \<and> buffer_wf out' \<and>
        view out' = view out @ t \<and> m_write_index out' \<le> m_write_index out + int (length t)"
    by (auto simp: st server_dispatch_Pb f(4,5) g length_package elim!: returnsE)
qed

text \<open>The answers of the library's \<open>replies\<close> are those of \<open>answers\<close>, package by package.\<close>

lemma answers_Cons:
  "answers ss (d # ds) w = (case pb_answer ss w d of (r, w) \<Rightarrow> case answers ss ds w of (rs, w) \<Rightarrow> (r # rs, w))"
  by (simp add: pb_answer_def Let_def)

lemma replies_pb:
  "answers ss ds w = (rs, w') \<Longrightarrow> replies (pb_reply ss) ds (m, w) = (concat (map package rs), (m, w'))"
proof (induction ds arbitrary: rs w)
  case (Cons d ds)
  then show ?case
    by (cases "pb_answer ss w d"; cases "answers ss ds (snd (pb_answer ss w d))")
      (auto simp: answers_Cons pb_reply_def simp del: answers.simps)
qed simp

lemma all_served_pb:
  "\<forall>d \<in> set ds. pb_fits d \<Longrightarrow> answers ss ds w = (rs, w') \<Longrightarrow> \<forall>r \<in> set rs. pb_sized r \<Longrightarrow>
   all_served (pb_served ss) (pb_reply ss) ds (m, w)"
proof (induction ds arbitrary: rs w)
  case (Cons d ds)
  then show ?case
    by (cases "pb_answer ss w d"; cases "answers ss ds (snd (pb_answer ss w d))")
      (auto simp: answers_Cons pb_reply_def pb_served_def pb_fits_def simp del: answers.simps)
qed simp

section \<open>Properties\<close>

text \<open>
  C4: Requests that reach a new connection of a protobuf server, in any number of bursts, are answered
  in their order: the bytes it sends are exactly the packages of the answers that the registered services
  give, each on the application state the one before has left. When it waits for more, what it has not
  answered is in its read buffer, and that is nothing when no burst takes two thirds of the buffer.
\<close>

theorem server_answers_in_order:
  assumes "\<forall>ds \<in> set dss. ds \<noteq> [] \<and> (\<forall>d \<in> set ds. pb_fits d)" and "2 * int (total_size (concat dss)) \<le> INT_MAX"
    and "answers ss (concat dss) w = (rs, w')" and "\<forall>r \<in> set rs. pb_sized r"
    and "int (total_size rs) \<le> WRITE_LIMIT" and "total_size rs \<le> k" and "length (concat dss) < fuel"
    and "length dss < n"
  shows "\<exists>front left acts rt' c'. dss = front @ left \<and>
    main_server_loop (server_dispatch gen ss) (replicate n (fuel, [(Takes k, False)])) (burst_socket package dss)
      (((m, w), rt), new_server_connection FlconcPb_Protocal slot) =
    Some (Inr (concat (map package (fst (answers ss (concat front) w))), acts, Waits,
      ((m, snd (answers ss (concat front) w)), rt'), c')) \<and>
    view (m_read_buffer c') = concat (map package (concat left)) \<and> view (m_write_buffer c') = [] \<and>
    ((\<forall>ds \<in> set dss. total_size ds \<le> 85) \<longrightarrow> left = [])"
proof -
  let ?c = "new_server_connection FlconcPb_Protocal slot" and ?s = "((m, w), rt)"
  have c: "m_write_index (m_read_buffer ?c) = 0" "m_write_index (m_write_buffer ?c) = 0"
    "length (m_buffer (m_read_buffer ?c)) = 128"
    by (simp_all add: new_server_connection_def)
  have sv: "all_served (pb_served ss) (pb_reply ss) (concat dss) (fst ?s)"
    using all_served_pb [of "concat dss" ss w rs w' m] assms(1,3,4) by simp
  have rp: "replies (pb_reply ss) (concat dss) (fst ?s) = (concat (map package rs), (m, w'))"
    using replies_pb [OF assms(3), of m] by simp
  have "2 * (m_write_index (m_read_buffer ?c) + int (length (concat (map package (concat dss))))) \<le> INT_MAX"
    "m_write_index (m_write_buffer ?c) + int (length (concat (map package rs))) \<le> WRITE_LIMIT"
    "length (concat (map package rs)) \<le> k"
    using assms(2,5,6) by (simp_all only: c length_packages add_0)
  from rpc_server.session [where gen = gen, OF new_connection_idle assms(1) this(1) sv rp this(2,3) assms(7,8)]
  obtain front left sent acts s' c' where r: "dss = front @ left"
    "main_server_loop (server_dispatch gen ss) (replicate n (fuel, [(Takes k, False)])) (burst_socket package dss) (?s, ?c) =
      Some (Inr (sent, acts, Waits, s', c'))"
    "replies (pb_reply ss) (concat front) (fst ?s) = (sent, fst s')"
    "view (m_read_buffer c') = concat (map package (concat left))" "view (m_write_buffer c') = []"
    and small: "(\<forall>ds \<in> set dss. small_burst (length (m_buffer (m_read_buffer ?c))) (concat (map package ds))) \<longrightarrow> left = []"
    by blast
  have left: "(\<forall>ds \<in> set dss. total_size ds \<le> 85) \<longrightarrow> left = []"
    using small by (simp only: c small_burst_128 length_packages)
  obtain rs1 w1 where a: "answers ss (concat front) w = (rs1, w1)" by (cases "answers ss (concat front) w")
  have sent: "sent = concat (map package rs1)" and "fst s' = (m, w1)"
    using replies_pb [OF a, of m] r(3) by simp_all
  then obtain rt' where s': "s' = ((m, w1), rt')" by (cases s') simp
  have "main_server_loop (server_dispatch gen ss) (replicate n (fuel, [(Takes k, False)])) (burst_socket package dss) (?s, ?c) =
    Some (Inr (concat (map package (fst (answers ss (concat front) w))), acts, Waits,
      ((m, snd (answers ss (concat front) w)), rt'), c'))"
    unfolding a fst_conv snd_conv by (rule r(2) [unfolded sent s'])
  with r(1,4,5) left show ?thesis by blast
qed

lemma new_connection_turn:
  assumes "pb_fits d" and "pb_answer ss w d = (r, w')" and "pb_sized r" and "read_at_once (pb_size d)"
    and "int (pb_size r) \<le> WRITE_LIMIT" and "pb_size r \<le> k" and "1 < fuel"
  shows "\<exists>acts rt' c'.
    main_server_loop (server_dispatch gen ss) ((fuel, [(Takes k, False)]) # rounds)
      \<lparr>sk_pending = package d, sk_events = evs\<rparr> (((m, w), rt), new_server_connection FlconcPb_Protocal slot) =
    map_option (\<lambda>x. bindE x (\<lambda>(sent, acts', e, s, c). Inr (package r @ sent, acts @ acts', e, s, c)))
      (main_server_loop (server_dispatch gen ss) rounds \<lparr>sk_pending = [], sk_events = evs\<rparr> (((m, w'), rt'), c'))"
proof -
  let ?c = "new_server_connection FlconcPb_Protocal slot" and ?sk = "\<lparr>sk_pending = package d, sk_events = evs\<rparr>"
  let ?s = "((m, w), rt)"
  have f: "[d] \<noteq> []" "\<forall>d \<in> set [d]. pb_fits d" "sk_pending ?sk = concat (map package [d])" "length [d] < fuel"
    using assms(1,7) by simp_all
  have t: "takes_all (m_read_buffer ?c) (length (sk_pending ?sk))"
    using read_at_once_takes_all [OF _ new_connection_at_front(1-3)] assms(4) by (simp add: length_package)
  have sv: "all_served (pb_served ss) (pb_reply ss) [d] (fst ?s)"
    using assms(1-3) by (simp add: pb_served_def pb_fits_def)
  have rp: "replies (pb_reply ss) [d] (fst ?s) = (package r, (m, w'))"
    using assms(2) by (simp add: pb_reply_def)
  have l: "m_write_index (m_write_buffer ?c) + int (length (package r)) \<le> WRITE_LIMIT" "length (package r) \<le> k"
    using assms(5,6) by (simp_all only: new_connection_at_front(4) length_package add_0)
  from rpc_server.burst_answered [where gen = gen, OF new_connection_idle f(1-3) t sv rp l f(4), of rounds]
  obtain acts s' c' where "fst s' = (m, w')" "main_server_loop (server_dispatch gen ss) ((fuel, [(Takes k, False)]) # rounds) ?sk (?s, ?c) =
      map_option (\<lambda>x. bindE x (\<lambda>(sent, acts', e, s, c). Inr (package r @ sent, acts @ acts', e, s, c)))
        (main_server_loop (server_dispatch gen ss) rounds (?sk\<lparr>sk_pending := []\<rparr>) (s', c'))" by blast
  then show ?thesis
    by (intro exI [of _ acts] exI [of _ "snd s'"] exI [of _ c']) (cases s', simp)
qed

text \<open>A call and its answer, seen from both sides.\<close>

lemma call_round:
  assumes "serialize request = Some data"
    and "call_number gen m rt (SetPeerAddr addr (SetLocalAddr (local_address inet_addr) c)) = Inr (no, controller, m')"
    and "pk = new_FlconcPbStruct\<lparr>service_full_name := full_name, pb_data := data, msg_req := no\<rparr>" and "pb_fits pk"
    and "answer (lookup_call (map_get ss) full_name data) full_name no w = a" and "rep = answer_struct full_name no a"
    and "pb_fits rep" and "read_at_once (pb_size pk)" and "read_at_once (pb_size rep)" and "pb_size pk \<le> k" and "pb_size rep \<le> k2"
    and "env_connects env = [(0, err, False)]" and "env_writes env = [(Takes k, False)]"
    and "1 < env_rounds env" and "1 < env_fuel env" and "1 < fuel"
    and "sk_pending (env_socket env) = package rep"
  shows "(\<exists>acts rt2 c2.
      main_server_loop (server_dispatch gen2 ss) ((fuel, [(Takes k2, False)]) # rounds)
        \<lparr>sk_pending = package pk, sk_events = evs\<rparr> (((m2, w), rt1), new_server_connection FlconcPb_Protocal slot) =
      map_option (\<lambda>r. bindE r (\<lambda>(sent, acts', e, s, c). Inr (package rep @ sent, acts @ acts', e, s, c)))
        (main_server_loop (server_dispatch gen2 ss) rounds \<lparr>sk_pending = [], sk_events = evs\<rparr>
          (((m2, snd (snd (snd a))), rt2), c2))) \<and>
    CallMethod gen inet_addr serialize parse env addr m rt full_name c request done_set =
      Some (Inr (m', call_result parse (package pk) controller done_set
        [Add_Timer (m_timeout controller), Del_Timer] rep))"
proof
  have pk: "service_full_name pk = full_name" "pb_data pk = data" "msg_req pk = no"
    by (simp_all add: assms(3) new_FlconcPbStruct_def)
  have rp: "pb_answer ss w pk = (rep, snd (snd (snd a)))" by (simp add: pb_answer_def pk assms(5,6))
  have sz: "pb_sized rep" "int (pb_size rep) \<le> WRITE_LIMIT" using assms(7) by (simp_all add: pb_fits_def pb_sized_def)
  show "\<exists>acts rt2 c2.
      main_server_loop (server_dispatch gen2 ss) ((fuel, [(Takes k2, False)]) # rounds)
        \<lparr>sk_pending = package pk, sk_events = evs\<rparr> (((m2, w), rt1), new_server_connection FlconcPb_Protocal slot) =
      map_option (\<lambda>r. bindE r (\<lambda>(sent, acts', e, s, c). Inr (package rep @ sent, acts @ acts', e, s, c)))
        (main_server_loop (server_dispatch gen2 ss) rounds \<lparr>sk_pending = [], sk_events = evs\<rparr>
          (((m2, snd (snd (snd a))), rt2), c2))"
    by (rule new_connection_turn [OF assms(4) rp sz(1) assms(8) sz(2) assms(11,16)])
  have m: "msg_req rep = no" by (simp add: assms(6) answer_struct_def case_prod_beta)
  have "call_result parse s cn ds acts (received rep new_FlconcPbStruct) = call_result parse s cn ds acts rep" for s cn ds acts
    by (simp add: call_result_def received_def split: option.split)
  then show "CallMethod gen inet_addr serialize parse env addr m rt full_name c request done_set =
      Some (Inr (m', call_result parse (package pk) controller done_set
        [Add_Timer (m_timeout controller), Del_Timer] rep))"
    using CallMethod_answered [where serialize = serialize and request = request and gen = gen and m = m and rt = rt
      and ?controller0.0 = "SetPeerAddr addr (SetLocalAddr (local_address inet_addr) c)",
      OF assms(1,2) refl assms(3,4,12,13,10), of "[rep]" rep parse done_set]
      assms(7,9,14,15,17) m by (simp add: length_package)
qed


text \<open>An echo service called by a client that has no message number of its own.\<close>

definition echo_pk :: flconcpb_struct where
  "echo_pk = new_FlconcPbStruct\<lparr>service_full_name := ''Echo.echo'', pb_data := ''hi'', msg_req := ''4217''\<rparr>"

definition echo_reply :: flconcpb_struct where
  "echo_reply = answer_struct ''Echo.echo'' ''4217'' (0, [], ''hi!'', 6 :: nat)"

lemma echo_fits: "pb_fits echo_pk" "pb_fits echo_reply" "pb_size echo_pk = 41" "pb_size echo_reply = 42"
  by (simp_all add: echo_pk_def echo_reply_def answer_struct_def pb_fits_def pb_sized_def pb_size_def new_FlconcPbStruct_def
      WRITE_LIMIT_def NUL_def fits_int_def INT_MIN_def INT_MAX_def)

lemma echo_answers:
  "answers [(''Echo'', echo_service ''Echo'')] [echo_pk, echo_pk] 5 = ([echo_reply, echo_reply], 7)"
  by code_simp

lemma server_answers_in_order_witness:
  "\<exists>acts rt' c'.
    main_server_loop (server_dispatch (\<lambda>m. Inr ([], m)) [(''Echo'', echo_service ''Echo'')])
      (replicate 3 (3, [(Takes 99, False)])) (burst_socket package [[echo_pk], [echo_pk]])
      ((((), 5), new_RunTime), new_server_connection FlconcPb_Protocal 3) =
    Some (Inr (package echo_reply @ package echo_reply, acts, Waits, (((), 7), rt'), c'))"
proof -
  have "\<forall>ds \<in> set [[echo_pk], [echo_pk]]. ds \<noteq> [] \<and> (\<forall>d \<in> set ds. pb_fits d)"
    "2 * int (total_size (concat [[echo_pk], [echo_pk]])) \<le> INT_MAX"
    "answers [(''Echo'', echo_service ''Echo'')] (concat [[echo_pk], [echo_pk]]) 5 = ([echo_reply, echo_reply], 7)"
    "\<forall>r \<in> set [echo_reply, echo_reply]. pb_sized r" "int (total_size [echo_reply, echo_reply]) \<le> WRITE_LIMIT"
    "total_size [echo_reply, echo_reply] \<le> 99" "length (concat [[echo_pk], [echo_pk]]) < 3" "length [[echo_pk], [echo_pk]] < 3"
    using echo_fits echo_answers by (simp_all add: total_size_def pb_fits_def INT_MAX_def WRITE_LIMIT_def)
  from server_answers_in_order [OF this, of "\<lambda>m. Inr ([], m)" "()" new_RunTime 3] obtain front left acts rt' c' where
    r: "[[echo_pk], [echo_pk]] = front @ left"
    "main_server_loop (server_dispatch (\<lambda>m. Inr ([], m)) [(''Echo'', echo_service ''Echo'')])
      (replicate 3 (3, [(Takes 99, False)])) (burst_socket package [[echo_pk], [echo_pk]])
      ((((), 5), new_RunTime), new_server_connection FlconcPb_Protocal 3) =
    Some (Inr (concat (map package (fst (answers [(''Echo'', echo_service ''Echo'')] (concat front) 5))), acts, Waits,
      (((), snd (answers [(''Echo'', echo_service ''Echo'')] (concat front) 5)), rt'), c'))"
    "(\<forall>ds \<in> set [[echo_pk], [echo_pk]]. total_size ds \<le> 85) \<longrightarrow> left = []"
    by (elim exE conjE) (rule that)
  have "left = []" using r(3) by (simp add: total_size_def echo_fits)
  then have "front = [[echo_pk], [echo_pk]]" using r(1) by simp
  then have "concat front = [echo_pk, echo_pk]" by simp
  with r(2) show ?thesis by (auto simp: echo_answers simp del: answers.simps)
qed


text \<open>
  C15: Requests that are complete but fill the read buffer of a new connection exactly, that is of
  128 bytes or a doubling of it altogether, are not answered: \<open>input\<close> takes the full read for a sign of
  more and waits, with all of them in the buffer, whatever the dispatcher is.
\<close>

theorem server_stalls_on_full_buffer:
  assumes "ds \<noteq> []" and "fills 128 (total_size ds)" and "2 * int (total_size ds) \<le> INT_MAX"
  shows "\<exists>c'. main_server_loop dispatch ((fuel, evs) # rounds) \<lparr>sk_pending = concat (map package ds), sk_events = []\<rparr>
      (s, new_server_connection FlconcPb_Protocal slot) = Some (Inr ([], [], Waits, s, c')) \<and>
    view (m_read_buffer c') = concat (map package ds)"
proof -
  let ?c = "new_server_connection FlconcPb_Protocal slot"
  let ?sk = "\<lparr>sk_pending = concat (map package ds), sk_events = []\<rparr>"
  have c: "m_state ?c = Connected" "\<not> m_is_over_time ?c" "\<not> m_stop ?c" by (simp_all add: new_server_connection_def)
  have "package d \<noteq> []" for d by (simp add: package_def pb_bytes_def)
  then have p: "sk_pending ?sk \<noteq> []" using assms(1) by (cases ds) auto
  have l: "length (sk_pending ?sk) = total_size ds" by (simp add: length_packages)
  obtain b where "conn_input ?sk ?c = Inr (Waits, ?sk\<lparr>sk_pending := []\<rparr>, ?c\<lparr>m_read_buffer := b\<rparr>, [])"
    "view b = concat (map package ds)"
    using conn_input_fills [OF new_connection_at_front(1) c(1,2) p] assms(2,3) l
    by (auto simp: new_connection_at_front(2,3))
  with c(3) show ?thesis by (intro exI [of _ "?c\<lparr>m_read_buffer := b\<rparr>"]) simp
qed

definition full_pk :: flconcpb_struct where
  "full_pk = echo_pk\<lparr>pb_data := replicate 89 (CHR ''x'')\<rparr>"

lemma server_stalls_on_full_buffer_witness:
  "pb_fits full_pk \<and> (\<exists>c'. main_server_loop (server_dispatch (\<lambda>m. Inr ([], m)) [(''Echo'', echo_service ''Echo'')])
      [(2, [(Takes 99, False)])] \<lparr>sk_pending = package full_pk, sk_events = []\<rparr>
      ((((), 5), new_RunTime), new_server_connection FlconcPb_Protocal 3) =
    Some (Inr ([], [], Waits, (((), 5), new_RunTime), c')))"
proof
  show f: "pb_fits full_pk"
    by (simp add: full_pk_def echo_pk_def pb_fits_def pb_sized_def pb_size_def new_FlconcPbStruct_def
      WRITE_LIMIT_def NUL_def fits_int_def INT_MIN_def INT_MAX_def)
  have "total_size [full_pk] = 128"
    by (simp add: total_size_def full_pk_def echo_pk_def pb_size_def new_FlconcPbStruct_def)
  then show "\<exists>c'. main_server_loop (server_dispatch (\<lambda>m. Inr ([], m)) [(''Echo'', echo_service ''Echo'')])
      [(2, [(Takes 99, False)])] \<lparr>sk_pending = package full_pk, sk_events = []\<rparr>
      ((((), 5), new_RunTime), new_server_connection FlconcPb_Protocal 3) =
    Some (Inr ([], [], Waits, (((), 5), new_RunTime), c'))"
    using server_stalls_on_full_buffer [of "[full_pk]"
        "server_dispatch (\<lambda>m. Inr ([], m)) [(''Echo'', echo_service ''Echo'')]" 2 "[(Takes 99, False)]" "[]"
        "(((), 5), new_RunTime)" 3]
    by (auto simp: fills_def INT_MAX_def simp del: main_server_loop.simps)
qed

end
