(* ===== verification/Http_Round.thy ===== *)
theory Http_Round
  imports Tcp_Server
begin

text \<open>
  Requests and answers of a server that speaks HTTP: the connection of \<open>Connection_Turn\<close> with the
  dispatcher of \<open>Http_Dispatcher\<close>.
\<close>

section \<open>The dispatcher of a connection\<close>

text \<open>
  \<open>m_tcp_svr->getDispatcher()->dispatch(data.get(), this)\<close> for a server that speaks HTTP; the result of
  the cast of other data is used without a check. The state is that of the message numbers and the
  coroutine's run time.
\<close>

definition http_server_dispatch ::
  "('m \<Rightarrow> (string \<times> 'm) res) \<Rightarrow> servlets \<Rightarrow> 'm \<times> run_time \<Rightarrow> app_data \<Rightarrow> tcp_buffer \<Rightarrow>
   (('m \<times> run_time) \<times> tcp_buffer) res" where
  "http_server_dispatch gen m_servlets st data out =
     (case data of
        Http_Data resquest \<Rightarrow>
          bindE (http_dispatch gen m_servlets (fst st) (snd st) resquest out) (\<lambda>(m, rt, _, out). Inr ((m, rt), out))
      | Pb_Data _ \<Rightarrow> Inl Null_Pointer)"

section \<open>The contract of an answering dispatcher\<close>

text \<open>A request that is answered: it has a path, a message number can be drawn, and the servlet sets a code.\<close>

definition http_served :: "('m \<Rightarrow> (string \<times> 'm) res) \<Rightarrow> servlets \<Rightarrow> 'm \<Rightarrow> request_frame \<Rightarrow> bool" where
  "http_served gen ss m f \<longleftrightarrow>
     rf_url f \<noteq> [] \<and> \<not> isl (gen m) \<and> m_response_code (http_answer ss (rf_request f)) \<noteq> None"

definition http_reply :: "('m \<Rightarrow> (string \<times> 'm) res) \<Rightarrow> servlets \<Rightarrow> 'm \<Rightarrow> request_frame \<Rightarrow> char list \<times> 'm" where
  "http_reply gen ss m f = (http_page ss (rf_request f), case gen m of Inr (_, m') \<Rightarrow> m' | Inl _ \<Rightarrow> m)"

lemma rf_request_path: "m_request_path (rf_request f) = rf_url f"
  by (simp add: rf_request_def request_of_def)

interpretation http_server: answering_server Http_Protocal rf_ok rf_text "\<lambda>f. Http_Data (rf_request f)"
  "http_server_dispatch gen ss" fst "http_served gen ss" "http_reply gen ss"
  for gen :: "'m \<Rightarrow> (string \<times> 'm) res" and ss
proof
  fix c :: tcp_connection and fs fuel and s :: "'m \<times> run_time"
  assume "m_connection_type c = ServerConnection" "m_codec c = Http_Protocal" "buffer_wf (m_read_buffer c)"
    "\<forall>f \<in> set fs. rf_ok f" "view (m_read_buffer c) = concat (map rf_text fs)" "length fs < fuel"
  then show "\<exists>b'. drained (m_read_buffer c) [] b' \<and> conn_execute fuel (http_server_dispatch gen ss) (s, c) =
        Some (bindE (dispatch_all (http_server_dispatch gen ss) (map (\<lambda>f. Http_Data (rf_request f)) fs) s
          (m_write_buffer c)) (\<lambda>(s, out). Inr (s, c\<lparr>m_read_buffer := b', m_write_buffer := out\<rparr>)))"
    by (rule execute_requests)
next
  fix f
  assume "rf_ok f"
  then show "rf_text f \<noteq> []" by (rule http_codec.wire_nonempty)
next
  fix s :: "'m \<times> run_time" and f t a and out :: tcp_buffer
  assume s: "http_served gen ss (fst s) f" and r: "http_reply gen ss (fst s) f = (t, a)" and wf: "buffer_wf out"
    and lim: "m_write_index out + int (length t) \<le> WRITE_LIMIT"
  obtain m rt where st: "s = (m, rt)" by (cases s)
  obtain no m' code where g: "gen m = Inr (no, m')" "m_response_code (http_answer ss (rf_request f)) = Some code"
    "rf_url f \<noteq> []"
    using s by (cases "gen m") (auto simp: http_served_def st)
  have t: "t = http_page ss (rf_request f)" "a = m'" using r by (simp_all add: http_reply_def st g(1))
  have "returns (http_dispatch gen ss m rt (rf_request f) out) (\<lambda>(m1, rt', res', out'). m1 = m' \<and>
       rt' = \<lparr>m_msg_no = no, m_interface_name = getServletName (servlet_of ss (m_request_path (rf_request f)))\<rparr> \<and>
       buffer_wf out' \<and> view out' = view out @ t \<and> m_write_index out' \<le> m_write_index out + int (length t))"
    unfolding t(1) by (rule returns_dispatch [where gen = gen and m = m, OF wf _ g(1,2)]) (use g(3) lim t(1) in \<open>simp_all add: rf_request_path\<close>)
  then show "\<exists>s' out'. http_server_dispatch gen ss s (Http_Data (rf_request f)) out = Inr (s', out') \<and> fst s' = a \<and>
        buffer_wf out' \<and> view out' = view out @ t \<and> m_write_index out' \<le> m_write_index out + int (length t)"
    by (auto simp: st http_server_dispatch_def t(2) elim!: returnsE)
qed

text \<open>With a generator that always gives a number, every request is answered by its page.\<close>

lemma replies_http:
  "fst (replies (http_reply gen ss) fs m) = concat (map (\<lambda>f. http_page ss (rf_request f)) fs)"
  by (induction fs arbitrary: m) (simp_all add: http_reply_def case_prod_beta)

lemma all_served_http:
  assumes "\<forall>m. \<not> isl (gen m)"
    and "\<forall>f \<in> set fs. rf_url f \<noteq> [] \<and> m_response_code (http_answer ss (rf_request f)) \<noteq> None"
  shows "all_served (http_served gen ss) (http_reply gen ss) fs m"
  using assms(2) by (induction fs arbitrary: m) (simp_all add: http_served_def assms(1))

section \<open>Properties\<close>

text \<open>
  C14: Requests that reach a new connection of an HTTP server, in any number of bursts, are answered in
  their order: the bytes it sends are exactly the pages of their paths, the 404 page where no servlet is
  registered. When it waits for more, what it has not answered is in its read buffer, and that is
  nothing when no burst takes two thirds of the buffer.
\<close>

theorem http_server_answers_in_order:
  assumes "\<forall>fs \<in> set fss. fs \<noteq> [] \<and> (\<forall>f \<in> set fs. rf_ok f)"
    and "\<forall>f \<in> set (concat fss). rf_url f \<noteq> [] \<and> m_response_code (http_answer ss (rf_request f)) \<noteq> None"
    and "\<forall>m. \<not> isl (gen m)"
    and "2 * int (length (concat (map rf_text (concat fss)))) \<le> INT_MAX"
    and "pages = concat (map (\<lambda>f. http_page ss (rf_request f)) (concat fss))"
    and "int (length pages) \<le> WRITE_LIMIT" and "length pages \<le> k" and "length (concat fss) < fuel"
    and "length fss < n"
  shows "\<exists>front left acts m' rt' c'. fss = front @ left \<and>
    main_server_loop (http_server_dispatch gen ss) (replicate n (fuel, [(Takes k, False)])) (burst_socket rf_text fss)
      ((m, rt), new_server_connection Http_Protocal slot) =
    Some (Inr (concat (map (\<lambda>f. http_page ss (rf_request f)) (concat front)), acts, Waits, (m', rt'), c')) \<and>
    view (m_read_buffer c') = concat (map rf_text (concat left)) \<and> view (m_write_buffer c') = [] \<and>
    ((\<forall>fs \<in> set fss. length (concat (map rf_text fs)) \<le> 85) \<longrightarrow> left = [])"
proof -
  let ?c = "new_server_connection Http_Protocal slot" and ?s = "(m, rt)"
  have c: "m_write_index (m_read_buffer ?c) = 0" "m_write_index (m_write_buffer ?c) = 0"
    "length (m_buffer (m_read_buffer ?c)) = 128"
    by (simp_all add: new_server_connection_def)
  have sv: "all_served (http_served gen ss) (http_reply gen ss) (concat fss) (fst ?s)"
    by (rule all_served_http [OF assms(3,2)])
  obtain a where rp: "replies (http_reply gen ss) (concat fss) (fst ?s) = (pages, a)"
    using replies_http [of gen ss "concat fss" m] assms(5) by (cases "replies (http_reply gen ss) (concat fss) m") simp
  have "2 * (m_write_index (m_read_buffer ?c) + int (length (concat (map rf_text (concat fss))))) \<le> INT_MAX"
    "m_write_index (m_write_buffer ?c) + int (length pages) \<le> WRITE_LIMIT"
    using assms(4,6) by (simp_all only: c add_0)
  from http_server.session [OF new_connection_idle assms(1) this(1) sv rp this(2) assms(7-9)]
  obtain front left sent acts s' c' where r: "fss = front @ left"
    "main_server_loop (http_server_dispatch gen ss) (replicate n (fuel, [(Takes k, False)])) (burst_socket rf_text fss) (?s, ?c) =
      Some (Inr (sent, acts, Waits, s', c'))"
    "replies (http_reply gen ss) (concat front) (fst ?s) = (sent, fst s')"
    "view (m_read_buffer c') = concat (map rf_text (concat left))" "view (m_write_buffer c') = []"
    and small: "(\<forall>fs \<in> set fss. small_burst (length (m_buffer (m_read_buffer ?c))) (concat (map rf_text fs))) \<longrightarrow> left = []"
    by blast
  have "(\<forall>fs \<in> set fss. length (concat (map rf_text fs)) \<le> 85) \<longrightarrow> left = []"
    using small by (simp only: c small_burst_128)
  moreover have "sent = concat (map (\<lambda>f. http_page ss (rf_request f)) (concat front))"
    using replies_http [of gen ss "concat front" m] r(3) by simp
  moreover obtain m' rt' where "s' = (m', rt')" by (cases s')
  ultimately show ?thesis using r(1,2,4,5) by blast
qed


text \<open>One post to the servlet of a path, and one to a path that has none.\<close>

definition stray_request :: request_frame where
  "stray_request = \<lparr>rf_method = ''get'', rf_url = ''/b'', rf_version = ''http/1.0'',
     rf_headers = [(''Content-Length'', ''0'')], rf_body = []\<rparr>"

definition hello_servlets :: servlets where
  "hello_servlets = registerServlet ''/a'' hello_servlet []"

definition hello_page :: string where
  "hello_page = ''HTTP/1.1 200 OK'' @ g_CRLF @ ''Connection:'' @ g_CRLF @ ''Content-Length:2'' @ g_CRLF @ g_CRLF @ ''hi''"

definition stray_page :: string where
  "stray_page = ''HTTP/1.0 404 Not Found'' @ g_CRLF @ ''Connection:'' @ g_CRLF @ ''Content-Length:54'' @ g_CRLF
     @ ''Content-Type:text/html;charset=utf-8'' @ g_CRLF @ g_CRLF
     @ ''<html><body><h1>404</h1><p>Not Found</p></body></html>''"

lemma hello_pages:
  "rf_ok example_request" "rf_ok stray_request"
  "http_page hello_servlets (rf_request example_request) = hello_page"
  "http_page hello_servlets (rf_request stray_request) = stray_page"
  "m_response_code (http_answer hello_servlets (rf_request example_request)) \<noteq> None"
  "m_response_code (http_answer hello_servlets (rf_request stray_request)) \<noteq> None"
  "length (rf_text example_request) = 48" "length (rf_text stray_request) = 37"
  "length hello_page = 52" "length stray_page = 150"
  "rf_url example_request \<noteq> []" "rf_url stray_request \<noteq> []"
  by code_simp+

lemma http_server_answers_in_order_witness:
  "\<exists>acts m' rt' c'.
    main_server_loop (http_server_dispatch (\<lambda>m. Inr (''7'', m)) hello_servlets) (replicate 3 (3, [(Takes 300, False)]))
      (burst_socket rf_text [[stray_request], [example_request]])
      (((), new_RunTime), new_server_connection Http_Protocal 3) =
    Some (Inr (stray_page @ hello_page, acts, Waits, (m', rt'), c'))"
proof -
  let ?fss = "[[stray_request], [example_request]]" and ?ss = hello_servlets
  have "\<forall>fs \<in> set ?fss. fs \<noteq> [] \<and> (\<forall>f \<in> set fs. rf_ok f)"
    "\<forall>f \<in> set (concat ?fss). rf_url f \<noteq> [] \<and> m_response_code (http_answer ?ss (rf_request f)) \<noteq> None"
    "\<forall>m :: unit. \<not> isl (Inr (''7'', m))" "2 * int (length (concat (map rf_text (concat ?fss)))) \<le> INT_MAX"
    "stray_page @ hello_page = concat (map (\<lambda>f. http_page ?ss (rf_request f)) (concat ?fss))"
    "int (length (stray_page @ hello_page)) \<le> WRITE_LIMIT" "length (stray_page @ hello_page) \<le> 300"
    "length (concat ?fss) < 3" "length ?fss < 3"
    using hello_pages by (simp_all add: INT_MAX_def WRITE_LIMIT_def)
  from http_server_answers_in_order [where gen = "\<lambda>m. Inr (''7'', m)", OF this, of "()" new_RunTime 3]
  obtain front left acts m' rt' c' where r: "?fss = front @ left"
    "main_server_loop (http_server_dispatch (\<lambda>m. Inr (''7'', m)) ?ss) (replicate 3 (3, [(Takes 300, False)]))
      (burst_socket rf_text ?fss) (((), new_RunTime), new_server_connection Http_Protocal 3) =
     Some (Inr (concat (map (\<lambda>f. http_page ?ss (rf_request f)) (concat front)), acts, Waits, (m', rt'), c'))"
    "(\<forall>fs \<in> set ?fss. length (concat (map rf_text fs)) \<le> 85) \<longrightarrow> left = []"
    by (elim exE conjE) (rule that)
  have "left = []" using r(3) by (simp add: hello_pages)
  then have "front = ?fss" using r(1) by simp
  then have "concat front = [stray_request, example_request]" by simp
  with r(2) show ?thesis by (auto simp: hello_pages)
qed

end
