(* ===== verification/Logging.thy ===== *)
theory Logging
  imports Std_Lib Run_Time Timer
begin

text \<open>
  The log: \<open>comm/log.h\<close>, \<open>comm/log.cc\<close> and \<open>LogLevel\<close> of \<open>comm/config.h\<close>. Lines are filtered by
  level and collected in the buffers of the logger, which a timer hands to the two asynchronous
  loggers; their threads append them to files. Time, process and thread numbers, and which files
  can be opened, are arguments; a file is its content, and writing to an open file succeeds.
\<close>

section \<open>Levels and lines\<close>

datatype log_level = DEBUG | INFO | WARN | ERROR | NONE

fun level_value :: "log_level \<Rightarrow> nat" where
  "level_value DEBUG = 1"
| "level_value INFO = 2"
| "level_value WARN = 3"
| "level_value ERROR = 4"
| "level_value NONE = 5"

text \<open>Levels are compared as the integers of the enumeration.\<close>

instantiation log_level :: linorder
begin

definition less_eq_log_level :: "log_level \<Rightarrow> log_level \<Rightarrow> bool" where
  "less_eq_log_level a b \<longleftrightarrow> level_value a \<le> level_value b"

definition less_log_level :: "log_level \<Rightarrow> log_level \<Rightarrow> bool" where
  "less_log_level a b \<longleftrightarrow> level_value a < level_value b"

instance
proof
  show "x \<le> y \<Longrightarrow> y \<le> x \<Longrightarrow> x = y" for x y :: log_level
    by (cases x; cases y) (simp_all add: less_eq_log_level_def)
qed (auto simp: less_eq_log_level_def less_log_level_def)

end

datatype log_type = RPC_LOG | APP_LOG

fun levelToString :: "log_level \<Rightarrow> string" where
  "levelToString DEBUG = ''DEBUG''"
| "levelToString INFO = ''INFO''"
| "levelToString WARN = ''WARN''"
| "levelToString ERROR = ''ERROR''"
| "levelToString NONE = ''NONE''"

definition stringToLevel :: "string \<Rightarrow> log_level" where
  "stringToLevel str =
     (if str = ''DEBUG'' then DEBUG
      else if str = ''INFO'' then INFO
      else if str = ''WARN'' then WARN
      else if str = ''ERROR'' then ERROR
      else if str = ''NONE'' then NONE
      else DEBUG)"

fun LogTypeToString :: "log_type \<Rightarrow> string" where
  "LogTypeToString APP_LOG = ''app''"
| "LogTypeToString RPC_LOG = ''rpc''"

text \<open>Where and when a line is written.\<close>

record log_place =
  lp_time :: string
  lp_usec :: int
  lp_pid :: int
  lp_tid :: int
  lp_cor_id :: int
  lp_file :: string
  lp_line :: int

definition bracketed :: "string \<Rightarrow> string" where
  "bracketed s = CHR ''['' # s @ CHR '']'' # [CHR 0x09]"

text \<open>\<open>LogEvent::getStringStream\<close>: what it adds to the stream of the event.\<close>

definition getStringStream :: "log_level \<Rightarrow> log_place \<Rightarrow> run_time option \<Rightarrow> string" where
  "getStringStream level pl runtime =
     bracketed (lp_time pl @ ''.'' @ show_int (lp_usec pl)) @
     bracketed (levelToString level) @
     bracketed (show_int (lp_pid pl)) @ bracketed (show_int (lp_tid pl)) @ bracketed (show_int (lp_cor_id pl)) @
     bracketed (lp_file pl @ '':'' @ show_int (lp_line pl)) @
     (case runtime of
        None \<Rightarrow> []
      | Some rt \<Rightarrow>
          (if m_msg_no rt \<noteq> [] then bracketed (m_msg_no rt) else []) @
          (if m_interface_name rt \<noteq> [] then bracketed (m_interface_name rt) else []))"

section \<open>The asynchronous loggers\<close>

record async_logger =
  m_tasks :: "string list list"
  m_file_name :: string
  m_file_path :: string
  m_max_size :: int
  m_log_type :: log_type
  m_no :: int
  m_need_reopen :: bool
  m_file_handle :: "string option"
  m_date :: string
  m_stop :: bool

definition new_AsyncLogger :: "string \<Rightarrow> string \<Rightarrow> int \<Rightarrow> log_type \<Rightarrow> async_logger" where
  "new_AsyncLogger file_name file_path max_size ty =
     \<lparr>m_tasks = [], m_file_name = file_name, m_file_path = file_path, m_max_size = max_size,
      m_log_type = ty, m_no = 0, m_need_reopen = False, m_file_handle = None, m_date = [], m_stop = False\<rparr>"

definition async_push :: "string list \<Rightarrow> async_logger \<Rightarrow> async_logger" where
  "async_push buffer l = (if buffer \<noteq> [] then l\<lparr>m_tasks := m_tasks l @ [buffer]\<rparr> else l)"

definition async_stop :: "async_logger \<Rightarrow> async_logger" where
  "async_stop l = (if \<not> m_stop l then l\<lparr>m_stop := True\<rparr> else l)"

definition full_file_name :: "async_logger \<Rightarrow> string" where
  "full_file_name l =
     m_file_path l @ m_file_name l @ ''_'' @ m_date l @ ''_'' @ LogTypeToString (m_log_type l) @ ''_'' @
     show_int (m_no l) @ ''.log''"

text \<open>The files by name, and \<open>fopen(name, "a")\<close>, which fails where \<open>can_open\<close> is false.\<close>

type_synonym files = "string \<Rightarrow> string"

definition open_log :: "(string \<Rightarrow> bool) \<Rightarrow> async_logger \<Rightarrow> async_logger" where
  "open_log can_open l =
     l\<lparr>m_file_handle := if can_open (full_file_name l) then Some (full_file_name l) else None,
       m_need_reopen := False\<rparr>"

text \<open>
  One turn of the thread's loop on the given date: it waits, goes round, or ends. \<open>ftell\<close>,
  \<open>fwrite\<close> and \<open>fclose\<close> on a null handle, and \<open>front\<close> on an empty queue, are faults.
\<close>

datatype turn_end = Waits | Goes_Round | Ends

definition before_write :: "(string \<Rightarrow> bool) \<Rightarrow> string \<Rightarrow> files \<Rightarrow> async_logger \<Rightarrow> async_logger res" where
  "before_write can_open date fs l =
     (let l = (if m_date l \<noteq> date then l\<lparr>m_no := 0, m_date := date, m_need_reopen := True\<rparr> else l);
          l = (if m_file_handle l = None then l\<lparr>m_need_reopen := True\<rparr> else l);
          l = (if m_need_reopen l then open_log can_open l else l)
      in case m_file_handle l of
           None \<Rightarrow> Inl Null_Pointer
         | Some f \<Rightarrow>
             if int (length (fs f)) > m_max_size l then
               bindE (chk (m_no l + 1)) (\<lambda>n. Inr (open_log can_open (l\<lparr>m_no := n\<rparr>)))
             else Inr l)"

definition excute_turn ::
  "(string \<Rightarrow> bool) \<Rightarrow> string \<Rightarrow> files \<times> async_logger \<Rightarrow> (turn_end \<times> files \<times> async_logger) res" where
  "excute_turn can_open date st =
     (case st of (fs, l) \<Rightarrow>
        if m_tasks l = [] \<and> \<not> m_stop l then Inr (Waits, fs, l)
        else
          (case m_tasks l of
             [] \<Rightarrow> Inl Empty_Queue
           | tmp # rest \<Rightarrow>
               let is_stop = m_stop l in
               bindE (before_write can_open date fs (l\<lparr>m_tasks := rest\<rparr>)) (\<lambda>l.
               case m_file_handle l of
                 None \<Rightarrow>
                   if is_stop \<or> (\<exists>i \<in> set tmp. i \<noteq> []) then Inl Null_Pointer else Inr (Goes_Round, fs, l)
               | Some f \<Rightarrow>
                   let fs = fs(f := fs f @ concat (filter (\<lambda>i. i \<noteq> []) tmp))
                   in Inr (if is_stop then Ends else Goes_Round, fs, l))))"

section \<open>The logger\<close>

record logger =
  m_buffer :: "string list"
  m_app_buffer :: "string list"
  m_is_init :: bool
  m_sync_inteval :: int
  m_async_rpc_logger :: "async_logger option"
  m_async_app_logger :: "async_logger option"

definition new_Logger :: logger where
  "new_Logger = \<lparr>m_buffer = [], m_app_buffer = [], m_is_init = False, m_sync_inteval = 0,
     m_async_rpc_logger = None, m_async_app_logger = None\<rparr>"

definition logger_init :: "string \<Rightarrow> string \<Rightarrow> int \<Rightarrow> int \<Rightarrow> logger \<Rightarrow> logger" where
  "logger_init file_name file_path max_size sync_inteval lg =
     (if \<not> m_is_init lg then
        lg\<lparr>m_sync_inteval := sync_inteval,
           m_app_buffer := m_app_buffer lg @ replicate 1000000 [],
           m_buffer := m_buffer lg @ replicate 1000000 [],
           m_async_rpc_logger := Some (new_AsyncLogger file_name file_path max_size RPC_LOG),
           m_async_app_logger := Some (new_AsyncLogger file_name file_path max_size APP_LOG),
           m_is_init := True\<rparr>
      else lg)"

text \<open>\<open>start\<close>: the timer event at address \<open>ev\<close>, whose task is \<open>loopFunc\<close>.\<close>

definition logger_start :: "'t \<Rightarrow> int \<Rightarrow> nat \<Rightarrow> logger \<Rightarrow> 't events \<times> timer \<Rightarrow> 't events \<times> timer" where
  "logger_start loop_task now ev lg st =
     (case st of (evs, t) \<Rightarrow>
        let evs = evs(ev := new_TimerEvent now (m_sync_inteval lg) True loop_task)
        in (evs, addTimerEvent evs now ev True t))"

text \<open>A logger that was not initialised has no asynchronous loggers: a null pointer is called.\<close>

definition on_async :: "(async_logger \<Rightarrow> async_logger) \<Rightarrow> async_logger option \<Rightarrow> async_logger option res" where
  "on_async f a = (case a of None \<Rightarrow> Inl Null_Pointer | Some l \<Rightarrow> Inr (Some (f l)))"

definition logger_loopFunc :: "logger \<Rightarrow> logger res" where
  "logger_loopFunc lg =
     (let app_tmp = m_app_buffer lg; tmp = m_buffer lg;
          lg = lg\<lparr>m_app_buffer := [], m_buffer := []\<rparr>
      in bindE (on_async (async_push tmp) (m_async_rpc_logger lg)) (\<lambda>r.
         bindE (on_async (async_push app_tmp) (m_async_app_logger lg)) (\<lambda>a.
         Inr (lg\<lparr>m_async_rpc_logger := r, m_async_app_logger := a\<rparr>))))"

definition pushRpcLog :: "string \<Rightarrow> logger \<Rightarrow> logger" where
  "pushRpcLog msg lg = lg\<lparr>m_buffer := m_buffer lg @ [msg]\<rparr>"

definition pushAppLog :: "string \<Rightarrow> logger \<Rightarrow> logger" where
  "pushAppLog msg lg = lg\<lparr>m_app_buffer := m_app_buffer lg @ [msg]\<rparr>"

text \<open>\<open>Logger::flush\<close>: flushing the stream of an open file does not change its content here.\<close>

definition logger_flush :: "logger \<Rightarrow> logger res" where
  "logger_flush lg =
     bindE (logger_loopFunc lg) (\<lambda>lg.
     bindE (on_async async_stop (m_async_rpc_logger lg)) (\<lambda>r.
     bindE (on_async async_stop (m_async_app_logger lg)) (\<lambda>a.
     Inr (lg\<lparr>m_async_rpc_logger := r, m_async_app_logger := a\<rparr>))))"

text \<open>
  \<open>pthread_join\<close> on the thread of an asynchronous logger: its turns, on the date of each, until it ends;
  \<open>None\<close> when it has not ended after these.
\<close>

fun async_join ::
  "(string \<Rightarrow> bool) \<Rightarrow> string list \<Rightarrow> files \<times> async_logger \<Rightarrow> (files \<times> async_logger) option res" where
  "async_join can_open [] st = Inr None"
| "async_join can_open (d # ds) st =
     bindE (excute_turn can_open d st) (\<lambda>(e, st).
     if e = Ends then Inr (Some st) else if e = Waits then Inr None else async_join can_open ds st)"

text \<open>
  \<open>CoredumpHandler\<close> and \<open>Logger::~Logger\<close> until both threads have ended, and \<open>Exit\<close>, which waits for the rpc
  logger only.
\<close>

definition CoredumpHandler ::
  "(string \<Rightarrow> bool) \<Rightarrow> string list \<Rightarrow> string list \<Rightarrow> files \<Rightarrow> logger \<Rightarrow> (files \<times> logger) option res" where
  "CoredumpHandler can_open dates app_dates fs lg =
     bindE (logger_flush lg) (\<lambda>lg.
     case (m_async_rpc_logger lg, m_async_app_logger lg) of
       (Some r, Some a) \<Rightarrow>
         bindE (async_join can_open dates (fs, r)) (\<lambda>x.
         case x of
           None \<Rightarrow> Inr None
         | Some (fs, r) \<Rightarrow>
             bindE (async_join can_open app_dates (fs, a)) (\<lambda>x.
             Inr (map_option (\<lambda>(fs, a). (fs, lg\<lparr>m_async_rpc_logger := Some r, m_async_app_logger := Some a\<rparr>)) x)))
     | _ \<Rightarrow> Inl Null_Pointer)"

definition delete_Logger ::
  "(string \<Rightarrow> bool) \<Rightarrow> string list \<Rightarrow> string list \<Rightarrow> files \<Rightarrow> logger \<Rightarrow> (files \<times> logger) option res" where
  "delete_Logger can_open dates app_dates fs lg = CoredumpHandler can_open dates app_dates fs lg"

definition Exit :: "(string \<Rightarrow> bool) \<Rightarrow> string list \<Rightarrow> files \<Rightarrow> logger \<Rightarrow> (files \<times> logger) option res" where
  "Exit can_open dates fs lg =
     bindE (logger_flush lg) (\<lambda>lg.
     case m_async_rpc_logger lg of
       None \<Rightarrow> Inl Null_Pointer
     | Some r \<Rightarrow> bindE (async_join can_open dates (fs, r)) (\<lambda>x.
         Inr (map_option (\<lambda>(fs, r). (fs, lg\<lparr>m_async_rpc_logger := Some r\<rparr>)) x)))"

section \<open>Writing a line\<close>

record log_event =
  m_level :: log_level
  m_type :: log_type
  m_ss :: string

definition LogEvent_log :: "log_level \<Rightarrow> log_level \<Rightarrow> log_event \<Rightarrow> logger \<Rightarrow> logger" where
  "LogEvent_log log_level app_log_level e lg =
     (let ss = m_ss e @ [CHR 0x0A] in
      if log_level \<le> m_level e \<and> m_type e = RPC_LOG then pushRpcLog ss lg
      else if app_log_level \<le> m_level e \<and> m_type e = APP_LOG then pushAppLog ss lg
      else lg)"

text \<open>\<open>gettid\<close> asks the system once for each thread; \<open>LogEvent::toString\<close>; \<open>OpenLog\<close>.\<close>

definition gettid :: "int \<Rightarrow> int \<Rightarrow> int \<times> int" where
  "gettid sys_gettid t_thread_id =
     (let t_thread_id = (if t_thread_id = 0 then sys_gettid else t_thread_id) in (t_thread_id, t_thread_id))"

definition LogEvent_toString :: "log_level \<Rightarrow> log_place \<Rightarrow> run_time option \<Rightarrow> string" where
  "LogEvent_toString level pl rt = getStringStream level pl rt"

definition OpenLog :: "logger option \<Rightarrow> bool" where
  "OpenLog lg \<longleftrightarrow> lg \<noteq> None"

text \<open>A \<open>LogTmp\<close> collects the text in the stream of its event, and logs the event when it is destroyed.\<close>

definition LogTmp_stream :: "log_place \<Rightarrow> run_time option \<Rightarrow> string \<Rightarrow> log_event \<Rightarrow> log_event" where
  "LogTmp_stream pl rt text e = e\<lparr>m_ss := m_ss e @ getStringStream (m_level e) pl rt @ text\<rparr>"

definition delete_LogTmp :: "log_level \<Rightarrow> log_level \<Rightarrow> log_event \<Rightarrow> logger \<Rightarrow> logger" where
  "delete_LogTmp log_level app_log_level e lg = LogEvent_log log_level app_log_level e lg"

text \<open>
  The macros \<open>DebugLog\<close> to \<open>ErrorLog\<close> with the text streamed into them, and \<open>AppDebugLog\<close> to
  \<open>AppErrorLog\<close> with the formatted text. Without a logger nothing is logged.
\<close>

definition RpcLog ::
  "log_level \<Rightarrow> log_level \<Rightarrow> log_level \<Rightarrow> log_place \<Rightarrow> run_time option \<Rightarrow> string \<Rightarrow> logger option \<Rightarrow> logger option" where
  "RpcLog level log_level app_log_level pl rt text lg =
     (case lg of
        None \<Rightarrow> None
      | Some l \<Rightarrow>
          if log_level \<le> level then
            Some (LogEvent_log log_level app_log_level
              \<lparr>m_level = level, m_type = RPC_LOG, m_ss = getStringStream level pl rt @ text\<rparr> l)
          else Some l)"

definition AppLog ::
  "log_level \<Rightarrow> log_level \<Rightarrow> log_place \<Rightarrow> run_time option \<Rightarrow> string \<Rightarrow> logger option \<Rightarrow> logger option" where
  "AppLog level app_log_level pl rt text lg =
     (case lg of
        None \<Rightarrow> None
      | Some l \<Rightarrow>
          if app_log_level \<le> level then
            Some (pushAppLog (getStringStream level pl rt @
              bracketed (lp_file pl @ '':'' @ show_int (lp_line pl)) @ text @ [CHR 0x0A]) l)
          else Some l)"

text \<open>The macro is its test, the temporary object and the end of that object.\<close>

lemma RpcLog_LogTmp:
  "RpcLog level log_level app_log_level pl rt text lg =
     (if OpenLog lg \<and> log_level \<le> level then
        map_option (delete_LogTmp log_level app_log_level
          (LogTmp_stream pl rt text \<lparr>m_level = level, m_type = RPC_LOG, m_ss = []\<rparr>)) lg
      else lg)"
  by (cases lg) (simp_all add: RpcLog_def OpenLog_def delete_LogTmp_def LogTmp_stream_def)

lemma AppLog_toString:
  "AppLog level app_log_level pl rt text lg =
     (if OpenLog lg \<and> app_log_level \<le> level then
        map_option (pushAppLog (LogEvent_toString level pl rt @
          bracketed (lp_file pl @ '':'' @ show_int (lp_line pl)) @ text @ [CHR 0x0A])) lg
      else lg)"
  by (cases lg) (simp_all add: AppLog_def OpenLog_def LogEvent_toString_def)

section \<open>Turns of the thread\<close>

lemma concat_nonempty: "concat (filter (\<lambda>i. i \<noteq> []) xs) = concat xs"
  by (induction xs) auto

text \<open>The open file is the one the logger's date and number name.\<close>

definition async_wf :: "async_logger \<Rightarrow> bool" where
  "async_wf l \<longleftrightarrow> 0 \<le> m_no l \<and> (m_file_handle l = None \<or> m_file_handle l = Some (full_file_name l)) \<and> \<not> m_need_reopen l"

definition same_log :: "async_logger \<Rightarrow> async_logger \<Rightarrow> bool" where
  "same_log l l' \<longleftrightarrow> m_file_name l' = m_file_name l \<and> m_file_path l' = m_file_path l \<and>
     m_max_size l' = m_max_size l \<and> m_log_type l' = m_log_type l \<and> m_stop l' = m_stop l"

lemma before_write_opens:
  assumes "async_wf l" and "m_no l + 1 \<le> INT_MAX"
  shows "\<exists>l'. before_write (\<lambda>_. True) d fs l = Inr l' \<and> m_file_handle l' = Some (full_file_name l') \<and>
    m_date l' = d \<and> async_wf l' \<and> same_log l l' \<and> m_tasks l' = m_tasks l \<and> m_no l' \<le> m_no l + 1"
proof -
  have "fits_int (m_no l + 1)" "fits_int 1"
    using assms by (auto simp: async_wf_def INT_MAX_def intro!: fits_int_nonneg)
  with assms show ?thesis
    by (auto simp: before_write_def Let_def open_log_def async_wf_def same_log_def full_file_name_def)
qed

lemma excute_turn_writes:
  assumes "async_wf l" and "m_no l + 1 \<le> INT_MAX" and "m_tasks l = t # ts"
  shows "\<exists>f l'. excute_turn (\<lambda>_. True) d (fs, l) =
      Inr (if m_stop l then Ends else Goes_Round, fs(f := fs f @ concat t), l') \<and>
    m_file_handle l' = Some f \<and> f = full_file_name l' \<and> m_date l' = d \<and> async_wf l' \<and> same_log l l' \<and>
    m_tasks l' = ts \<and> m_no l' \<le> m_no l + 1"
proof -
  let ?l = "l\<lparr>m_tasks := ts\<rparr>"
  have "async_wf ?l" "m_no ?l + 1 \<le> INT_MAX" using assms by (simp_all add: async_wf_def full_file_name_def)
  from before_write_opens [OF this, of d fs] obtain l' where
    "before_write (\<lambda>_. True) d fs ?l = Inr l'" "m_file_handle l' = Some (full_file_name l')" "m_date l' = d"
    "async_wf l'" "same_log ?l l'" "m_tasks l' = ts" "m_no l' \<le> m_no l + 1" by auto
  with assms(3) show ?thesis
    by (auto simp: excute_turn_def Let_def concat_nonempty same_log_def)
qed

text \<open>Batches pushed and turns taken, in any order; the result lists what went to which file.\<close>

datatype log_op = Push "string list" | Turn string

fun run_log :: "log_op list \<Rightarrow> files \<times> async_logger \<Rightarrow> ((string \<times> string) list \<times> files \<times> async_logger) res" where
  "run_log [] st = Inr ([], st)"
| "run_log (Push b # ops) (fs, l) = run_log ops (fs, async_push b l)"
| "run_log (Turn d # ops) (fs, l) =
     bindE (excute_turn (\<lambda>_. True) d (fs, l)) (\<lambda>(e, fs', l').
     bindE (run_log ops (fs', l')) (\<lambda>(ps, st).
     Inr (case m_file_handle l' of
            Some f \<Rightarrow> if e = Waits then ps else (f, concat (hd (m_tasks l))) # ps
          | None \<Rightarrow> ps, st)))"

fun pushed :: "log_op list \<Rightarrow> string list" where
  "pushed [] = []"
| "pushed (Push b # ops) = b @ pushed ops"
| "pushed (Turn d # ops) = pushed ops"

definition log_name :: "async_logger \<Rightarrow> string \<Rightarrow> int \<Rightarrow> string" where
  "log_name l d no = full_file_name (l\<lparr>m_date := d, m_no := no\<rparr>)"

lemma same_log_name: "same_log l l' \<Longrightarrow> log_name l' = log_name l"
  by (simp add: same_log_def log_name_def full_file_name_def fun_eq_iff)

lemma log_name_self: "full_file_name l = log_name l (m_date l) (m_no l)"
  by (simp add: log_name_def full_file_name_def)

lemma run_log_keeps:
  assumes "async_wf l" and "\<not> m_stop l" and "m_no l + int (length ops) \<le> INT_MAX"
  shows "\<exists>ps fs' l'. run_log ops (fs, l) = Inr (ps, fs', l') \<and>
    concat (map snd ps) @ concat (concat (m_tasks l')) = concat (concat (m_tasks l)) @ concat (pushed ops) \<and>
    (\<forall>f. fs' f = fs f @ concat (map snd (filter (\<lambda>p. fst p = f) ps))) \<and>
    (\<forall>f \<in> fst ` set ps. \<exists>d no. Turn d \<in> set ops \<and> 0 \<le> no \<and> f = log_name l d no)"
  using assms
proof (induction ops "(fs, l)" arbitrary: fs l rule: run_log.induct)
  case (2 b ops fs l)
  let ?l = "async_push b l"
  have "async_wf ?l" "\<not> m_stop ?l" "m_no ?l + int (length ops) \<le> INT_MAX" "log_name ?l = log_name l"
    "concat (concat (m_tasks ?l)) = concat (concat (m_tasks l)) @ concat b"
    using "2.prems" by (auto simp: async_wf_def async_push_def full_file_name_def log_name_def fun_eq_iff)
  with "2.hyps" show ?case by fastforce
next
  case (3 d ops fs l)
  show ?case
  proof (cases "m_tasks l")
    case Nil
    with "3.prems" have "excute_turn (\<lambda>_. True) d (fs, l) = Inr (Waits, fs, l)" by (simp add: excute_turn_def)
    with "3.hyps" [OF this refl refl] "3.prems" show ?thesis
      by (fastforce split: option.split)
  next
    case (Cons t ts)
    have "m_no l + 1 \<le> INT_MAX" using "3.prems" by simp
    from excute_turn_writes [OF "3.prems"(1) this Cons, of d fs] "3.prems"(2) obtain l' where
      l': "excute_turn (\<lambda>_. True) d (fs, l) = Inr (Goes_Round, fs(full_file_name l' := fs (full_file_name l') @ concat t), l')"
      "m_file_handle l' = Some (full_file_name l')" "m_date l' = d" "async_wf l'" "same_log l l'" "m_tasks l' = ts"
      "m_no l' \<le> m_no l + 1" by auto
    let ?f = "full_file_name l'"
    have "\<not> m_stop l'" "m_no l' + int (length ops) \<le> INT_MAX"
      using l'(5,7) "3.prems" by (auto simp: same_log_def)
    from "3.hyps" [OF l'(1) refl refl l'(4) this] obtain ps fs' l2 where
      r: "run_log ops (fs(?f := fs ?f @ concat t), l') = Inr (ps, fs', l2)"
      "concat (map snd ps) @ concat (concat (m_tasks l2)) = concat (concat ts) @ concat (pushed ops)"
      "\<And>f. fs' f = (fs(?f := fs ?f @ concat t)) f @ concat (map snd (filter (\<lambda>p. fst p = f) ps))"
      "\<forall>f \<in> fst ` set ps. \<exists>d no. Turn d \<in> set ops \<and> 0 \<le> no \<and> f = log_name l' d no" using l'(6) by auto
    have n: "?f = log_name l d (m_no l')" "0 \<le> m_no l'"
      using l'(3,4) same_log_name [OF l'(5)] log_name_self [of l'] by (simp_all add: async_wf_def)
    have "\<forall>f \<in> insert ?f (fst ` set ps). \<exists>d' no. (d' = d \<or> Turn d' \<in> set ops) \<and> 0 \<le> no \<and> f = log_name l d' no"
      using n r(4) unfolding same_log_name [OF l'(5)] by blast
    with l' r show ?thesis by (simp add: Cons)
  qed
qed simp

lemma excute_turn_stopped: "m_tasks l = [] \<Longrightarrow> excute_turn c d (fs, async_stop l) = Inl Empty_Queue"
  by (simp add: excute_turn_def async_stop_def)

text \<open>A thread that is told to stop and has something to write takes one batch and ends.\<close>

lemma async_join_stopped:
  assumes "async_wf l" and "m_no l + 1 \<le> INT_MAX" and "\<not> m_stop l" and "b \<noteq> []"
  obtains f l' where "async_join (\<lambda>_. True) (d # ds) (fs, async_stop (async_push b l)) =
      Inr (Some (fs(f := fs f @ concat (hd (m_tasks l @ [b]))), l'))"
    "f = full_file_name l'" "m_date l' = d" "m_tasks l' = tl (m_tasks l @ [b])" "log_name l' = log_name l"
proof -
  let ?l = "async_stop (async_push b l)"
  have l: "async_wf ?l" "m_no ?l + 1 \<le> INT_MAX" "m_tasks ?l = m_tasks l @ [b]" "m_stop ?l" "log_name ?l = log_name l"
    using assms by (simp_all add: async_wf_def async_push_def async_stop_def full_file_name_def log_name_def fun_eq_iff)
  obtain t ts where t: "m_tasks l @ [b] = t # ts" by (cases "m_tasks l @ [b]") auto
  from excute_turn_writes [OF l(1,2) trans [OF l(3) t], of d fs] l(4) obtain f l' where
    "excute_turn (\<lambda>_. True) d (fs, ?l) = Inr (Ends, fs(f := fs f @ concat t), l')"
    "f = full_file_name l'" "m_date l' = d" "m_tasks l' = ts" "log_name l' = log_name ?l" by (auto dest: same_log_name)
  with t l(5) show ?thesis by (intro that [of f l']) simp_all
qed

section \<open>Properties\<close>

text \<open>
  C9: An asynchronous logger loses, repeats and reorders nothing while it is not stopped: for
  any order of batches pushed and turns of its thread, over changes of the date and of the
  file, what it wrote followed by what is queued is what was queued followed by what was
  pushed; every file has got exactly its pieces appended, and it is a file of this logger, of
  the date of some turn.
\<close>

theorem async_logger_keeps_lines:
  assumes "async_wf l" and "\<not> m_stop l" and "m_no l + int (length ops) \<le> INT_MAX"
  shows "returns (run_log ops (fs, l)) (\<lambda>(ps, fs', l').
    concat (map snd ps) @ concat (concat (m_tasks l')) = concat (concat (m_tasks l)) @ concat (pushed ops) \<and>
    (\<forall>f. fs' f = fs f @ concat (map snd (filter (\<lambda>p. fst p = f) ps))) \<and>
    (\<forall>f \<in> fst ` set ps. \<exists>d no. Turn d \<in> set ops \<and> 0 \<le> no \<and> f = log_name l d no))"
  using run_log_keeps [OF assms] by (auto simp: returns_iff)

definition example_log :: async_logger where
  "example_log = new_AsyncLogger ''srv'' ''./'' 3 RPC_LOG"

lemma async_logger_keeps_lines_witness:
  "returns (run_log [Push [''one''], Turn ''d1'', Push [''two'', ''x''], Turn ''d1'', Turn ''d2''] (\<lambda>_. [], example_log))
     (\<lambda>(ps, fs, l). concat (map snd ps) @ concat (concat (m_tasks l)) = ''onetwox'')"
proof -
  have "async_wf example_log" "\<not> m_stop example_log" "m_no example_log = 0" "m_tasks example_log = []"
    by (simp_all add: async_wf_def example_log_def new_AsyncLogger_def)
  then show ?thesis
    using async_logger_keeps_lines [of example_log
      "[Push [''one''], Turn ''d1'', Push [''two'', ''x''], Turn ''d1'', Turn ''d2'']" "\<lambda>_. []"]
    by (auto simp: INT_MAX_def elim!: returns_mono)
qed

text \<open>
  When a logger is stopped, its thread writes at most one more batch: with batches queued
  it writes the first and ends, and the others are never written; with none queued it takes
  the front of an empty queue. So \<open>Logger::flush\<close> writes the buffered lines when the thread
  sleeps until it has returned, but faults when the thread takes the batch at once and only
  then is stopped.
\<close>

theorem logger_flush_race:
  assumes "m_async_rpc_logger lg = Some l" and "m_async_app_logger lg = Some a"
    and "async_wf l" and "\<not> m_stop l" and "m_no l + 1 \<le> INT_MAX" and "m_buffer lg \<noteq> []"
  shows "returns (logger_flush lg) (\<lambda>lg'. \<exists>l1. m_async_rpc_logger lg' = Some l1 \<and>
    m_tasks l1 = m_tasks l @ [m_buffer lg] \<and>
    returns (excute_turn (\<lambda>_. True) d (fs, l1)) (\<lambda>(e, fs', l2). e = Ends \<and>
      fs' (full_file_name l2) = fs (full_file_name l2) @ concat (hd (m_tasks l @ [m_buffer lg])) \<and>
      m_tasks l2 = tl (m_tasks l @ [m_buffer lg]))) \<and>
   (m_tasks l = [] \<longrightarrow>
     returns (logger_loopFunc lg) (\<lambda>lg'. \<exists>l1. m_async_rpc_logger lg' = Some l1 \<and>
       returns (excute_turn (\<lambda>_. True) d (fs, l1)) (\<lambda>(e, fs', l2). e = Goes_Round \<and>
         excute_turn (\<lambda>_. True) d (fs', async_stop l2) = Inl Empty_Queue)))"
proof -
  let ?l = "async_push (m_buffer lg) l"
  have l: "async_wf ?l" "async_wf (async_stop ?l)" "m_no (async_stop ?l) + 1 \<le> INT_MAX" "m_no ?l + 1 \<le> INT_MAX"
    "m_tasks ?l = m_tasks l @ [m_buffer lg]" "m_tasks (async_stop ?l) = m_tasks l @ [m_buffer lg]" "m_stop (async_stop ?l)"
    "\<not> m_stop ?l"
    using assms by (simp_all add: async_wf_def async_push_def async_stop_def full_file_name_def)
  obtain t ts where t: "m_tasks l @ [m_buffer lg] = t # ts" by (cases "m_tasks l @ [m_buffer lg]") auto
  have 1: "returns (excute_turn (\<lambda>_. True) d (fs, async_stop ?l)) (\<lambda>(e, fs', l2). e = Ends \<and>
      fs' (full_file_name l2) = fs (full_file_name l2) @ concat t \<and> m_tasks l2 = ts)"
    using excute_turn_writes [OF l(2,3) trans [OF l(6) t], of d fs] l(7) by (auto simp: returns_iff)
  have 2: "returns (excute_turn (\<lambda>_. True) d (fs, ?l)) (\<lambda>(e, fs', l2). e = Goes_Round \<and>
      excute_turn (\<lambda>_. True) d (fs', async_stop l2) = Inl Empty_Queue)" if "m_tasks l = []"
    using excute_turn_writes [OF l(1,4) trans [OF l(5) t], of d fs] l(8) that t
    by (auto simp: returns_iff excute_turn_stopped)
  show ?thesis
    using 1 2 assms(1,2) l(6) t by (simp add: logger_flush_def logger_loopFunc_def on_async_def Let_def)
qed

lemma logger_flush_race_witness:
  "returns (logger_loopFunc (new_Logger\<lparr>m_buffer := [''x''], m_async_rpc_logger := Some example_log,
       m_async_app_logger := Some example_log\<rparr>))
     (\<lambda>lg'. \<exists>l1. m_async_rpc_logger lg' = Some l1 \<and>
       returns (excute_turn (\<lambda>_. True) ''d1'' (\<lambda>_. [], l1)) (\<lambda>(e, fs', l2). e = Goes_Round \<and>
         excute_turn (\<lambda>_. True) ''d1'' (fs', async_stop l2) = Inl Empty_Queue))"
proof -
  have "async_wf example_log" "\<not> m_stop example_log" "m_no example_log = 0" "m_tasks example_log = []"
    by (simp_all add: async_wf_def example_log_def new_AsyncLogger_def)
  then show ?thesis
    using logger_flush_race [of "new_Logger\<lparr>m_buffer := [''x''], m_async_rpc_logger := Some example_log,
       m_async_app_logger := Some example_log\<rparr>" example_log example_log "''d1''" "\<lambda>_. []"]
    by (simp add: INT_MAX_def)
qed

text \<open>
  The levels are a scale: reading the printed level gives it back, other texts read as the
  lowest level, and a line is kept exactly when there is a logger and its level is at least the
  configured one; it then comes last in the buffer, with its level, and one line feed.
\<close>

theorem log_line_kept:
  "stringToLevel (levelToString level) = level \<and>
   (s \<notin> range levelToString \<longrightarrow> (\<forall>l. stringToLevel s \<le> l)) \<and>
   RpcLog level log_level app_log_level pl rt text None = None \<and>
   RpcLog level log_level app_log_level pl rt text (Some lg) =
     Some (if level_value log_level \<le> level_value level
           then lg\<lparr>m_buffer := m_buffer lg @ [getStringStream level pl rt @ text @ [CHR 0x0A]]\<rparr> else lg)"
proof -
  have "stringToLevel (levelToString level) = level" by (cases level) (simp_all add: stringToLevel_def)
  moreover have "stringToLevel s \<le> l" if "s \<notin> range levelToString" for l
  proof -
    from that have "s \<noteq> levelToString x" for x by blast
    from this [of DEBUG] this [of INFO] this [of WARN] this [of ERROR] this [of NONE]
    have "stringToLevel s = DEBUG" by (simp add: stringToLevel_def)
    then show ?thesis by (cases l) (simp_all add: less_eq_log_level_def)
  qed
  ultimately show ?thesis
    by (simp add: RpcLog_def LogEvent_log_def pushRpcLog_def less_eq_log_level_def Let_def)
qed

lemma log_line_kept_witness: "stringToLevel ''verbose'' \<le> INFO"
proof -
  have "''verbose'' \<noteq> levelToString x" for x by (cases x) simp_all
  then have "''verbose'' \<notin> range levelToString" by blast
  with log_line_kept [of DEBUG "''verbose''"] show ?thesis by blast
qed




end
