(* ===== verification/Mysql_Instase.thy ===== *)
theory Mysql_Instase
  imports Net_Address
begin

text \<open>
  The database connection: \<open>comm/mysql_instase.h\<close> and \<open>comm/mysql_instase.cc\<close>, as compiled with
  \<open>DECLARE_MYSQL_PLUGIN\<close>. The client library is a record of functions on handles \<open>'h\<close> and a state \<open>'w\<close>
  of the library and the server.
\<close>

section \<open>The code\<close>

record mysql_option =
  m_option_addr :: ip_address
  m_user :: string
  m_passwd :: string
  m_select_db :: string
  m_char_set :: string

definition new_MySQLOption :: "ip_address \<Rightarrow> mysql_option" where
  "new_MySQLOption addr =
     \<lparr>m_option_addr = addr, m_user = [], m_passwd = [], m_select_db = [], m_char_set = []\<rparr>"

record ('h, 'w, 'r, 'row) mysql_api =
  mysql_init :: "'w \<Rightarrow> 'h option \<times> 'w"
  mysql_close :: "'h \<Rightarrow> 'w \<Rightarrow> 'w"
  mysql_set_charset :: "'h \<Rightarrow> string \<Rightarrow> 'w \<Rightarrow> 'w"
  mysql_real_connect :: "'h \<Rightarrow> mysql_option \<Rightarrow> 'w \<Rightarrow> bool \<times> 'w"
  mysql_real_query :: "'h \<Rightarrow> string \<Rightarrow> 'w \<Rightarrow> int \<times> 'w"
  mysql_errno :: "'h \<Rightarrow> 'w \<Rightarrow> int"
  CR_SERVER_GONE_ERROR :: int
  CR_SERVER_LOST :: int
  mysql_field_count :: "'h \<Rightarrow> 'w \<Rightarrow> int"
  mysql_store_result :: "'h \<Rightarrow> 'w \<Rightarrow> 'r option \<times> 'w"
  mysql_fetch_row :: "'r \<Rightarrow> 'w \<Rightarrow> 'row option \<times> 'w"
  mysql_num_fields :: "'r \<Rightarrow> 'w \<Rightarrow> int"
  mysql_free_result :: "'r \<Rightarrow> 'w \<Rightarrow> 'w"
  mysql_affected_rows :: "'h \<Rightarrow> 'w \<Rightarrow> int"

record 'h mysql_instase =
  m_option :: mysql_option
  m_init_succ :: bool
  m_in_trans :: bool
  m_sql_handler :: "'h option"

definition reconnect ::
  "('h, 'w, 'r, 'row) mysql_api \<Rightarrow> 'h mysql_instase \<times> 'w \<Rightarrow> int \<times> 'h mysql_instase \<times> 'w" where
  "reconnect api st =
     (case st of (s, w) \<Rightarrow>
        let w = (case m_sql_handler s of Some h \<Rightarrow> mysql_close api h w | None \<Rightarrow> w);
            (handler, w) = mysql_init api w;
            s = s\<lparr>m_sql_handler := handler\<rparr>
        in case handler of
             None \<Rightarrow> (-1, s, w)
           | Some h \<Rightarrow>
               let w = (if m_char_set (m_option s) \<noteq> [] then mysql_set_charset api h (m_char_set (m_option s)) w else w);
                   (ok, w) = mysql_real_connect api h (m_option s) w
               in if \<not> ok then (-1, s, w) else (0, s, w))"

definition new_MySQLInstase ::
  "('h, 'w, 'r, 'row) mysql_api \<Rightarrow> mysql_option \<Rightarrow> 'w \<Rightarrow> 'h mysql_instase \<times> 'w" where
  "new_MySQLInstase api option w =
     (case reconnect api (\<lparr>m_option = option, m_init_succ = False, m_in_trans = False, m_sql_handler = None\<rparr>, w) of
        (ret, s, w) \<Rightarrow> if ret \<noteq> 0 then (s, w) else (s\<lparr>m_init_succ := True\<rparr>, w))"

text \<open>\<open>GetMySQLInstase\<close> with the options the configuration has read.\<close>

definition GetMySQLInstase ::
  "('h, 'w, 'r, 'row) mysql_api \<Rightarrow> (string \<times> mysql_option) list \<Rightarrow> string \<Rightarrow> 'w \<Rightarrow> ('h mysql_instase \<times> 'w) option" where
  "GetMySQLInstase api m_mysql_options key w =
     (case map_get m_mysql_options key of
        None \<Rightarrow> None
      | Some option \<Rightarrow> Some (new_MySQLInstase api option w))"

definition delete_MySQLInstase :: "('h, 'w, 'r, 'row) mysql_api \<Rightarrow> 'h mysql_instase \<times> 'w \<Rightarrow> 'h mysql_instase \<times> 'w" where
  "delete_MySQLInstase api st =
     (case st of (s, w) \<Rightarrow>
        case m_sql_handler s of
          Some h \<Rightarrow> (s\<lparr>m_sql_handler := None\<rparr>, mysql_close api h w)
        | None \<Rightarrow> (s, w))"

definition query ::
  "('h, 'w, 'r, 'row) mysql_api \<Rightarrow> string \<Rightarrow> 'h mysql_instase \<times> 'w \<Rightarrow> (int \<times> 'h mysql_instase \<times> 'w) res" where
  "query api sql st =
     (case st of (s, w) \<Rightarrow>
        if \<not> m_init_succ s then Inr (-1, s, w)
        else
          let (s, w) = (if m_sql_handler s = None then snd (reconnect api (s, w)) else (s, w))
          in case m_sql_handler s of
               None \<Rightarrow> Inr (-1, s, w)
             | Some h \<Rightarrow>
                 let (rt, w) = mysql_real_query api h sql w
                 in if rt \<noteq> 0 \<and> (mysql_errno api h w = CR_SERVER_GONE_ERROR api \<or> mysql_errno api h w = CR_SERVER_LOST api)
                    then
                      let (rt, s, w) = reconnect api (s, w)
                      in if rt \<noteq> 0 \<and> \<not> m_in_trans s then
                           (case m_sql_handler s of
                              None \<Rightarrow> Inl Null_Pointer
                            | Some h \<Rightarrow> case mysql_real_query api h sql w of (rt, w) \<Rightarrow> Inr (rt, s, w))
                         else Inr (rt, s, w)
                    else Inr (rt, s, w))"

definition set_trans :: "bool \<Rightarrow> int \<times> 'h mysql_instase \<times> 'w \<Rightarrow> int \<times> 'h mysql_instase \<times> 'w" where
  "set_trans b r = (case r of (rt, s, w) \<Rightarrow> if rt = 0 then (rt, s\<lparr>m_in_trans := b\<rparr>, w) else (rt, s, w))"

definition commit ::
  "('h, 'w, 'r, 'row) mysql_api \<Rightarrow> 'h mysql_instase \<times> 'w \<Rightarrow> (int \<times> 'h mysql_instase \<times> 'w) res" where
  "commit api st = bindE (query api ''COMMIT;'' st) (\<lambda>r. Inr (set_trans False r))"

definition begin_trans ::
  "('h, 'w, 'r, 'row) mysql_api \<Rightarrow> 'h mysql_instase \<times> 'w \<Rightarrow> (int \<times> 'h mysql_instase \<times> 'w) res" where
  "begin_trans api st = bindE (query api ''BEGIN;'' st) (\<lambda>r. Inr (set_trans True r))"

definition rollBack ::
  "('h, 'w, 'r, 'row) mysql_api \<Rightarrow> 'h mysql_instase \<times> 'w \<Rightarrow> (int \<times> 'h mysql_instase \<times> 'w) res" where
  "rollBack api st = bindE (query api ''ROLLBACK;'' st) (\<lambda>r. Inr (set_trans False r))"

text \<open>The results: the library is called with the handle as it is, which must not be null.\<close>

definition with_handler :: "'h mysql_instase \<Rightarrow> ('h \<Rightarrow> 'a) \<Rightarrow> 'a res" where
  "with_handler s f = (case m_sql_handler s of None \<Rightarrow> Inl Null_Pointer | Some h \<Rightarrow> Inr (f h))"

definition storeResult ::
  "('h, 'w, 'r, 'row) mysql_api \<Rightarrow> 'h mysql_instase \<Rightarrow> 'w \<Rightarrow> ('r option \<times> 'w) res" where
  "storeResult api s w =
     (if \<not> m_init_succ s then Inr (None, w)
      else with_handler s (\<lambda>h. if mysql_field_count api h w \<noteq> 0 then mysql_store_result api h w else (None, w)))"

definition fetchRow ::
  "('h, 'w, 'r, 'row) mysql_api \<Rightarrow> 'r \<Rightarrow> 'h mysql_instase \<Rightarrow> 'w \<Rightarrow> 'row option \<times> 'w" where
  "fetchRow api r s w = (if \<not> m_init_succ s then (None, w) else mysql_fetch_row api r w)"

definition numFields :: "('h, 'w, 'r, 'row) mysql_api \<Rightarrow> 'r \<Rightarrow> 'h mysql_instase \<Rightarrow> 'w \<Rightarrow> int" where
  "numFields api r s w = (if \<not> m_init_succ s then -1 else mysql_num_fields api r w)"

definition freeResult :: "('h, 'w, 'r, 'row) mysql_api \<Rightarrow> 'r option \<Rightarrow> 'h mysql_instase \<Rightarrow> 'w \<Rightarrow> 'w" where
  "freeResult api r s w =
     (if \<not> m_init_succ s then w else case r of None \<Rightarrow> w | Some r \<Rightarrow> mysql_free_result api r w)"

definition affectedRows :: "('h, 'w, 'r, 'row) mysql_api \<Rightarrow> 'h mysql_instase \<Rightarrow> 'w \<Rightarrow> int res" where
  "affectedRows api s w =
     (if \<not> m_init_succ s then Inr (-1) else with_handler s (\<lambda>h. mysql_affected_rows api h w))"

section \<open>A sequence of statements\<close>

datatype sql_op = Query string | Begin | Commit | Roll_Back

fun sql_text :: "sql_op \<Rightarrow> string" where
  "sql_text (Query sql) = sql"
| "sql_text Begin = ''BEGIN;''"
| "sql_text Commit = ''COMMIT;''"
| "sql_text Roll_Back = ''ROLLBACK;''"

fun run_op :: "('h, 'w, 'r, 'row) mysql_api \<Rightarrow> sql_op \<Rightarrow> 'h mysql_instase \<times> 'w \<Rightarrow> (int \<times> 'h mysql_instase \<times> 'w) res" where
  "run_op api (Query sql) st = query api sql st"
| "run_op api Begin st = begin_trans api st"
| "run_op api Commit st = commit api st"
| "run_op api Roll_Back st = rollBack api st"

fun run_ops :: "('h, 'w, 'r, 'row) mysql_api \<Rightarrow> sql_op list \<Rightarrow> 'h mysql_instase \<times> 'w \<Rightarrow> (int list \<times> 'h mysql_instase \<times> 'w) res" where
  "run_ops api [] st = Inr ([], st)"
| "run_ops api (x # xs) st =
     bindE (run_op api x st) (\<lambda>(rt, st). bindE (run_ops api xs st) (\<lambda>(rts, st). Inr (rt # rts, st)))"

text \<open>What the server is sent, and whether a transaction is open after statements with these results.\<close>

fun send_all :: "('h, 'w, 'r, 'row) mysql_api \<Rightarrow> 'h \<Rightarrow> string list \<Rightarrow> 'w \<Rightarrow> int list \<times> 'w" where
  "send_all api h [] w = ([], w)"
| "send_all api h (sql # sqls) w =
     (case mysql_real_query api h sql w of (rt, w) \<Rightarrow> case send_all api h sqls w of (rts, w) \<Rightarrow> (rt # rts, w))"

fun open_after :: "bool \<Rightarrow> (sql_op \<times> int) list \<Rightarrow> bool" where
  "open_after b [] = b"
| "open_after b ((x, rt) # xs) =
     open_after (if rt = 0 then (case x of Query _ \<Rightarrow> b | Begin \<Rightarrow> True | _ \<Rightarrow> False) else b) xs"

definition connection_kept :: "('h, 'w, 'r, 'row) mysql_api \<Rightarrow> 'h \<Rightarrow> bool" where
  "connection_kept api h \<longleftrightarrow>
     (\<forall>sql w. case mysql_real_query api h sql w of (rt, w') \<Rightarrow>
        rt \<noteq> 0 \<longrightarrow> mysql_errno api h w' \<notin> {CR_SERVER_GONE_ERROR api, CR_SERVER_LOST api})"

lemma query_kept:
  assumes "connection_kept api h" and "m_init_succ s" and "m_sql_handler s = Some h"
  shows "query api sql (s, w) = (case mysql_real_query api h sql w of (rt, w') \<Rightarrow> Inr (rt, s, w'))"
proof -
  obtain rt w' where r: "mysql_real_query api h sql w = (rt, w')" by fastforce
  have "rt = 0 \<or> mysql_errno api h w' \<noteq> CR_SERVER_GONE_ERROR api \<and> mysql_errno api h w' \<noteq> CR_SERVER_LOST api"
    using assms(1) [unfolded connection_kept_def, THEN spec, THEN spec, of sql w] r by auto
  with assms(2,3) r show ?thesis by (auto simp: query_def)
qed

text \<open>Nothing but \<open>mysql_real_query\<close> executes a statement.\<close>

definition only_queries_execute :: "('h, 'w, 'r, 'row) mysql_api \<Rightarrow> ('w \<Rightarrow> string list) \<Rightarrow> bool" where
  "only_queries_execute api executed \<longleftrightarrow>
     (\<forall>w. executed (snd (mysql_init api w)) = executed w) \<and>
     (\<forall>h w. executed (mysql_close api h w) = executed w) \<and>
     (\<forall>h c w. executed (mysql_set_charset api h c w) = executed w) \<and>
     (\<forall>h opt w. executed (snd (mysql_real_connect api h opt w)) = executed w)"

lemma reconnect_executes_nothing:
  assumes "only_queries_execute api executed" and "reconnect api (s, w) = (rt, s', w')"
  shows "executed w' = executed w \<and> m_in_trans s' = m_in_trans s"
proof -
  define w1 where "w1 = (case m_sql_handler s of Some h \<Rightarrow> mysql_close api h w | None \<Rightarrow> w)"
  obtain hd w2 where i: "mysql_init api w1 = (hd, w2)" by fastforce
  have laws: "executed (snd (mysql_init api w)) = executed w" "executed (mysql_close api h w) = executed w"
    "executed (mysql_set_charset api h c w) = executed w"
    "executed (snd (mysql_real_connect api h opt w)) = executed w" for w h c opt
    using assms(1) unfolding only_queries_execute_def by blast+
  have "executed w1 = executed w" by (simp add: w1_def laws split: option.split)
  with laws(1) [of w1] i have e: "executed w2 = executed w" by simp
  show ?thesis
  proof (cases hd)
    case None
    with assms(2) i e show ?thesis by (auto simp: reconnect_def w1_def [symmetric])
  next
    case (Some h)
    let ?w3 = "if m_char_set (m_option s) \<noteq> [] then mysql_set_charset api h (m_char_set (m_option s)) w2 else w2"
    obtain ok w4 where c: "mysql_real_connect api h (m_option s) ?w3 = (ok, w4)" by fastforce
    have "executed w4 = executed w2"
      using laws(4) [of h "m_option s" ?w3] laws(3) c by (simp split: if_splits)
    moreover have "reconnect api (s, w) = (if ok then 0 else -1, s\<lparr>m_sql_handler := Some h\<rparr>, w4)"
      using i Some c by (cases ok; cases "m_char_set (m_option s) = []") (simp_all add: reconnect_def w1_def [symmetric])
    ultimately show ?thesis using e assms(2) by auto
  qed
qed

section \<open>Properties\<close>

text \<open>
  On a connection that is not lost, any sequence of statements and transaction calls sends
  each statement once, in order, and returns the server's codes; the instance says that a
  transaction is open exactly when the last transaction statement that succeeded opened one.
\<close>

theorem mysql_statements_sent:
  assumes "connection_kept api h" and "m_init_succ s" and "m_sql_handler s = Some h"
  shows "run_ops api xs (s, w) =
    (case send_all api h (map sql_text xs) w of (rts, w') \<Rightarrow>
       Inr (rts, s\<lparr>m_in_trans := open_after (m_in_trans s) (zip xs rts)\<rparr>, w'))"
  using assms
proof (induction xs arbitrary: s w)
  case (Cons x xs)
  obtain rt w1 where q: "mysql_real_query api h (sql_text x) w = (rt, w1)" by fastforce
  obtain rts w' where r: "send_all api h (map sql_text xs) w1 = (rts, w')" by fastforce
  have "run_op api x (s, w) = Inr (rt, s\<lparr>m_in_trans :=
      (if rt = 0 then (case x of Query _ \<Rightarrow> m_in_trans s | Begin \<Rightarrow> True | _ \<Rightarrow> False) else m_in_trans s)\<rparr>, w1)"
    using q query_kept [OF Cons.prems, of _ w]
    by (cases x) (auto simp: begin_trans_def commit_def rollBack_def set_trans_def)
  with Cons.IH [of "s\<lparr>m_in_trans := _\<rparr>" w1] Cons.prems q r show ?case by simp
qed simp

text \<open>A server that executes what it is sent, and can be switched off.\<close>

definition example_api :: "(nat, bool \<times> string list, unit, unit) mysql_api" where
  "example_api =
     \<lparr>mysql_init = (\<lambda>w. (Some 1, w)), mysql_close = (\<lambda>_ w. w), mysql_set_charset = (\<lambda>_ _ w. w),
      mysql_real_connect = (\<lambda>_ _ w. (True, (True, snd w))),
      mysql_real_query = (\<lambda>_ sql w. if fst w then (0, (True, snd w @ [sql])) else (1, w)),
      mysql_errno = (\<lambda>_ w. if fst w then 0 else 2006), CR_SERVER_GONE_ERROR = 2006, CR_SERVER_LOST = 2013,
      mysql_field_count = (\<lambda>_ _. 0), mysql_store_result = (\<lambda>_ w. (None, w)), mysql_fetch_row = (\<lambda>_ w. (None, w)),
      mysql_num_fields = (\<lambda>_ _. 0), mysql_free_result = (\<lambda>_ w. w), mysql_affected_rows = (\<lambda>_ _. 0)\<rparr>"

definition example_instase :: "nat mysql_instase" where
  "example_instase =
     \<lparr>m_option = new_MySQLOption (IPAddress_of (\<lambda>_. 1) ''127.0.0.1'' 3306), m_init_succ = True,
      m_in_trans = True, m_sql_handler = Some 1\<rparr>"

definition steady_api :: "(nat, bool \<times> string list, unit, unit) mysql_api" where
  "steady_api = example_api\<lparr>mysql_real_query := (\<lambda>_ sql w. (0, (True, snd w @ [sql])))\<rparr>"

lemma mysql_statements_sent_witness:
  "returns (run_ops steady_api [Begin, Query ''x'', Commit] (example_instase, (True, [])))
     (\<lambda>(rts, s, w). snd w = [''BEGIN;'', ''x'', ''COMMIT;''] \<and> \<not> m_in_trans s)"
proof -
  have "connection_kept steady_api 1" by (simp add: connection_kept_def steady_api_def)
  with mysql_statements_sent [of steady_api 1 example_instase "[Begin, Query ''x'', Commit]" "(True, [])"]
  show ?thesis by (simp add: example_instase_def steady_api_def)
qed



end
