(* ===== verification/Config.thy ===== *)
theory Config
  imports Logging Mysql_Instase Abstract_Codec
begin

text \<open>
  The configuration: \<open>comm/config.h\<close> and \<open>comm/config.cc\<close>. The XML library is a record of functions on
  elements \<open>'e\<close>. A missing node ends the process with \<open>exit\<close>, which is a fault of the model; a text
  that is used without a check may be null.
\<close>

section \<open>The code\<close>

record 'e xml_api =
  FirstChildElement :: "'e \<Rightarrow> string \<Rightarrow> 'e option"
  GetText :: "'e \<Rightarrow> string option"
  NextSiblings :: "'e \<Rightarrow> 'e list"
  FirstAttribute :: "'e \<Rightarrow> string option"

record config =
  m_log_path :: string
  m_log_prefix :: string
  m_log_max_size :: int
  m_log_level :: log_level
  m_app_log_level :: log_level
  m_log_sync_inteval :: int
  m_cor_stack_size :: int
  m_cor_pool_size :: int
  m_msg_req_len :: int
  m_max_connect_timeout :: int
  m_iothread_num :: int
  m_timewheel_bucket_num :: int
  m_timewheel_inteval :: int
  m_mysql_options :: "(string \<times> mysql_option) list"
  m_conf_path :: string

text \<open>The constructor, when \<open>load\<close> says that the file was parsed.\<close>

definition new_Config :: "string \<Rightarrow> bool \<Rightarrow> config res" where
  "new_Config file_path load =
     (if \<not> load then Inl Process_Exit
      else Inr \<lparr>m_log_path = [], m_log_prefix = [], m_log_max_size = 0, m_log_level = DEBUG,
        m_app_log_level = DEBUG, m_log_sync_inteval = 500, m_cor_stack_size = 0, m_cor_pool_size = 0,
        m_msg_req_len = 0, m_max_connect_timeout = 0, m_iothread_num = 0, m_timewheel_bucket_num = 0,
        m_timewheel_inteval = 0, m_mysql_options = [], m_conf_path = file_path\<rparr>)"

text \<open>A child that must be there, its text, and a text that is used without a check.\<close>

definition child :: "'e xml_api \<Rightarrow> 'e \<Rightarrow> string \<Rightarrow> 'e res" where
  "child x e name = (case FirstChildElement x e name of None \<Rightarrow> Inl Process_Exit | Some n \<Rightarrow> Inr n)"

definition child_text :: "'e xml_api \<Rightarrow> 'e \<Rightarrow> string \<Rightarrow> string res" where
  "child_text x e name =
     bindE (child x e name) (\<lambda>n. case GetText x n of None \<Rightarrow> Inl Process_Exit | Some t \<Rightarrow> Inr t)"

definition unchecked_text :: "'e xml_api \<Rightarrow> 'e \<Rightarrow> string res" where
  "unchecked_text x e = (case GetText x e of None \<Rightarrow> Inl Null_Pointer | Some t \<Rightarrow> Inr t)"

definition child_int :: "'e xml_api \<Rightarrow> 'e \<Rightarrow> string \<Rightarrow> int res" where
  "child_int x e name = bindE (child_text x e name) atoi"

definition readLogConfig :: "'e xml_api \<Rightarrow> 'e \<Rightarrow> config \<Rightarrow> (config \<times> logger) res" where
  "readLogConfig x log_node c =
     bindE (child_text x log_node ''log_path'') (\<lambda>log_path.
     bindE (child_text x log_node ''log_prefix'') (\<lambda>log_prefix.
     bindE (child_int x log_node ''log_max_file_size'') (\<lambda>log_max_size.
     bindE (chk (log_max_size * 1024)) (\<lambda>kb. bindE (chk (kb * 1024)) (\<lambda>max_size.
     bindE (child_text x log_node ''rpc_log_level'') (\<lambda>log_level.
     bindE (child_text x log_node ''app_log_level'') (\<lambda>app_log_level.
     bindE (child_int x log_node ''log_sync_inteval'') (\<lambda>sync_inteval.
     Inr (c\<lparr>m_log_path := log_path, m_log_prefix := log_prefix, m_log_max_size := max_size,
            m_log_level := stringToLevel log_level, m_app_log_level := stringToLevel app_log_level,
            m_log_sync_inteval := sync_inteval\<rparr>,
          logger_init log_prefix log_path max_size sync_inteval new_Logger)))))))))"

text \<open>
  \<open>readDBConfig\<close>: the loop goes over the first \<open>db_key\<close> element and all elements after it.
  The lines it prints go to a buffer of 512 bytes.
\<close>

definition optional_text :: "'e xml_api \<Rightarrow> 'e \<Rightarrow> string \<Rightarrow> string \<Rightarrow> string" where
  "optional_text x e name d =
     (case FirstChildElement x e name of
        None \<Rightarrow> d
      | Some n \<Rightarrow> case GetText x n of None \<Rightarrow> d | Some t \<Rightarrow> t)"

definition db_message :: "string \<Rightarrow> string \<Rightarrow> mysql_option \<Rightarrow> string" where
  "db_message path key opt =
     ''read config from file ['' @ path @ ''], key:'' @ key @ '' {addr: '' @ ip_toString (m_option_addr opt) @
     '', user: '' @ m_user opt @ '', passwd: '' @ m_passwd opt @ '', select_db: '' @ m_select_db opt @
     '', charset: '' @ m_char_set opt @ ''}'' @ [CHR 0x0A]"

definition read_db_key :: "'e xml_api \<Rightarrow> (string \<Rightarrow> 32 word) \<Rightarrow> 'e \<Rightarrow> config \<Rightarrow> config res" where
  "read_db_key x inet_addr element c =
     (case FirstAttribute x element of
        None \<Rightarrow> Inl Null_Pointer
      | Some key \<Rightarrow>
          bindE (case FirstChildElement x element ''ip'' of None \<Rightarrow> Inr [] | Some n \<Rightarrow> unchecked_text x n) (\<lambda>ip.
          if ip = [] then Inr c
          else
            bindE (case FirstChildElement x element ''port'' of
                     None \<Rightarrow> Inr 3306
                   | Some n \<Rightarrow> (case GetText x n of None \<Rightarrow> Inr 3306 | Some t \<Rightarrow> atoi t)) (\<lambda>port.
            let opt = \<lparr>m_option_addr = IPAddress_of inet_addr ip (word_of_int port),
                       m_user = optional_text x element ''user'' [],
                       m_passwd = optional_text x element ''passwd'' [],
                       m_select_db = optional_text x element ''select_db'' [],
                       m_char_set = optional_text x element ''char_set'' []\<rparr>
            in bindE (sprintf_512 (db_message (m_conf_path c) key opt)) (\<lambda>_.
               Inr (c\<lparr>m_mysql_options := map_insert key opt (m_mysql_options c)\<rparr>)))))"

fun read_db_keys :: "'e xml_api \<Rightarrow> (string \<Rightarrow> 32 word) \<Rightarrow> 'e list \<Rightarrow> config \<Rightarrow> config res" where
  "read_db_keys x inet_addr [] c = Inr c"
| "read_db_keys x inet_addr (e # es) c = bindE (read_db_key x inet_addr e c) (read_db_keys x inet_addr es)"

definition readDBConfig :: "'e xml_api \<Rightarrow> (string \<Rightarrow> 32 word) \<Rightarrow> 'e \<Rightarrow> config \<Rightarrow> config res" where
  "readDBConfig x inet_addr node c =
     read_db_keys x inet_addr
       (case FirstChildElement x node ''db_key'' of None \<Rightarrow> [] | Some e \<Rightarrow> e # NextSiblings x e) c"

definition conf_message :: "config \<Rightarrow> int \<Rightarrow> int \<Rightarrow> string \<Rightarrow> int \<Rightarrow> string \<Rightarrow> string" where
  "conf_message c cor_stack_size max_connect_timeout ip port protocal =
     ''read config from file ['' @ m_conf_path c @ '']: [log_path: '' @ m_log_path c @
     ''], [log_prefix: '' @ m_log_prefix c @ ''], [log_max_size: '' @ show_int (m_log_max_size c div 1024 div 1024) @
     '' MB], [log_level: '' @ levelToString (m_log_level c) @
     ''], [coroutine_stack_size: '' @ show_int cor_stack_size @ '' KB], [coroutine_pool_size: '' @ show_int (m_cor_pool_size c) @
     ''], [msg_req_len: '' @ show_int (m_msg_req_len c) @ ''], [max_connect_timeout: '' @ show_int max_connect_timeout @
     '' s], [iothread_num:'' @ show_int (m_iothread_num c) @ ''], [timewheel_bucket_num: '' @ show_int (m_timewheel_bucket_num c) @
     ''], [timewheel_inteval: '' @ show_int (m_timewheel_inteval c) @ '' s], [server_ip: '' @ ip @
     ''], [server_Port: '' @ show_int port @ ''], [server_protocal: '' @ protocal @ '']'' @ [CHR 0x0A]"

text \<open>
  \<open>readConf\<close> gives the configuration, the logger, and the address and protocol of the server it
  creates; \<open>plugin\<close> says whether the database plugin is compiled in.
\<close>

definition read_numbers :: "'e xml_api \<Rightarrow> 'e \<Rightarrow> config \<Rightarrow> (int \<times> int \<times> config) res" where
  "read_numbers x root c =
     bindE (child x root ''time_wheel'') (\<lambda>time_wheel_node.
     bindE (child x root ''coroutine'') (\<lambda>coroutine_node.
     bindE (child_text x coroutine_node ''coroutine_stack_size'') (\<lambda>stack_text.
     bindE (child_text x coroutine_node ''coroutine_pool_size'') (\<lambda>pool_text.
     bindE (atoi stack_text) (\<lambda>cor_stack_size.
     bindE (chk (1024 * cor_stack_size)) (\<lambda>stack_size.
     bindE (atoi pool_text) (\<lambda>pool_size.
     bindE (child_int x root ''msg_req_len'') (\<lambda>req_len.
     bindE (child_int x root ''max_connect_timeout'') (\<lambda>max_connect_timeout.
     bindE (chk (max_connect_timeout * 1000)) (\<lambda>timeout_ms.
     bindE (child_int x root ''iothread_num'') (\<lambda>iothread_num.
     bindE (child_text x time_wheel_node ''bucket_num'') (\<lambda>bucket_text.
     bindE (child_text x time_wheel_node ''inteval'') (\<lambda>inteval_text.
     bindE (atoi bucket_text) (\<lambda>bucket_num.
     bindE (atoi inteval_text) (\<lambda>inteval.
     Inr (cor_stack_size, max_connect_timeout,
          c\<lparr>m_cor_stack_size := stack_size, m_cor_pool_size := pool_size, m_msg_req_len := req_len,
            m_max_connect_timeout := timeout_ms, m_iothread_num := iothread_num,
            m_timewheel_bucket_num := bucket_num, m_timewheel_inteval := inteval\<rparr>))))))))))))))))"

definition read_server :: "'e xml_api \<Rightarrow> 'e \<Rightarrow> (string \<times> int \<times> string) res" where
  "read_server x root =
     bindE (child x root ''server'') (\<lambda>net_node.
     bindE (child x net_node ''ip'') (\<lambda>ip_node.
     bindE (child x net_node ''port'') (\<lambda>port_node.
     bindE (child x net_node ''protocal'') (\<lambda>protocal_node.
     bindE (unchecked_text x ip_node) (\<lambda>ip_text.
     let ip = (if ip_text = [] then ''0.0.0.0'' else ip_text) in
     bindE (unchecked_text x port_node) (\<lambda>port_text.
     bindE (atoi port_text) (\<lambda>port.
     if port = 0 then Inl Process_Exit
     else bindE (unchecked_text x protocal_node) (\<lambda>protocal. Inr (ip, port, map to_upper protocal)))))))))"

definition readConf ::
  "'e xml_api \<Rightarrow> (string \<Rightarrow> 32 word) \<Rightarrow> bool \<Rightarrow> 'e \<Rightarrow> config \<Rightarrow> (config \<times> logger \<times> net_address \<times> protocal_type) res" where
  "readConf x inet_addr plugin root c =
     bindE (child x root ''log'') (\<lambda>log_node.
     bindE (readLogConfig x log_node c) (\<lambda>(c, logger).
     bindE (read_numbers x root c) (\<lambda>(cor_stack_size, max_connect_timeout, c).
     bindE (read_server x root) (\<lambda>(ip, port, protocal).
     bindE (sprintf_512 (conf_message c cor_stack_size max_connect_timeout ip port protocal)) (\<lambda>_.
     bindE (case FirstChildElement x root ''database'' of
              Some n \<Rightarrow> if plugin then readDBConfig x inet_addr n c else Inr c
            | None \<Rightarrow> Inr c) (\<lambda>c.
     Inr (c, logger, IPAddress (IPAddress_of inet_addr ip (word_of_int port)),
          if protocal = ''HTTP'' then Http_Protocal else FlconcPb_Protocal)))))))"

definition getXmlNode :: "'e xml_api \<Rightarrow> 'e \<Rightarrow> string \<Rightarrow> 'e option" where
  "getXmlNode x root name = FirstChildElement x root name"

section \<open>What a document says\<close>

definition text_at :: "'e xml_api \<Rightarrow> 'e \<Rightarrow> string \<Rightarrow> string option" where
  "text_at x e name = (case FirstChildElement x e name of None \<Rightarrow> None | Some n \<Rightarrow> GetText x n)"

record conf_doc =
  d_log_path :: string
  d_log_prefix :: string
  d_log_mb :: nat
  d_log_level :: log_level
  d_app_log_level :: log_level
  d_sync_inteval :: nat
  d_stack_kb :: nat
  d_pool_size :: nat
  d_req_len :: nat
  d_timeout_s :: nat
  d_iothread_num :: nat
  d_bucket_num :: nat
  d_inteval :: nat
  d_ip :: string
  d_port :: nat
  d_protocal :: string

definition describes :: "'e xml_api \<Rightarrow> 'e \<Rightarrow> conf_doc \<Rightarrow> bool" where
  "describes x root d \<longleftrightarrow>
     (\<exists>l t c s. FirstChildElement x root ''log'' = Some l \<and> FirstChildElement x root ''time_wheel'' = Some t \<and>
        FirstChildElement x root ''coroutine'' = Some c \<and> FirstChildElement x root ''server'' = Some s \<and>
        text_at x l ''log_path'' = Some (d_log_path d) \<and> text_at x l ''log_prefix'' = Some (d_log_prefix d) \<and>
        text_at x l ''log_max_file_size'' = Some (show_nat (d_log_mb d)) \<and>
        text_at x l ''rpc_log_level'' = Some (levelToString (d_log_level d)) \<and>
        text_at x l ''app_log_level'' = Some (levelToString (d_app_log_level d)) \<and>
        text_at x l ''log_sync_inteval'' = Some (show_nat (d_sync_inteval d)) \<and>
        text_at x c ''coroutine_stack_size'' = Some (show_nat (d_stack_kb d)) \<and>
        text_at x c ''coroutine_pool_size'' = Some (show_nat (d_pool_size d)) \<and>
        text_at x root ''msg_req_len'' = Some (show_nat (d_req_len d)) \<and>
        text_at x root ''max_connect_timeout'' = Some (show_nat (d_timeout_s d)) \<and>
        text_at x root ''iothread_num'' = Some (show_nat (d_iothread_num d)) \<and>
        text_at x t ''bucket_num'' = Some (show_nat (d_bucket_num d)) \<and>
        text_at x t ''inteval'' = Some (show_nat (d_inteval d)) \<and>
        text_at x s ''ip'' = Some (d_ip d) \<and> text_at x s ''port'' = Some (show_nat (d_port d)) \<and>
        text_at x s ''protocal'' = Some (d_protocal d))"

definition doc_fits :: "conf_doc \<Rightarrow> bool" where
  "doc_fits d \<longleftrightarrow> int (d_log_mb d) \<le> 2047 \<and> int (d_stack_kb d) \<le> 2097151 \<and> int (d_timeout_s d) \<le> 2147483 \<and>
     int (d_sync_inteval d) \<le> INT_MAX \<and> int (d_pool_size d) \<le> INT_MAX \<and> int (d_req_len d) \<le> INT_MAX \<and>
     int (d_iothread_num d) \<le> INT_MAX \<and> int (d_bucket_num d) \<le> INT_MAX \<and> int (d_inteval d) \<le> INT_MAX \<and>
     0 < d_port d \<and> int (d_port d) \<le> INT_MAX"

definition doc_config :: "conf_doc \<Rightarrow> config \<Rightarrow> config" where
  "doc_config d c =
     c\<lparr>m_log_path := d_log_path d, m_log_prefix := d_log_prefix d, m_log_max_size := int (d_log_mb d) * 1024 * 1024,
       m_log_level := d_log_level d, m_app_log_level := d_app_log_level d,
       m_log_sync_inteval := int (d_sync_inteval d), m_cor_stack_size := 1024 * int (d_stack_kb d),
       m_cor_pool_size := int (d_pool_size d), m_msg_req_len := int (d_req_len d),
       m_max_connect_timeout := int (d_timeout_s d) * 1000, m_iothread_num := int (d_iothread_num d),
       m_timewheel_bucket_num := int (d_bucket_num d), m_timewheel_inteval := int (d_inteval d)\<rparr>"

definition doc_ip :: "conf_doc \<Rightarrow> string" where
  "doc_ip d = (if d_ip d = [] then ''0.0.0.0'' else d_ip d)"

definition doc_message :: "conf_doc \<Rightarrow> config \<Rightarrow> string" where
  "doc_message d c = conf_message (doc_config d c) (int (d_stack_kb d)) (int (d_timeout_s d)) (doc_ip d)
     (int (d_port d)) (map to_upper (d_protocal d))"

lemma text_at_child_text: "text_at x e n = Some t \<Longrightarrow> child_text x e n = Inr t"
  by (auto simp: text_at_def child_text_def child_def split: option.splits)

lemma text_at_child: "text_at x e n = Some t \<Longrightarrow> \<exists>c. child x e n = Inr c \<and> unchecked_text x c = Inr t"
  by (auto simp: text_at_def child_def unchecked_text_def split: option.splits)

lemma child_Some: "FirstChildElement x e n = Some c \<Longrightarrow> child x e n = Inr c"
  by (simp add: child_def)

lemma stringToLevel_levelToString: "stringToLevel (levelToString l) = l"
  by (cases l) (simp_all add: stringToLevel_def)

lemma readLogConfig_describes:
  assumes "describes x root d" and "doc_fits d" and "child x root ''log'' = Inr l"
  shows "readLogConfig x l c = Inr (c\<lparr>m_log_path := d_log_path d, m_log_prefix := d_log_prefix d,
      m_log_max_size := int (d_log_mb d) * 1024 * 1024, m_log_level := d_log_level d,
      m_app_log_level := d_app_log_level d, m_log_sync_inteval := int (d_sync_inteval d)\<rparr>,
    logger_init (d_log_prefix d) (d_log_path d) (int (d_log_mb d) * 1024 * 1024) (int (d_sync_inteval d)) new_Logger)"
proof -
  from assms(1,3) have t: "text_at x l ''log_path'' = Some (d_log_path d)" "text_at x l ''log_prefix'' = Some (d_log_prefix d)"
    "text_at x l ''log_max_file_size'' = Some (show_nat (d_log_mb d))"
    "text_at x l ''rpc_log_level'' = Some (levelToString (d_log_level d))"
    "text_at x l ''app_log_level'' = Some (levelToString (d_app_log_level d))"
    "text_at x l ''log_sync_inteval'' = Some (show_nat (d_sync_inteval d))"
    by (auto simp: describes_def child_def)
  note t = t [THEN text_at_child_text]
  have "fits_int (int (d_log_mb d) * 1024)" "fits_int (int (d_log_mb d) * 1024 * 1024)" "int (d_log_mb d) \<le> INT_MAX"
    "int (d_sync_inteval d) \<le> INT_MAX"
    using assms(2) by (auto simp: doc_fits_def INT_MAX_def intro!: fits_int_nonneg)
  then show ?thesis
    by (simp add: readLogConfig_def child_int_def t atoi_show_nat stringToLevel_levelToString)
qed

lemma read_numbers_describes:
  assumes "describes x root d" and "doc_fits d"
  shows "read_numbers x root c = Inr (int (d_stack_kb d), int (d_timeout_s d),
    c\<lparr>m_cor_stack_size := 1024 * int (d_stack_kb d), m_cor_pool_size := int (d_pool_size d),
      m_msg_req_len := int (d_req_len d), m_max_connect_timeout := int (d_timeout_s d) * 1000,
      m_iothread_num := int (d_iothread_num d), m_timewheel_bucket_num := int (d_bucket_num d),
      m_timewheel_inteval := int (d_inteval d)\<rparr>)"
proof -
  from assms(1) obtain t k where n: "child x root ''time_wheel'' = Inr t" "child x root ''coroutine'' = Inr k"
    and v: "text_at x k ''coroutine_stack_size'' = Some (show_nat (d_stack_kb d))"
    "text_at x k ''coroutine_pool_size'' = Some (show_nat (d_pool_size d))"
    "text_at x root ''msg_req_len'' = Some (show_nat (d_req_len d))"
    "text_at x root ''max_connect_timeout'' = Some (show_nat (d_timeout_s d))"
    "text_at x root ''iothread_num'' = Some (show_nat (d_iothread_num d))"
    "text_at x t ''bucket_num'' = Some (show_nat (d_bucket_num d))"
    "text_at x t ''inteval'' = Some (show_nat (d_inteval d))"
    by (auto simp: describes_def child_def)
  note v = v [THEN text_at_child_text]
  have "fits_int (1024 * int (d_stack_kb d))" "fits_int (int (d_timeout_s d) * 1000)" "int (d_stack_kb d) \<le> INT_MAX"
    "int (d_timeout_s d) \<le> INT_MAX"
    using assms(2) by (auto simp: doc_fits_def INT_MAX_def intro!: fits_int_nonneg)
  with assms(2) show ?thesis
    by (simp add: read_numbers_def child_int_def n v atoi_show_nat doc_fits_def)
qed

lemma read_server_describes:
  assumes "describes x root d" and "doc_fits d"
  shows "read_server x root = Inr (doc_ip d, int (d_port d), map to_upper (d_protocal d))"
proof -
  from assms(1) obtain s where s: "child x root ''server'' = Inr s"
    and v: "text_at x s ''ip'' = Some (d_ip d)" "text_at x s ''port'' = Some (show_nat (d_port d))"
    "text_at x s ''protocal'' = Some (d_protocal d)"
    by (auto simp: describes_def child_def)
  from v [THEN text_at_child] obtain a b c where
    "child x s ''ip'' = Inr a" "unchecked_text x a = Inr (d_ip d)"
    "child x s ''port'' = Inr b" "unchecked_text x b = Inr (show_nat (d_port d))"
    "child x s ''protocal'' = Inr c" "unchecked_text x c = Inr (d_protocal d)" by blast
  with s assms(2) show ?thesis
    by (simp add: read_server_def atoi_show_nat doc_fits_def doc_ip_def Let_def)
qed

text \<open>Every number of a configuration is an \<open>int\<close>, and its database options form a map.\<close>

definition config_typed :: "config \<Rightarrow> bool" where
  "config_typed c \<longleftrightarrow> (\<forall>n \<in> {m_log_max_size c, m_log_sync_inteval c, m_cor_stack_size c, m_cor_pool_size c, m_msg_req_len c,
     m_max_connect_timeout c, m_iothread_num c, m_timewheel_bucket_num c, m_timewheel_inteval c}. fits_int n) \<and>
     map_wf (m_mysql_options c)"

lemma atoi_fits: "atoi t = Inr n \<Longrightarrow> fits_int n"
  by (auto simp: atoi_def chk_def fits_int_def INT_MAX_def INT_MIN_def split: list.splits if_splits)

lemma child_int_fits: "child_int x e s = Inr n \<Longrightarrow> fits_int n"
  by (auto simp: child_int_def bindE_eq_Inr dest: atoi_fits)

lemma read_db_key_options:
  assumes "read_db_key x ia e c = Inr c'"
  shows "c' = c \<or> (\<exists>k opt. c' = c\<lparr>m_mysql_options := map_insert k opt (m_mysql_options c)\<rparr>)"
  using assms unfolding read_db_key_def Let_def
  by (cases "FirstAttribute x e") (simp_all add: bindE_eq_Inr split: if_splits, blast+)

lemma read_db_key_typed: "read_db_key x ia e c = Inr c' \<Longrightarrow> config_typed c \<Longrightarrow> config_typed c'"
  by (drule read_db_key_options) (auto simp: config_typed_def intro: map_wf_insert)

lemma read_db_keys_typed: "read_db_keys x ia es c = Inr c' \<Longrightarrow> config_typed c \<Longrightarrow> config_typed c'"
  by (induction x ia es c rule: read_db_keys.induct) (auto simp: bindE_eq_Inr dest: read_db_key_typed)

lemma readLogConfig_typed:
  assumes "readLogConfig x e c = Inr (c', lg)" and "config_typed c"
  shows "config_typed c' \<and> m_is_init lg"
  using assms
  by (auto simp: readLogConfig_def bindE_eq_Inr chk_eq_Inr config_typed_def logger_init_def new_Logger_def dest!: child_int_fits)

text \<open>What the result of a computation satisfies when there is one.\<close>

definition yields :: "'b res \<Rightarrow> ('b \<Rightarrow> bool) \<Rightarrow> bool" where
  "yields m P \<longleftrightarrow> (\<forall>x. m = Inr x \<longrightarrow> P x)"

lemma yields_bindE: "yields m Q \<Longrightarrow> (\<And>x. Q x \<Longrightarrow> yields (f x) P) \<Longrightarrow> yields (bindE m f) P"
  by (auto simp: yields_def bindE_eq_Inr)

lemma yields_numbers: "yields (child_int x e s) fits_int" "yields (atoi t) fits_int" "yields (chk n) fits_int"
  by (auto simp: yields_def chk_eq_Inr dest: child_int_fits atoi_fits)

lemma yields_nodes: "yields (child x e s) (\<lambda>_. True)" "yields (child_text x e s) (\<lambda>_. True)"
  by (simp_all add: yields_def)

lemmas yields_steps = yields_numbers [THEN yields_bindE] yields_nodes [THEN yields_bindE]

lemma read_numbers_typed:
  assumes "read_numbers x e c = Inr (a, b, c')" and "config_typed c"
  shows "config_typed c'"
proof -
  have "yields (read_numbers x e c) (\<lambda>(a, b, c'). config_typed c')"
    unfolding read_numbers_def
    by (rule yields_steps)+ (use assms(2) in \<open>simp add: yields_def config_typed_def\<close>)
  with assms(1) show ?thesis by (simp add: yields_def)
qed

section \<open>Properties\<close>

lemma readConf_sound:
  assumes "bindE (new_Config path load) (readConf x inet_addr plugin root) = Inr (c, lg, addr, ty)"
  shows "config_typed c \<and> m_is_init lg \<and> getFamily addr = AF_INET"
proof -
  from assms obtain c0 where c0: "new_Config path load = Inr c0" "readConf x inet_addr plugin root c0 = Inr (c, lg, addr, ty)"
    by (auto simp: bindE_eq_Inr)
  have t0: "config_typed c0"
    using c0(1) by (auto simp: new_Config_def config_typed_def fits_int_def INT_MIN_def INT_MAX_def map_wf_Nil split: if_splits)
  from c0(2) obtain l c1 a b c2 ip port pr where
    r: "readLogConfig x l c0 = Inr (c1, lg)" "read_numbers x root c1 = Inr (a, b, c2)" "read_server x root = Inr (ip, port, pr)"
    "(case FirstChildElement x root ''database'' of Some n \<Rightarrow> if plugin then readDBConfig x inet_addr n c2 else Inr c2
      | None \<Rightarrow> Inr c2) = Inr c"
    "addr = IPAddress (IPAddress_of inet_addr ip (word_of_int port))"
    unfolding readConf_def by (auto simp: bindE_eq_Inr)
  have "config_typed c1 \<and> m_is_init lg" by (rule readLogConfig_typed [OF r(1) t0])
  moreover from this have "config_typed c2" using read_numbers_typed [OF r(2)] by blast
  then have "config_typed c"
    using r(4) by (auto simp: readDBConfig_def dest: read_db_keys_typed split: option.splits if_splits simp del: read_db_keys.simps)
  ultimately show ?thesis by (simp add: r(5) getFamily_def IPAddress_of_def sockaddr_of_def)
qed


text \<open>Elements with a name, a text, an attribute and children.\<close>

datatype xml = Elem string "string option" "string option" "xml list"

fun find_elem :: "string \<Rightarrow> xml list \<Rightarrow> xml option" where
  "find_elem name [] = None"
| "find_elem name (Elem n t a cs # es) = (if n = name then Some (Elem n t a cs) else find_elem name es)"

definition example_xml :: "xml xml_api" where
  "example_xml =
     \<lparr>FirstChildElement = (\<lambda>e name. case e of Elem _ _ _ cs \<Rightarrow> find_elem name cs),
      GetText = (\<lambda>e. case e of Elem _ t _ _ \<Rightarrow> t), NextSiblings = (\<lambda>_. []),
      FirstAttribute = (\<lambda>e. case e of Elem _ _ a _ \<Rightarrow> a)\<rparr>"

definition leaf :: "string \<Rightarrow> string \<Rightarrow> xml" where
  "leaf name t = Elem name (Some t) None []"

definition example_root :: xml where
  "example_root = Elem ''root'' None None
     [Elem ''log'' None None [leaf ''log_path'' ''./'', leaf ''log_prefix'' ''srv'', leaf ''log_max_file_size'' ''5'',
        leaf ''rpc_log_level'' ''INFO'', leaf ''app_log_level'' ''DEBUG'', leaf ''log_sync_inteval'' ''9''],
      Elem ''coroutine'' None None [leaf ''coroutine_stack_size'' ''8'', leaf ''coroutine_pool_size'' ''4''],
      leaf ''msg_req_len'' ''7'', leaf ''max_connect_timeout'' ''3'', leaf ''iothread_num'' ''2'',
      Elem ''time_wheel'' None None [leaf ''bucket_num'' ''6'', leaf ''inteval'' ''1''],
      Elem ''server'' None None [leaf ''ip'' ''127.0.0.1'', leaf ''port'' ''8'', leaf ''protocal'' ''http'']]"

definition example_doc :: conf_doc where
  "example_doc = \<lparr>d_log_path = ''./'', d_log_prefix = ''srv'', d_log_mb = 5, d_log_level = INFO, d_app_log_level = DEBUG,
     d_sync_inteval = 9, d_stack_kb = 8, d_pool_size = 4, d_req_len = 7, d_timeout_s = 3, d_iothread_num = 2,
     d_bucket_num = 6, d_inteval = 1, d_ip = ''127.0.0.1'', d_port = 8, d_protocal = ''http''\<rparr>"

lemma example_describes: "describes example_xml example_root example_doc" "doc_fits example_doc"
  by (simp_all add: describes_def text_at_def example_xml_def example_root_def example_doc_def leaf_def
      show_nat.simps char_of_def bit_0 doc_fits_def INT_MAX_def)

lemma readConf_describes:
  assumes "describes x root d" and "doc_fits d" and "FirstChildElement x root ''database'' = None"
  shows "readConf x inet_addr plugin root c =
    (if length (doc_message d c) < 512 then
       Inr (doc_config d c,
            logger_init (d_log_prefix d) (d_log_path d) (int (d_log_mb d) * 1024 * 1024) (int (d_sync_inteval d)) new_Logger,
            IPAddress (IPAddress_of inet_addr (doc_ip d) (of_nat (d_port d))),
            if map to_upper (d_protocal d) = ''HTTP'' then Http_Protocal else FlconcPb_Protocal)
     else Inl Out_Of_Bounds)"
proof -
  from assms(1) obtain l where l: "child x root ''log'' = Inr l" by (auto simp: describes_def child_def)
  show ?thesis
    using assms(3)
    by (simp add: readConf_def l readLogConfig_describes [OF assms(1,2) l] read_numbers_describes [OF assms(1,2)]
        read_server_describes [OF assms(1,2)] sprintf_512_def doc_message_def doc_config_def)
qed

lemma example_numbers:
  "returns (bindE (new_Config ''f.xml'' True) (readConf example_xml (\<lambda>_. 7) True example_root))
     (\<lambda>(c, lg, addr, ty). m_iothread_num c = 2 \<and> m_timewheel_inteval c = 1)"
proof -
  have d: "FirstChildElement example_xml example_root ''database'' = None"
    by (simp add: example_xml_def example_root_def leaf_def)
  obtain c where c: "new_Config ''f.xml'' True = Inr c" "m_conf_path c = ''f.xml''" by (simp add: new_Config_def)
  have "length (doc_message example_doc c) < 512"
    by (simp add: doc_message_def conf_message_def doc_config_def example_doc_def c(2) show_int_def show_nat.simps doc_ip_def)
  then show ?thesis
    using readConf_describes [OF example_describes d, of "\<lambda>_. 7" True c] c(1)
    by (simp add: doc_config_def example_doc_def)
qed

text \<open>
  C32: A document with all its nodes is read as it says, with the sizes scaled to bytes and
  milliseconds and the protocol in either case, provided that the line the code prints about
  it fits the buffer of 512 bytes; a document whose names are too long for the line overruns
  the buffer.
\<close>

theorem readConf_reads_document:
  assumes "describes x root d" and "doc_fits d" and "FirstChildElement x root ''database'' = None"
  shows "readConf x inet_addr plugin root c =
    (if length (doc_message d c) < 512 then
       Inr (doc_config d c,
            logger_init (d_log_prefix d) (d_log_path d) (int (d_log_mb d) * 1024 * 1024) (int (d_sync_inteval d)) new_Logger,
            IPAddress (IPAddress_of inet_addr (doc_ip d) (of_nat (d_port d))),
            if map to_upper (d_protocal d) = ''HTTP'' then Http_Protocal else FlconcPb_Protocal)
     else Inl Out_Of_Bounds)"
  by (rule readConf_describes [OF assms])

lemma readConf_reads_document_witness:
  "returns (bindE (new_Config ''f.xml'' True) (readConf example_xml (\<lambda>_. 7) True example_root))
     (\<lambda>(c, lg, addr, ty). m_iothread_num c = 2 \<and> m_max_connect_timeout c = 3000 \<and> ty = Http_Protocal)"
proof -
  have d: "FirstChildElement example_xml example_root ''database'' = None"
    by (simp add: example_xml_def example_root_def leaf_def)
  obtain c where c: "new_Config ''f.xml'' True = Inr c" "m_conf_path c = ''f.xml''" by (simp add: new_Config_def)
  have "length (doc_message example_doc c) < 512"
    by (simp add: doc_message_def conf_message_def doc_config_def example_doc_def c(2) show_int_def show_nat.simps doc_ip_def)
  moreover have "map to_upper ''http'' = ''HTTP''" by (simp add: to_upper_def Let_def char_of_def bit_0)
  ultimately show ?thesis
    using readConf_reads_document [OF example_describes d, of "\<lambda>_. 7" True c] c(1)
    by (simp add: doc_config_def example_doc_def)
qed


end
