(* ===== verification/Start.thy ===== *)
theory Start
  imports Tcp_Server Config
begin

text \<open>
  The start of a process: \<open>comm/start.h\<close> and \<open>comm/start.cc\<close>. The global objects are a record. What the
  operating system gives is an argument: the document, the reactors and numbers of the new
  threads, and the addresses of the timer events.
\<close>

section \<open>The code\<close>

record ('msg, 'w) globals =
  g_hook :: bool
  g_init_config :: bool
  gRpcConfig :: "config option"
  gRpcLogger :: "logger option"
  gRpcServer :: "('msg, 'w) tcp_server option"

definition new_globals :: "('msg, 'w) globals" where
  "new_globals = \<lparr>g_hook = True, g_init_config = False, gRpcConfig = None, gRpcLogger = None, gRpcServer = None\<rparr>"

definition SetHook :: "bool \<Rightarrow> ('msg, 'w) globals \<Rightarrow> ('msg, 'w) globals" where
  "SetHook value g = g\<lparr>g_hook := value\<rparr>"

record boot =
  b_threads :: "nat \<Rightarrow> server_task reactor \<times> nat"
  b_main_reactor :: "server_task reactor"
  b_now :: int
  b_wheel_event :: nat
  b_clear_event :: nat
  b_log_event :: nat
  b_events :: "server_task events"

text \<open>\<open>std::make_shared<TcpServer>\<close> in \<open>readConf\<close>: a negative size cannot be that of a vector.\<close>

definition make_server ::
  "boot \<Rightarrow> config \<Rightarrow> net_address \<Rightarrow> protocal_type \<Rightarrow> ('msg, 'w) tcp_server res" where
  "make_server b c addr ty =
     (if m_iothread_num c < 0 then Inl Std_Length_Error
      else new_TcpServer addr ty (map (b_threads b) [0..<nat (m_iothread_num c)]) (b_main_reactor b)
             (m_timewheel_bucket_num c) (m_timewheel_inteval c) (b_now b) (b_wheel_event b) (b_clear_event b)
             (b_events b) \<lparr>m_pending_events = [], m_expiry = None\<rparr>)"

definition InitConfig ::
  "'e xml_api \<Rightarrow> (string \<Rightarrow> 32 word) \<Rightarrow> bool \<Rightarrow> boot \<Rightarrow> string \<Rightarrow> 'e option \<Rightarrow> ('msg, 'w) globals \<Rightarrow>
   ('msg, 'w) globals res" where
  "InitConfig x inet_addr plugin b file doc g =
     (let g = SetHook True (SetHook False g) in
      if \<not> g_init_config g then
        bindE (new_Config file (doc \<noteq> None)) (\<lambda>c.
        case doc of
          None \<Rightarrow> Inl Null_Pointer
        | Some root \<Rightarrow>
            bindE (readConf x inet_addr plugin root c) (\<lambda>(c, lg, addr, ty).
            bindE (make_server b c addr ty) (\<lambda>s.
            Inr (g\<lparr>gRpcConfig := Some c, gRpcLogger := Some lg, gRpcServer := Some s, g_init_config := True\<rparr>))))
      else Inr g)"

text \<open>
  \<open>StartRpcServer\<close> until the loop of the main reactor: the logger's timer event, and the start
  of the server.
\<close>

definition StartRpcServer ::
  "boot \<Rightarrow> listen_results \<Rightarrow> (int \<times> net_address \<times> nat \<times> nat) list \<Rightarrow> ('msg, 'w) globals \<Rightarrow> ('msg, 'w) globals res" where
  "StartRpcServer b l as g =
     (case (gRpcLogger g, gRpcServer g) of
        (Some lg, Some s) \<Rightarrow>
          (case logger_start Log_Loop (b_now b) (b_log_event b) lg (m_timer_events s, m_main_timer s) of (evs, t) \<Rightarrow>
             bindE (server_start l as (s\<lparr>m_timer_events := evs, m_main_timer := t\<rparr>)) (\<lambda>s.
             Inr (g\<lparr>gRpcServer := Some s\<rparr>)))
      | _ \<Rightarrow> Inl Null_Pointer)"

definition GetIOThreadPoolSize :: "('msg, 'w) globals \<Rightarrow> int res" where
  "GetIOThreadPoolSize g =
     (case gRpcServer g of None \<Rightarrow> Inl Null_Pointer | Some s \<Rightarrow> Inr (m_size (m_io_pool s)))"

definition GetServer :: "('msg, 'w) globals \<Rightarrow> ('msg, 'w) tcp_server option" where
  "GetServer g = gRpcServer g"

text \<open>The macros that an application registers its servlets and services with: a refusal ends the process.\<close>

definition REGISTER_HTTP_SERVLET :: "string \<Rightarrow> http_servlet \<Rightarrow> ('msg, 'w) globals \<Rightarrow> ('msg, 'w) globals res" where
  "REGISTER_HTTP_SERVLET path servlet g =
     (case GetServer g of
        None \<Rightarrow> Inl Null_Pointer
      | Some s \<Rightarrow> (case registerHttpServlet path (Some servlet) s of (ok, s) \<Rightarrow>
          if \<not> ok then Inl Process_Exit else Inr (g\<lparr>gRpcServer := Some s\<rparr>)))"

definition REGISTER_SERVICE :: "('msg, 'w) rpc_service \<Rightarrow> ('msg, 'w) globals \<Rightarrow> ('msg, 'w) globals res" where
  "REGISTER_SERVICE service g =
     (case GetServer g of
        None \<Rightarrow> Inl Null_Pointer
      | Some s \<Rightarrow> (case server_registerService (Some service) s of (ok, s) \<Rightarrow>
          if \<not> ok then Inl Process_Exit else Inr (g\<lparr>gRpcServer := Some s\<rparr>)))"

section \<open>Properties\<close>

lemma make_server_pool:
  assumes "make_server b c addr ty = Inr s" and "getFamily addr = AF_INET"
  shows "0 \<le> m_iothread_num c \<and> m_family s = AF_INET \<and> m_clients s = [] \<and> \<not> m_is_stop_accept s \<and> m_tcp_counts s = 0 \<and>
    m_protocal_type s = ty \<and> m_io_pool s = new_IOThreadPool (map (b_threads b) [0..<nat (m_iothread_num c)]) \<and>
    m_wheel (m_time_wheel s) = replicate (nat (m_timewheel_bucket_num c)) []"
  using assms by (auto simp: make_server_def new_TcpServer_def bindE_eq_Inr chk_eq_Inr Let_def new_TcpTimeWheel_def split: if_splits)

lemma pool_without_threads: "getIOThread (new_IOThreadPool []) = Inl Out_Of_Bounds"
  by (simp add: getIOThread_def new_IOThreadPool_def Let_def read_at_def)

lemma InitConfig_first:
  assumes "InitConfig x inet_addr plugin b file doc new_globals = Inr g"
  obtains root c lg addr ty s where "doc = Some root"
    "bindE (new_Config file True) (readConf x inet_addr plugin root) = Inr (c, lg, addr, ty)"
    "make_server b c addr ty = Inr s"
    "g = \<lparr>g_hook = True, g_init_config = True, gRpcConfig = Some c, gRpcLogger = Some lg, gRpcServer = Some s\<rparr>"
  using assms by (auto simp: InitConfig_def new_globals_def SetHook_def bindE_eq_Inr new_Config_def split: option.splits)


definition example_boot :: boot where
  "example_boot =
     \<lparr>b_threads = (\<lambda>i. (new_Reactor (\<lambda>fd. 0 \<le> fd) (20 + int i), i)), b_main_reactor = new_Reactor (\<lambda>fd. 0 \<le> fd) 19,
      b_now = 0, b_wheel_event = 1, b_clear_event = 2, b_log_event = 3,
      b_events = (\<lambda>_. new_TimerEvent 0 1 False Clear_Clients)\<rparr>"


end
