(* ===== verification/Rpc_Async_Channel.thy ===== *)
theory Rpc_Async_Channel
  imports Rpc_Channel Coroutine_Pool
begin

text \<open>
  The asynchronous channel: \<open>net/flconcpb/flconcpb_rpc_async_channel.h\<close> and \<open>.cc\<close>. A call hands
  the synchronous one to a coroutine of another thread, which adds a callback to the reactor of
  the caller when it is done; \<open>wait\<close> suspends the caller until that callback runs. The
  callback and the caller run on the same thread, so each operation is one step.
\<close>

section \<open>The code\<close>

record async_channel =
  m_is_finished :: bool
  m_need_resume :: bool
  m_is_pre_set :: bool
  m_controller :: rpc_controller

definition new_AsyncChannel :: async_channel where
  "new_AsyncChannel =
     \<lparr>m_is_finished = False, m_need_resume = False, m_is_pre_set = False, m_controller = new_RpcController\<rparr>"

definition saveCallee :: "rpc_controller \<Rightarrow> async_channel \<Rightarrow> async_channel" where
  "saveCallee controller ch = ch\<lparr>m_controller := controller, m_is_pre_set := True\<rparr>"

text \<open>The argument of \<open>setFinished\<close> is not used.\<close>

definition setFinished :: "bool \<Rightarrow> async_channel \<Rightarrow> async_channel" where
  "setFinished value ch = ch\<lparr>m_is_finished := True\<rparr>"

text \<open>
  \<open>CallMethod\<close>: the controller passed in is the saved one. The flag of the result says whether
  a coroutine with the call was added to another thread.
\<close>

definition async_CallMethod ::
  "('m \<Rightarrow> (string \<times> 'm) res) \<Rightarrow> 'm \<Rightarrow> run_time option \<Rightarrow> async_channel \<Rightarrow> (bool \<times> 'm \<times> async_channel) res" where
  "async_CallMethod gen m rt ch =
     (if \<not> m_is_pre_set ch then
        Inr (False, m, setFinished True (ch\<lparr>m_controller :=
          SetError ERROR_NOT_SET_ASYNC_PRE_CALL
            ''Error! must call [saveCallee()] function before [CallMethod()];'' (m_controller ch)\<rparr>))
      else
        bindE (case rt of Some rt \<Rightarrow> Inr (m_msg_no rt, m) | None \<Rightarrow> gen m) (\<lambda>(no, m).
        Inr (True, m, ch\<lparr>m_controller := SetMsgReq no (m_controller ch)\<rparr>)))"

text \<open>\<open>wait\<close>: whether the caller yields.\<close>

definition async_wait :: "async_channel \<Rightarrow> bool \<times> async_channel" where
  "async_wait ch =
     (let ch = ch\<lparr>m_need_resume := True\<rparr> in (\<not> m_is_finished ch, ch))"

text \<open>
  The callback on the caller's thread: the closure, if there is one, acts on the application
  state; the flag says whether the caller's coroutine is resumed.
\<close>

definition async_callback :: "('w \<Rightarrow> 'w) option \<Rightarrow> 'w \<Rightarrow> async_channel \<Rightarrow> bool \<times> 'w \<times> async_channel" where
  "async_callback closure w ch =
     (let w = closure_run closure w; ch = setFinished True ch in (m_need_resume ch, w, ch))"

text \<open>The destructor gives \<open>m_pending_cor\<close> back, which is null until a call was handed to another thread.\<close>

definition delete_AsyncChannel ::
  "nat option \<Rightarrow> coroutine_pool \<times> 'cb thread \<Rightarrow> (coroutine_pool \<times> 'cb thread) res" where
  "delete_AsyncChannel pending_cor st =
     (case pending_cor of None \<Rightarrow> Inl Null_Pointer | Some cor \<Rightarrow> returnCoroutine cor st)"

text \<open>A channel that makes one call and is destroyed; \<open>cor\<close> is the coroutine that takes the call, if any.\<close>

definition async_channel_life ::
  "('m \<Rightarrow> (string \<times> 'm) res) \<Rightarrow> 'm \<Rightarrow> run_time option \<Rightarrow> nat \<Rightarrow> async_channel \<Rightarrow> coroutine_pool \<times> 'cb thread \<Rightarrow>
   (async_channel \<times> coroutine_pool \<times> 'cb thread) res" where
  "async_channel_life gen m rt cor ch st =
     bindE (async_CallMethod gen m rt ch) (\<lambda>(added, m, ch).
     bindE (delete_AsyncChannel (if added then Some cor else None) st) (\<lambda>st. Inr (ch, st)))"

section \<open>Calling and waiting\<close>

text \<open>
  The caller, the call in the other thread (0 or 1), and the callbacks in the caller's reactor.
  A channel object is used for one call.
\<close>

datatype caller = Runs | Waits_For_Reply

record async_state =
  channel :: async_channel
  caller :: caller
  remote :: nat
  posted :: nat

inductive async_reach :: "async_state \<Rightarrow> bool" where
  start: "async_reach \<lparr>channel = new_AsyncChannel, caller = Runs, remote = 0, posted = 0\<rparr>"
| save: "async_reach s \<Longrightarrow> caller s = Runs \<Longrightarrow> remote s = 0 \<Longrightarrow> posted s = 0 \<Longrightarrow>
    async_reach (s\<lparr>channel := saveCallee c (channel s)\<rparr>)"
| call: "async_reach s \<Longrightarrow> caller s = Runs \<Longrightarrow> remote s = 0 \<Longrightarrow> posted s = 0 \<Longrightarrow> \<not> m_is_finished (channel s) \<Longrightarrow>
    async_CallMethod (gen :: unit \<Rightarrow> (string \<times> unit) res) () rt (channel s) = Inr (added, m, ch) \<Longrightarrow>
    async_reach (s\<lparr>channel := ch, remote := if added then 1 else 0\<rparr>)"
| reply: "async_reach s \<Longrightarrow> remote s = Suc n \<Longrightarrow> async_reach (s\<lparr>remote := n, posted := Suc (posted s)\<rparr>)"
| wait: "async_reach s \<Longrightarrow> caller s = Runs \<Longrightarrow> remote s + posted s = 1 \<or> m_is_finished (channel s) \<Longrightarrow>
    async_wait (channel s) = (yields, ch) \<Longrightarrow>
    async_reach (s\<lparr>channel := ch, caller := if yields then Waits_For_Reply else Runs\<rparr>)"
| callback: "async_reach s \<Longrightarrow> posted s = Suc n \<Longrightarrow>
    async_callback (closure :: (unit \<Rightarrow> unit) option) () (channel s) = (resumes, w, ch) \<Longrightarrow>
    async_reach (s\<lparr>channel := ch, posted := n, caller := if resumes then Runs else caller s\<rparr>)"

definition async_wf :: "async_state \<Rightarrow> bool" where
  "async_wf s \<longleftrightarrow> remote s + posted s \<le> 1 \<and>
     (remote s + posted s = 1 \<longrightarrow> \<not> m_is_finished (channel s)) \<and>
     (caller s = Waits_For_Reply \<longrightarrow> m_need_resume (channel s) \<and> remote s + posted s = 1)"

lemma async_reach_wf: "async_reach s \<Longrightarrow> async_wf s"
proof (induction rule: async_reach.induct)
  case (call s gen rt added m ch)
  then show ?case
    by (auto simp: async_wf_def async_CallMethod_def setFinished_def bindE_eq_Inr split: if_splits)
next
  case (wait s yields ch)
  then show ?case by (auto simp: async_wf_def async_wait_def Let_def)
next
  case (callback s n closure resumes w ch)
  then show ?case by (auto simp: async_wf_def async_callback_def setFinished_def Let_def)
qed (auto simp: async_wf_def new_AsyncChannel_def saveCallee_def)

section \<open>Properties\<close>

text \<open>
  C35: No wake-up is lost: in every reachable state in which the caller sleeps in \<open>wait\<close>, its
  call is still under way or its callback is in the reactor, and that callback resumes it with
  the call finished; a \<open>wait\<close> after the callback does not sleep.
\<close>

theorem async_wakeup_not_lost:
  assumes "async_reach s"
  shows "(caller s = Waits_For_Reply \<longrightarrow> remote s + posted s = 1) \<and>
    (\<forall>closure w. posted s = 1 \<longrightarrow> caller s = Waits_For_Reply \<longrightarrow>
       (case async_callback closure w (channel s) of (resumes, w', ch) \<Rightarrow> resumes \<and> m_is_finished ch \<and>
          w' = closure_run closure w \<and> \<not> fst (async_wait ch)))"
  using async_reach_wf [OF assms]
  by (auto simp: async_wf_def async_callback_def async_wait_def setFinished_def Let_def)

lemma async_wakeup_not_lost_witness:
  "\<exists>s. async_reach s \<and> caller s = Waits_For_Reply \<and> posted s = 1 \<and>
     fst (async_callback None () (channel s))"
proof -
  let ?ch = "saveCallee new_RpcController new_AsyncChannel"
  let ?ch2 = "?ch\<lparr>m_controller := SetMsgReq ''7'' (m_controller ?ch)\<rparr>"
  have 1: "async_reach \<lparr>channel = ?ch, caller = Runs, remote = 0, posted = 0\<rparr>"
    using async_reach.save [OF async_reach.start, of new_RpcController] by simp
  have "async_CallMethod (\<lambda>m. Inr (''7'', m)) () None ?ch = Inr (True, (), ?ch2)"
    by (simp add: async_CallMethod_def saveCallee_def)
  from async_reach.call [OF 1 _ _ _ _, of "\<lambda>m. Inr (''7'', m)" None True "()" ?ch2] this
  have 2: "async_reach \<lparr>channel = ?ch2, caller = Runs, remote = 1, posted = 0\<rparr>"
    by (simp add: saveCallee_def new_AsyncChannel_def)
  from async_reach.wait [OF 2, of True "?ch2\<lparr>m_need_resume := True\<rparr>"]
  have 3: "async_reach \<lparr>channel = ?ch2\<lparr>m_need_resume := True\<rparr>, caller = Waits_For_Reply, remote = 1, posted = 0\<rparr>"
    by (simp add: async_wait_def saveCallee_def new_AsyncChannel_def Let_def)
  from async_reach.reply [OF 3, of 0]
  have 4: "async_reach \<lparr>channel = ?ch2\<lparr>m_need_resume := True\<rparr>, caller = Waits_For_Reply, remote = 0, posted = 1\<rparr>"
    by simp
  from async_wakeup_not_lost [OF 4, THEN conjunct2, rule_format, of None "()"]
  have "fst (async_callback None () (?ch2\<lparr>m_need_resume := True\<rparr>))" by (simp add: case_prod_beta)
  with 4 show ?thesis
    by (intro exI [of _ "\<lparr>channel = ?ch2\<lparr>m_need_resume := True\<rparr>, caller = Waits_For_Reply, remote = 0, posted = 1\<rparr>"])
      simp
qed

text \<open>
  A call without \<open>saveCallee\<close> is answered with an error code in the controller, but the channel that was
  refused cannot be destroyed: its destructor goes through a null pointer. After \<open>saveCallee\<close> the
  coroutine of the call goes back to the pool.
\<close>

theorem refused_channel_crashes:
  assumes "pool_wf (p, th)" and "cor \<in> fst ` set (m_free_cors p)" and "rt = Some r \<or> (\<exists>x. gen m = Inr x)"
  shows "async_channel_life gen m rt cor new_AsyncChannel (p, th) = Inl Null_Pointer \<and>
    returns (async_channel_life gen m rt cor (saveCallee c new_AsyncChannel) (p, th)) (\<lambda>(ch, p', th').
      handed_out p' = handed_out p - {cor} \<and> \<not> m_is_finished ch)"
proof -
  from returnCoroutine_own [OF assms(1,2)] obtain p' where
    r: "returnCoroutine cor (p, th) = Inr (p', th)" "handed_out p' = handed_out p - {cor}" by blast
  note defs = async_channel_life_def async_CallMethod_def delete_AsyncChannel_def new_AsyncChannel_def saveCallee_def
  show ?thesis
  proof (cases rt)
    case None
    with assms(3) obtain no m' where "gen m = Inr (no, m')" by auto
    with None r show ?thesis by (simp add: defs setFinished_def)
  next
    case (Some r1)
    with r show ?thesis by (simp add: defs setFinished_def)
  qed
qed

end
