(* ===== verification/Coroutine_Hook.thy ===== *)
theory Coroutine_Hook
  imports Reactor Coroutine Timer
begin

text \<open>
  The hooked system calls: \<open>coroutine/coroutine_hook.cc\<close>. A hook that cannot finish at once
  registers its descriptor or a timer and yields; it is given as the part up to the yield and
  the part from the resumption on. The results of the system calls are arguments.
\<close>

section \<open>The code\<close>

text \<open>What a hook sees: the coroutines of its thread, the events of all descriptors, the status
  flags of the open files, and the thread's reactor with its timer.\<close>

record 'cb hook_state =
  hk_thread :: "'cb thread"
  hk_fds :: "'cb fd_event list"
  hk_flags :: "int \<Rightarrow> 32 word"
  hk_reactor :: "'cb reactor"
  hk_events :: "'cb events"
  hk_timer :: timer

definition on_fd :: "nat \<Rightarrow> ('cb fd_event \<Rightarrow> 'cb fd_event) \<Rightarrow> 'cb hook_state \<Rightarrow> 'cb hook_state" where
  "on_fd p f st = st\<lparr>hk_fds := (hk_fds st)[p := f (hk_fds st ! p)]\<rparr>"

definition on_fd_reactor ::
  "nat \<Rightarrow> ('cb fd_event \<times> 'cb reactor \<Rightarrow> 'cb fd_event \<times> 'cb reactor) \<Rightarrow> 'cb hook_state \<Rightarrow> 'cb hook_state" where
  "on_fd_reactor p f st =
     (case f (hk_fds st ! p, hk_reactor st) of (e, r) \<Rightarrow>
        st\<lparr>hk_fds := (hk_fds st)[p := e], hk_reactor := r\<rparr>)"

text \<open>\<open>self\<close> is the address of the thread's reactor, on whose thread the hooks run.\<close>

definition toEpoll :: "nat \<Rightarrow> nat \<Rightarrow> 32 word \<Rightarrow> 'cb hook_state \<Rightarrow> 'cb hook_state" where
  "toEpoll self p evs st =
     (case GetCurrentCoroutine (hk_thread st) of (cur_cor, th) \<Rightarrow>
        let st = st\<lparr>hk_thread := th\<rparr>;
            st = (if evs AND io_flag READ \<noteq> 0
                  then on_fd_reactor p (addListenEvents self True p READ) (on_fd p (setCoroutine cur_cor) st)
                  else st)
        in if evs AND io_flag WRITE \<noteq> 0
           then on_fd_reactor p (addListenEvents self True p WRITE) (on_fd p (setCoroutine cur_cor) st)
           else st)"

datatype 'cb hook_result =
    Returned int "'cb hook_state"
  | Yielded nat "'cb hook_state"

text \<open>The descriptor's event, with the thread's reactor if it has none, and not blocking.\<close>

definition hook_setup :: "nat \<Rightarrow> int \<Rightarrow> 'cb hook_state \<Rightarrow> (nat \<times> 'cb hook_state) res" where
  "hook_setup self fd st =
     bindE (getFdEvent fd (hk_fds st)) (\<lambda>(p, fds).
     let st = st\<lparr>hk_fds := fds\<rparr>;
         st = (if m_reactor (hk_fds st ! p) = None then on_fd p (setReactor (Some self)) st else st)
     in Inr (p, st\<lparr>hk_flags := setNonBlock (hk_flags st) (hk_fds st ! p)\<rparr>))"

definition hook_yield :: "nat \<Rightarrow> 'cb hook_state \<Rightarrow> 'cb hook_result res" where
  "hook_yield p st =
     bindE (Yield (hk_thread st)) (\<lambda>th. Inr (Yielded p (st\<lparr>hk_thread := th\<rparr>)))"

text \<open>\<open>read_hook\<close> up to its yield, \<open>n\<close> being the result of its first system call, and after it.\<close>

definition hooked_read :: "nat \<Rightarrow> int \<Rightarrow> int \<Rightarrow> 'cb hook_state \<Rightarrow> 'cb hook_result res" where
  "hooked_read self fd n st =
     (if IsMainCoroutine (hk_thread st) then Inr (Returned n st)
      else bindE (hook_setup self fd st) (\<lambda>(p, st).
           if n > 0 then Inr (Returned n st)
           else hook_yield p (toEpoll self p (io_flag READ) st)))"

definition hooked_read_back :: "nat \<Rightarrow> nat \<Rightarrow> int \<Rightarrow> 'cb hook_state \<Rightarrow> int \<times> 'cb hook_state" where
  "hooked_read_back self p n st =
     (n, on_fd p clearCoroutine (on_fd_reactor p (delListenEvents self True p READ) st))"

definition hooked_accept :: "nat \<Rightarrow> int \<Rightarrow> int \<Rightarrow> 'cb hook_state \<Rightarrow> 'cb hook_result res" where
  "hooked_accept self sockfd n st =
     (if IsMainCoroutine (hk_thread st) then Inr (Returned n st)
      else bindE (hook_setup self sockfd st) (\<lambda>(p, st).
           if n > 0 then Inr (Returned n st)
           else hook_yield p (toEpoll self p (io_flag READ) st)))"

definition hooked_accept_back :: "nat \<Rightarrow> nat \<Rightarrow> int \<Rightarrow> 'cb hook_state \<Rightarrow> int \<times> 'cb hook_state" where
  "hooked_accept_back self p n st =
     (n, on_fd p clearCoroutine (on_fd_reactor p (delListenEvents self True p READ) st))"

definition hooked_write :: "nat \<Rightarrow> int \<Rightarrow> int \<Rightarrow> 'cb hook_state \<Rightarrow> 'cb hook_result res" where
  "hooked_write self fd n st =
     (if IsMainCoroutine (hk_thread st) then Inr (Returned n st)
      else bindE (hook_setup self fd st) (\<lambda>(p, st).
           if n > 0 then Inr (Returned n st)
           else hook_yield p (toEpoll self p (io_flag WRITE) st)))"

definition hooked_write_back :: "nat \<Rightarrow> nat \<Rightarrow> int \<Rightarrow> 'cb hook_state \<Rightarrow> int \<times> 'cb hook_state" where
  "hooked_write_back self p n st =
     (n, on_fd p clearCoroutine (on_fd_reactor p (delListenEvents self True p WRITE) st))"

text \<open>
  \<open>connect_hook\<close>: \<open>in_progress\<close> says that \<open>errno\<close> is \<open>EINPROGRESS\<close>. The timer event at address
  \<open>ev\<close> has the task \<open>resume cor\<close>, which also sets the flag \<open>is_timeout\<close> of the back part.
\<close>

definition hooked_connect ::
  "(nat \<Rightarrow> 'cb) \<Rightarrow> nat \<Rightarrow> int \<Rightarrow> int \<Rightarrow> bool \<Rightarrow> int \<Rightarrow> int \<Rightarrow> nat \<Rightarrow> 'cb hook_state \<Rightarrow> 'cb hook_result res" where
  "hooked_connect resume self sockfd n in_progress max_connect_timeout now ev st =
     (if IsMainCoroutine (hk_thread st) then Inr (Returned n st)
      else bindE (hook_setup self sockfd st) (\<lambda>(p, st).
           case GetCurrentCoroutine (hk_thread st) of (cur_cor, th) \<Rightarrow>
           let st = st\<lparr>hk_thread := th\<rparr> in
           if n = 0 then Inr (Returned n st)
           else if \<not> in_progress then Inr (Returned n st)
           else
             let st = toEpoll self p (io_flag WRITE) st;
                 evs = (hk_events st)(ev := new_TimerEvent now max_connect_timeout False (resume cur_cor))
             in hook_yield p (st\<lparr>hk_events := evs, hk_timer := addTimerEvent evs now ev True (hk_timer st)\<rparr>)))"

datatype connect_errno = EISCONN | ETIMEDOUT | ECONNREFUSED | EAFNOSUPPORT | Other_Errno

definition hooked_connect_back ::
  "nat \<Rightarrow> nat \<Rightarrow> nat \<Rightarrow> int \<Rightarrow> connect_errno \<Rightarrow> bool \<Rightarrow> 'cb hook_state \<Rightarrow> int \<times> connect_errno \<times> 'cb hook_state" where
  "hooked_connect_back self p ev n err is_timeout st =
     (let st = on_fd p clearCoroutine (on_fd_reactor p (delListenEvents self True p WRITE) st);
          (evs, tm) = delTimerEvent ev (hk_events st, hk_timer st);
          st = st\<lparr>hk_events := evs, hk_timer := tm\<rparr>
      in if n < 0 \<and> err = EISCONN \<or> n = 0 then (0, err, st)
         else (-1, if is_timeout then ETIMEDOUT else err, st))"

text \<open>
  \<open>sleep_hook\<close>: the timer event, and the loop that yields again until the event has fired. The
  product \<open>1000 * seconds\<close> is one of \<open>unsigned int\<close>, so it is taken modulo \<open>2 ^ 32\<close>. \<open>n\<close> is
  what the system call returns to the main coroutine.
\<close>

definition hooked_sleep ::
  "(nat \<Rightarrow> 'cb) \<Rightarrow> 32 word \<Rightarrow> int \<Rightarrow> int \<Rightarrow> nat \<Rightarrow> 'cb hook_state \<Rightarrow> 'cb hook_result res" where
  "hooked_sleep resume seconds n now ev st =
     (if IsMainCoroutine (hk_thread st) then Inr (Returned n st)
      else case GetCurrentCoroutine (hk_thread st) of (cur_cor, th) \<Rightarrow>
        let evs = (hk_events st)(ev := new_TimerEvent now (uint (1000 * seconds)) False (resume cur_cor))
        in hook_yield 0 (st\<lparr>hk_thread := th, hk_events := evs,
             hk_timer := addTimerEvent evs now ev True (hk_timer st)\<rparr>))"

definition hooked_sleep_back :: "bool \<Rightarrow> 'cb hook_state \<Rightarrow> 'cb hook_result res" where
  "hooked_sleep_back is_timeout st =
     (if is_timeout then Inr (Returned 0 st) else hook_yield 0 st)"

text \<open>The wrappers under the names of the system calls: \<open>g_hook\<close> chooses the hook.\<close>

definition hooked :: "bool \<Rightarrow> 'a \<Rightarrow> 'a \<Rightarrow> 'a" where
  "hooked g_hook hook sys = (if \<not> g_hook then sys else hook)"

section \<open>Waiting for a descriptor\<close>

text \<open>What a hook can rely on: a coroutine of a reachable thread on a sound reactor.\<close>

definition hook_ready :: "int \<Rightarrow> nat \<Rightarrow> 'cb hook_state \<Rightarrow> bool" where
  "hook_ready fd main st \<longleftrightarrow>
     thread_reach (hk_thread st) \<and> t_main_coroutine (hk_thread st) = Some main \<and>
     m_cpu (hk_thread st) \<noteq> main \<and> container_wf (hk_fds st) \<and> 0 \<le> fd \<and> nat fd < length (hk_fds st) \<and>
     reactor_wf (hk_reactor st) \<and> m_open (hk_reactor st) fd"

text \<open>The state in which a hook has left its descriptor \<open>fd\<close> waiting for \<open>ev\<close>.\<close>

definition waits_for :: "nat \<Rightarrow> nat \<Rightarrow> io_event \<Rightarrow> 'cb fd_event \<Rightarrow> 'cb hook_state \<Rightarrow> bool" where
  "waits_for cor main ev e0 st \<longleftrightarrow>
     (let e = hk_fds st ! nat (m_fd e0) in
      m_cpu (hk_thread st) = main \<and> m_coroutine e = Some cor \<and> m_fd e = m_fd e0 \<and> m_reactor e \<noteq> None \<and>
      m_listen_events e = m_listen_events e0 OR io_flag ev \<and>
      m_epoll (hk_reactor st) (m_fd e0) = Some (m_listen_events e, Data_Ptr (nat (m_fd e0))) \<and>
      hk_flags st (m_fd e0) AND O_NONBLOCK \<noteq> 0)"

lemma hook_setup_present:
  assumes "hook_ready fd main st"
  shows "\<exists>e st'. hook_setup self fd st = Inr (nat fd, st') \<and>
    st' = st\<lparr>hk_fds := (hk_fds st)[nat fd := e], hk_flags := setNonBlock (hk_flags st) e\<rparr> \<and>
    m_fd e = fd \<and> m_reactor e \<noteq> None \<and> m_listen_events e = m_listen_events (hk_fds st ! nat fd)"
proof -
  let ?e = "hk_fds st ! nat fd"
  from assms have f: "0 \<le> fd" "nat fd < length (hk_fds st)" "m_fd ?e = fd"
    "int (length (hk_fds st)) \<le> INT_MAX"
    by (auto simp: hook_ready_def container_wf_def)
  then have "getFdEvent fd (hk_fds st) = Inr (nat fd, hk_fds st)"
    by (simp add: getFdEvent_def wrap32_nonneg read_at_def)
  with f show ?thesis
    by (cases "m_reactor ?e") (auto simp: hook_setup_def Let_def on_fd_def setReactor_def
        intro!: exI [of _ "if m_reactor ?e = None then setReactor (Some self) ?e else ?e"])
qed

lemma nonblock_set: "m_fd e = fd \<Longrightarrow> fd \<noteq> -1 \<Longrightarrow> setNonBlock flags e fd AND O_NONBLOCK \<noteq> 0"
proof -
  have "(a OR b) AND b = b" for a b :: "32 word" by (simp add: bit_eq_iff bit_simps)
  then show "m_fd e = fd \<Longrightarrow> fd \<noteq> -1 \<Longrightarrow> setNonBlock flags e fd AND O_NONBLOCK \<noteq> 0"
    by (simp add: setNonBlock_def Let_def) (simp add: O_NONBLOCK_def)
qed

lemma addListenEvents_frame:
  assumes "addListenEvents t lt p ev (e, r) = (e1, r1)"
  shows "m_fd e1 = m_fd e \<and> m_coroutine e1 = m_coroutine e \<and> (m_reactor e \<noteq> None \<longrightarrow> m_reactor e1 \<noteq> None)"
  using assms by (auto simp: addListenEvents_def updateToReactor_def Let_def setReactor_def split: if_splits)

lemma delListenEvents_frame:
  assumes "delListenEvents t lt p ev (e, r) = (e1, r1)"
  shows "m_fd e1 = m_fd e"
  using assms by (auto simp: delListenEvents_def updateToReactor_def Let_def setReactor_def split: if_splits)

text \<open>Registering and yielding, and undoing the registration, for reading and for writing.\<close>

lemma hook_wait:
  assumes rd: "hook_ready fd main st" and ev: "ev \<noteq> ETModel"
    and new: "m_listen_events (hk_fds st ! nat fd) AND io_flag ev = 0"
    and hs: "hook_setup self fd st = Inr (p, st0)"
  shows "\<exists>st1. p = nat fd \<and> hook_yield p (toEpoll self p (io_flag ev) st0) = Inr (Yielded p st1) \<and>
    waits_for (m_cpu (hk_thread st)) main ev (hk_fds st ! nat fd) st1 \<and>
    (let st2 = on_fd p clearCoroutine (on_fd_reactor p (delListenEvents self True p ev) st1)
     in m_coroutine (hk_fds st2 ! p) = None \<and>
        m_listen_events (hk_fds st2 ! p) = m_listen_events (hk_fds st ! p) \<and>
        m_epoll (hk_reactor st2) fd = Some (m_listen_events (hk_fds st ! p), Data_Ptr p))"
proof -
  let ?p = "nat fd" and ?e0 = "hk_fds st ! nat fd" and ?cor = "m_cpu (hk_thread st)"
  from rd have h: "thread_reach (hk_thread st)" "t_main_coroutine (hk_thread st) = Some main"
    "0 \<le> fd" "?p < length (hk_fds st)" "reactor_wf (hk_reactor st)" "m_open (hk_reactor st) fd"
    "m_fd ?e0 = fd" by (auto simp: hook_ready_def container_wf_def)
  from hook_setup_present [OF rd, of self] hs obtain e where
    p: "p = ?p" and st0: "st0 = st\<lparr>hk_fds := (hk_fds st)[?p := e], hk_flags := setNonBlock (hk_flags st) e\<rparr>"
    and e: "m_fd e = fd" "m_reactor e \<noteq> None" "m_listen_events e = m_listen_events ?e0" by auto
  from Yield_reach [OF h(1,2)] obtain th where
    th: "t_cur_coroutine (hk_thread st) = Some ?cor" "Yield (hk_thread st) = Inr th" "m_cpu th = main"
    by (auto elim!: returnsE)
  let ?e1 = "setCoroutine ?cor e"
  obtain e2 r2 where a: "addListenEvents self True ?p ev (?e1, hk_reactor st) = (e2, r2)" by fastforce
  have fl: "io_flag READ AND io_flag WRITE = 0" "io_flag WRITE AND io_flag READ = 0" "io_flag ev \<noteq> 0"
    by (cases ev; simp add: io_flag_def)+
  have to: "toEpoll self ?p (io_flag ev) st0 = st0\<lparr>hk_fds := (hk_fds st)[?p := e2], hk_reactor := r2\<rparr>"
    using ev th(1) fl a h(4)
    by (cases ev) (simp_all add: toEpoll_def GetCurrentCoroutine_def Let_def on_fd_reactor_def on_fd_def st0)
  have m: "m_fd ?e1 = fd" "m_listen_events ?e1 AND io_flag ev = 0" "m_fd ?e1 \<noteq> -1" "m_open (hk_reactor st) (m_fd ?e1)"
    using e new h by (simp_all add: setCoroutine_def)
  note sync = fd_event_sync [OF h(5) m(3,4,2) ev a]
  have e2: "m_fd e2 = fd" "m_coroutine e2 = Some ?cor" "m_reactor e2 \<noteq> None"
    "m_listen_events e2 = m_listen_events ?e0 OR io_flag ev"
    "m_epoll r2 fd = Some (m_listen_events e2, Data_Ptr ?p)"
    using addListenEvents_frame [OF a] sync e m(1) by (simp_all add: setCoroutine_def)
  let ?st1 = "st0\<lparr>hk_fds := (hk_fds st)[?p := e2], hk_reactor := r2, hk_thread := th\<rparr>"
  have y: "hook_yield ?p (toEpoll self ?p (io_flag ev) st0) = Inr (Yielded ?p ?st1)"
    using th(2) by (simp add: to hook_yield_def) (simp add: st0)
  have w: "waits_for ?cor main ev ?e0 ?st1"
    using e2 h th(3) nonblock_set [OF e(1)] by (simp add: waits_for_def Let_def st0)
  obtain e3 r3 where d: "delListenEvents self True ?p ev (e2, r2) = (e3, r3)" by fastforce
  with sync have "m_listen_events e3 = m_listen_events ?e0" "m_epoll r3 fd = Some (m_listen_events ?e0, Data_Ptr ?p)"
    using e m(1) by (auto simp: setCoroutine_def)
  with y w h d show ?thesis unfolding p
    by (intro exI [of _ ?st1]) (simp add: Let_def on_fd_def on_fd_reactor_def clearCoroutine_def)
qed

section \<open>Properties\<close>


definition example_hook_state :: "string hook_state" where
  "example_hook_state =
     \<lparr>hk_thread = example_thread, hk_fds = new_FdEventContainer 9, hk_flags = (\<lambda>_. 0),
      hk_reactor = new_Reactor (\<lambda>fd. 0 \<le> fd) 5, hk_events = example_events, hk_timer = example_timer\<rparr>"


end
