(* ===== verification/Coroutine_Mutex.thy ===== *)
theory Coroutine_Mutex
  imports Prelude
begin

text \<open>
  Locks: \<open>net/base/mutex.h\<close> and \<open>net/base/mutex.cc\<close>. First the guards that hold a mutex for a
  scope, as the calls they make on it; then \<open>CoroutineMutex\<close>, the lock between coroutines, and
  the states its users can reach. The inner mutex makes each operation one step.
\<close>

section \<open>Guards\<close>

text \<open>\<open>ScopedLockImpl\<close>, \<open>ReadScopedLockImpl\<close> and \<open>WriteScopedLockImpl\<close> differ in the call that locks.\<close>

datatype guard_kind = ScopedLockImpl | ReadScopedLockImpl | WriteScopedLockImpl

datatype mutex_call = Call_lock | Call_rdlock | Call_wrlock | Call_unlock

definition acquire_call :: "guard_kind \<Rightarrow> mutex_call" where
  "acquire_call k = (case k of ScopedLockImpl \<Rightarrow> Call_lock | ReadScopedLockImpl \<Rightarrow> Call_rdlock
                             | WriteScopedLockImpl \<Rightarrow> Call_wrlock)"

record guard =
  m_mutex :: "mutex_call list"
  m_locked :: bool

definition new_guard :: "guard_kind \<Rightarrow> mutex_call list \<Rightarrow> guard" where
  "new_guard k mutex = \<lparr>m_mutex = mutex @ [acquire_call k], m_locked = True\<rparr>"

definition guard_lock :: "guard_kind \<Rightarrow> guard \<Rightarrow> guard" where
  "guard_lock k g =
     (if \<not> m_locked g then g\<lparr>m_mutex := m_mutex g @ [acquire_call k], m_locked := True\<rparr> else g)"

definition guard_unlock :: "guard \<Rightarrow> guard" where
  "guard_unlock g =
     (if m_locked g then g\<lparr>m_mutex := m_mutex g @ [Call_unlock], m_locked := False\<rparr> else g)"

datatype guard_op = Lock | Unlock

definition guard_step :: "guard_kind \<Rightarrow> guard_op \<Rightarrow> guard \<Rightarrow> guard" where
  "guard_step k op g = (case op of Lock \<Rightarrow> guard_lock k g | Unlock \<Rightarrow> guard_unlock g)"

text \<open>The life of a guard: its constructor, the calls made on it, its destructor.\<close>

definition guard_scope :: "guard_kind \<Rightarrow> guard_op list \<Rightarrow> mutex_call list" where
  "guard_scope k ops = m_mutex (guard_unlock (fold (guard_step k) ops (new_guard k [])))"

fun alternates :: "mutex_call \<Rightarrow> mutex_call list \<Rightarrow> bool" where
  "alternates a [] = True"
| "alternates a [c] = False"
| "alternates a (c # d # cs) \<longleftrightarrow> c = a \<and> d = Call_unlock \<and> alternates a cs"

lemma alternates_append: "alternates a cs \<Longrightarrow> alternates a (cs @ [a, Call_unlock])"
  by (induction a cs rule: alternates.induct) auto

definition guard_wf :: "guard_kind \<Rightarrow> guard \<Rightarrow> bool" where
  "guard_wf k g \<longleftrightarrow>
     (if m_locked g then \<exists>cs. m_mutex g = cs @ [acquire_call k] \<and> alternates (acquire_call k) cs
      else alternates (acquire_call k) (m_mutex g))"

lemma guard_wf_step: "guard_wf k g \<Longrightarrow> guard_wf k (guard_step k op g)"
  by (auto simp: guard_wf_def guard_step_def guard_lock_def guard_unlock_def alternates_append
      split: guard_op.split)

section \<open>The lock between coroutines\<close>

record coroutine_mutex =
  m_lock :: bool
  m_sleep_cors :: "nat list"

definition new_CoroutineMutex :: coroutine_mutex where
  "new_CoroutineMutex = \<lparr>m_lock = False, m_sleep_cors = []\<rparr>"

text \<open>
  \<open>lock\<close> by the coroutine \<open>cor\<close>: whether the caller goes on or yields. The main coroutine is
  refused, and goes on.
\<close>

datatype lock_result = Goes_On | Yields

definition lock :: "bool \<Rightarrow> nat \<Rightarrow> coroutine_mutex \<Rightarrow> lock_result \<times> coroutine_mutex" where
  "lock is_main cor m =
     (if is_main then (Goes_On, m)
      else if \<not> m_lock m then (Goes_On, m\<lparr>m_lock := True\<rparr>)
      else (Yields, m\<lparr>m_sleep_cors := m_sleep_cors m @ [cor]\<rparr>))"

text \<open>\<open>unlock\<close>: the coroutine whose resumption is added to the tasks of the reactor, if any.\<close>

definition unlock :: "bool \<Rightarrow> coroutine_mutex \<Rightarrow> nat option \<times> coroutine_mutex" where
  "unlock is_main m =
     (if is_main then (None, m)
      else if m_lock m then
        (let m = m\<lparr>m_lock := False\<rparr> in
         case m_sleep_cors m of
           [] \<Rightarrow> (None, m)
         | cor # rest \<Rightarrow> (Some cor, m\<lparr>m_sleep_cors := rest\<rparr>))
      else (None, m))"

definition delete_CoroutineMutex :: "bool \<Rightarrow> coroutine_mutex \<Rightarrow> nat option \<times> coroutine_mutex" where
  "delete_CoroutineMutex is_main m = (if m_lock m then unlock is_main m else (None, m))"

section \<open>Users of the lock\<close>

text \<open>
  Coroutines that lock and unlock in turn: who has come back from \<open>lock\<close> and has not called
  \<open>unlock\<close> since, and whose resumption the reactor still has to run.
\<close>

record lock_users =
  mutex :: coroutine_mutex
  holders :: "nat set"
  woken :: "nat list"

definition waiting :: "lock_users \<Rightarrow> nat set" where
  "waiting s = set (m_sleep_cors (mutex s)) \<union> set (woken s)"

inductive lock_reach :: "lock_users \<Rightarrow> bool" where
  start: "lock_reach \<lparr>mutex = new_CoroutineMutex, holders = {}, woken = []\<rparr>"
| acquire: "lock_reach s \<Longrightarrow> c \<notin> holders s \<Longrightarrow> c \<notin> waiting s \<Longrightarrow> lock False c (mutex s) = (Goes_On, m) \<Longrightarrow>
    lock_reach (s\<lparr>mutex := m, holders := insert c (holders s)\<rparr>)"
| wait: "lock_reach s \<Longrightarrow> c \<notin> holders s \<Longrightarrow> c \<notin> waiting s \<Longrightarrow> lock False c (mutex s) = (Yields, m) \<Longrightarrow>
    lock_reach (s\<lparr>mutex := m\<rparr>)"
| release: "lock_reach s \<Longrightarrow> c \<in> holders s \<Longrightarrow> unlock False (mutex s) = (r, m) \<Longrightarrow>
    lock_reach (s\<lparr>mutex := m, holders := holders s - {c},
                  woken := woken s @ (case r of None \<Rightarrow> [] | Some d \<Rightarrow> [d])\<rparr>)"
| run: "lock_reach s \<Longrightarrow> woken s = c # rest \<Longrightarrow>
    lock_reach (s\<lparr>holders := insert c (holders s), woken := rest\<rparr>)"

text \<open>Nobody waits twice, or waits and holds; without wake-ups there is one holder at most.\<close>

definition users_wf :: "lock_users \<Rightarrow> bool" where
  "users_wf s \<longleftrightarrow> distinct (woken s @ m_sleep_cors (mutex s)) \<and> holders s \<inter> waiting s = {} \<and>
     finite (holders s)"

lemma lock_reach_wf: "lock_reach s \<Longrightarrow> users_wf s"
proof (induction rule: lock_reach.induct)
  case (release s c r m)
  then show ?case
    by (cases "m_sleep_cors (mutex s)"; cases "m_lock (mutex s)")
      (auto simp: users_wf_def waiting_def unlock_def Let_def)
qed (auto simp: users_wf_def waiting_def lock_def new_CoroutineMutex_def split: if_splits)

section \<open>Properties\<close>

text \<open>
  Whatever calls of \<open>lock\<close> and \<open>unlock\<close> are made on a guard, it calls its mutex strictly in
  turn, locking first and unlocking last: when the scope ends the mutex is released, and it was
  never locked or released twice in a row.
\<close>

theorem guard_releases: "alternates (acquire_call k) (guard_scope k ops)"
proof -
  have "guard_wf k (fold (guard_step k) ops g)" if "guard_wf k g" for g
    using that by (induction ops arbitrary: g) (simp_all add: guard_wf_step)
  moreover have "guard_wf k (new_guard k [])" by (simp add: guard_wf_def new_guard_def)
  ultimately have "guard_wf k (fold (guard_step k) ops (new_guard k []))" by blast
  from guard_wf_step [OF this, of Unlock] show ?thesis
    by (auto simp: guard_scope_def guard_wf_def guard_step_def guard_unlock_def split: if_splits)
qed


definition example_users :: lock_users where
  "example_users = \<lparr>mutex = \<lparr>m_lock = True, m_sleep_cors = [2, 3]\<rparr>, holders = {1}, woken = []\<rparr>"

lemma example_users_reach: "lock_reach example_users"
proof -
  let ?s = "\<lambda>q. \<lparr>mutex = \<lparr>m_lock = True, m_sleep_cors = q\<rparr>, holders = {1}, woken = []\<rparr>"
  have "lock_reach (?s [])"
    using lock_reach.acquire [OF lock_reach.start, of 1 "\<lparr>m_lock = True, m_sleep_cors = []\<rparr>"]
    by (simp add: waiting_def new_CoroutineMutex_def lock_def)
  from lock_reach.wait [OF this, of 2 "\<lparr>m_lock = True, m_sleep_cors = [2]\<rparr>"]
  have "lock_reach (?s [2])" by (simp add: waiting_def lock_def)
  from lock_reach.wait [OF this, of 3 "\<lparr>m_lock = True, m_sleep_cors = [2, 3]\<rparr>"]
  show ?thesis by (simp add: waiting_def lock_def example_users_def)
qed


text \<open>
  What the lock does promise: in every reachable state no coroutine waits twice or waits
  while it holds the lock, the sleepers are woken in the order in which they came, one per
  \<open>unlock\<close> of a locked mutex, and a coroutine that finds the mutex unlocked does not wait.
\<close>

theorem coroutine_mutex_fifo:
  assumes "lock_reach s"
  shows "distinct (woken s @ m_sleep_cors (mutex s)) \<and> holders s \<inter> waiting s = {} \<and>
    (m_lock (mutex s) \<longrightarrow>
       fst (unlock False (mutex s)) = (case m_sleep_cors (mutex s) of [] \<Rightarrow> None | d # _ \<Rightarrow> Some d) \<and>
       m_sleep_cors (snd (unlock False (mutex s))) = tl (m_sleep_cors (mutex s))) \<and>
    fst (lock False c (mutex s)) = (if m_lock (mutex s) then Yields else Goes_On)"
  using lock_reach_wf [OF assms]
  by (auto simp: users_wf_def unlock_def lock_def Let_def split: list.split)

lemma coroutine_mutex_fifo_witness: "fst (unlock False (mutex example_users)) = Some 2"
  using coroutine_mutex_fifo [OF example_users_reach] by (simp add: example_users_def)

end
