(* ===== verification/Thread_Pool.thy ===== *)
theory Thread_Pool
  imports Prelude "HOL-Library.Multiset"
begin

text \<open>
  The pool of worker threads: \<open>comm/thread_pool.h\<close> and \<open>comm/thread_pool.cc\<close>. A worker is where its
  thread stands in \<open>MainFunction\<close>; what it does under the mutex of the pool is one step. A thread that
  waits may wake at any time, as \<open>pthread_cond_wait\<close> allows, and looks at the queue again.
\<close>

section \<open>The code\<close>

datatype 'cb worker = At_Loop | Waiting | Running 'cb | Returned

record 'cb thread_pool =
  m_size :: int
  m_tasks :: "'cb list"
  m_is_stop :: bool
  m_workers :: "'cb worker list"

definition new_ThreadPool :: "int \<Rightarrow> 'cb thread_pool" where
  "new_ThreadPool n = \<lparr>m_size = n, m_tasks = [], m_is_stop = False, m_workers = []\<rparr>"

definition start :: "'cb thread_pool \<Rightarrow> 'cb thread_pool" where
  "start p = p\<lparr>m_workers := m_workers p @ replicate (nat (m_size p)) At_Loop\<rparr>"

definition stop_pool :: "'cb thread_pool \<Rightarrow> 'cb thread_pool" where
  "stop_pool p = p\<lparr>m_is_stop := True\<rparr>"

definition pool_addTask :: "'cb \<Rightarrow> 'cb thread_pool \<Rightarrow> 'cb thread_pool" where
  "pool_addTask cb p = p\<lparr>m_tasks := m_tasks p @ [cb]\<rparr>"

text \<open>The inner loop of \<open>MainFunction\<close>, once: the front of the queue is taken, or the thread waits.\<close>

definition take_task :: "'cb thread_pool \<Rightarrow> 'cb worker \<times> 'cb thread_pool" where
  "take_task p =
     (case m_tasks p of
        [] \<Rightarrow> (Waiting, p)
      | cb # rest \<Rightarrow> (Running cb, p\<lparr>m_tasks := rest\<rparr>))"

text \<open>One step of a worker in \<open>MainFunction\<close>; a running worker has then called its task.\<close>

definition MainFunction_step :: "'cb worker \<Rightarrow> 'cb thread_pool \<Rightarrow> 'cb worker \<times> 'cb thread_pool" where
  "MainFunction_step w p =
     (case w of
        At_Loop \<Rightarrow> if m_is_stop p then (Returned, p) else take_task p
      | Waiting \<Rightarrow> take_task p
      | Running cb \<Rightarrow> (At_Loop, p)
      | Returned \<Rightarrow> (Returned, p))"

section \<open>Schedules\<close>

text \<open>What happens to the pool: tasks are added, it is stopped, and the threads move, in any order.\<close>

datatype 'cb pool_event = Add 'cb | Stop | Step nat

text \<open>The tasks whose call has ended are collected.\<close>

definition step_worker :: "nat \<Rightarrow> 'cb thread_pool \<Rightarrow> 'cb list \<times> 'cb thread_pool" where
  "step_worker i p =
     (if i < length (m_workers p) then
        (case MainFunction_step (m_workers p ! i) p of (w, p') \<Rightarrow>
           ((case m_workers p ! i of Running cb \<Rightarrow> [cb] | _ \<Rightarrow> []),
            p'\<lparr>m_workers := (m_workers p)[i := w]\<rparr>))
      else ([], p))"

fun run_pool :: "'cb pool_event list \<Rightarrow> 'cb thread_pool \<Rightarrow> 'cb list \<times> 'cb thread_pool" where
  "run_pool [] p = ([], p)"
| "run_pool (Add cb # es) p = run_pool es (pool_addTask cb p)"
| "run_pool (Stop # es) p = run_pool es (stop_pool p)"
| "run_pool (Step i # es) p =
     (case step_worker i p of (done, p) \<Rightarrow> case run_pool es p of (dones, p) \<Rightarrow> (done @ dones, p))"

fun added :: "'cb pool_event list \<Rightarrow> 'cb list" where
  "added [] = []"
| "added (Add cb # es) = cb # added es"
| "added (_ # es) = added es"

fun running :: "'cb worker \<Rightarrow> 'cb list" where
  "running (Running cb) = [cb]"
| "running _ = []"

definition in_work :: "'cb thread_pool \<Rightarrow> 'cb multiset" where
  "in_work p = mset (concat (map running (m_workers p)))"

lemma in_work_update:
  "i < length ws \<Longrightarrow> mset (concat (map running (ws[i := w]))) + mset (running (ws ! i)) =
     mset (concat (map running ws)) + mset (running w)"
proof (induction ws arbitrary: i)
  case (Cons a ws)
  then show ?case by (cases i) (auto simp: add.assoc add.commute add.left_commute)
qed simp

lemma step_worker_keeps:
  assumes "step_worker i p = (done, p')"
  shows "mset done + in_work p' + mset (m_tasks p') = in_work p + mset (m_tasks p)"
proof (cases "i < length (m_workers p)")
  case True
  obtain w q where q: "MainFunction_step (m_workers p ! i) p = (w, q)" by fastforce
  have "mset (running w) + mset (m_tasks q) = mset (m_tasks p)"
    using q by (auto simp: MainFunction_step_def take_task_def split: worker.splits list.splits if_splits)
  moreover have "done = running (m_workers p ! i)" "p' = q\<lparr>m_workers := (m_workers p)[i := w]\<rparr>"
    using assms True q by (cases "m_workers p ! i"; simp add: step_worker_def)+
  ultimately have "mset done + in_work p' + mset (m_tasks p') =
      (mset (concat (map running ((m_workers p)[i := w]))) + mset (running (m_workers p ! i))) + mset (m_tasks q)"
    by (simp add: in_work_def ac_simps)
  also have "\<dots> = in_work p + (mset (running w) + mset (m_tasks q))"
    by (subst in_work_update [OF True]) (simp only: in_work_def ac_simps)
  finally show ?thesis
    using \<open>mset (running w) + mset (m_tasks q) = mset (m_tasks p)\<close> by simp
qed (use assms in \<open>auto simp: step_worker_def\<close>)

lemma step_worker_front:
  assumes "step_worker i p = (done, p')"
  shows "\<exists>taken. m_tasks p = taken @ m_tasks p' \<and> length taken \<le> 1"
  using assms by (cases "m_tasks p") (auto simp: step_worker_def MainFunction_step_def take_task_def
      split: worker.splits if_splits)

lemma run_pool_keeps:
  "run_pool es p = (dones, p') \<Longrightarrow>
     mset dones + in_work p' + mset (m_tasks p') = in_work p + mset (m_tasks p) + mset (added es) \<and>
     (\<exists>taken. m_tasks p @ added es = taken @ m_tasks p')"
proof (induction es p arbitrary: dones p' rule: run_pool.induct)
  case (2 cb es p)
  from "2.IH" [of dones p'] "2.prems" show ?case by (auto simp: pool_addTask_def in_work_def ac_simps)
next
  case (3 es p)
  from "3.IH" [of dones p'] "3.prems" show ?case by (auto simp: stop_pool_def in_work_def ac_simps)
next
  case (4 i es p)
  obtain d q where q: "step_worker i p = (d, q)" by fastforce
  obtain ds r where r: "run_pool es q = (ds, r)" by fastforce
  have "dones = d @ ds" "p' = r" using "4.prems" q r by simp_all
  moreover note "4.IH" [OF q [symmetric] r] step_worker_keeps [OF q] step_worker_front [OF q]
  ultimately show ?case by (auto simp: ac_simps)
qed simp

section \<open>Properties\<close>

text \<open>
  C31: Every task is called once, and tasks are taken in the order in which they were added: for
  any schedule of additions, stops and moves of the threads, the calls that have ended, the
  tasks in work and the queue together are the tasks that were there and those added, and what
  is still queued is the end of that sequence. But a stop reaches only threads between two
  tasks: threads that wait on an empty queue wait on, whatever the schedule, so that joining
  them would not return.
\<close>

theorem thread_pool_calls_each_once:
  assumes "run_pool es (start (new_ThreadPool n)) = (dones, p')"
  shows "mset dones + in_work p' + mset (m_tasks p') = mset (added es) \<and>
    (\<exists>taken. added es = taken @ m_tasks p') \<and>
    (m_tasks p' = [] \<longrightarrow> set (m_workers p') \<subseteq> {Waiting} \<longrightarrow> added es' = [] \<longrightarrow>
       m_workers (snd (run_pool (Stop # es') p')) = m_workers p')"
proof -
  have "concat (map running (replicate k (At_Loop :: 'a worker))) = []" for k by (induction k) simp_all
  then have "in_work (start (new_ThreadPool n) :: 'a thread_pool) = {#}"
    "m_tasks (start (new_ThreadPool n) :: 'a thread_pool) = []"
    by (simp_all add: in_work_def start_def new_ThreadPool_def)
  moreover have "m_workers (snd (run_pool es' q)) = m_workers q"
    if "m_tasks q = []" "set (m_workers q) \<subseteq> {Waiting}" "added es' = []" for q
    using that
  proof (induction es' q rule: run_pool.induct)
    case (4 i es q)
    have "m_workers q ! i = Waiting \<and> (m_workers q)[i := Waiting] = m_workers q" if i: "i < length (m_workers q)"
    proof -
      have "m_workers q ! i = Waiting" using nth_mem [OF i] "4.prems"(2) by blast
      then show ?thesis using list_update_id [of "m_workers q" i] by simp
    qed
    with 4 have "step_worker i q = ([], q)"
      by (auto simp: step_worker_def MainFunction_step_def take_task_def)
    with 4 show ?case by (simp add: case_prod_unfold)
  qed (simp_all add: stop_pool_def)
  ultimately show ?thesis
    using run_pool_keeps [OF assms] by (simp add: stop_pool_def)
qed

lemma thread_pool_calls_each_once_witness:
  "m_workers (snd (run_pool [Stop, Step 0, Step 1]
     (snd (run_pool [Step 0, Step 1, Add ''a'', Step 1, Step 1, Step 1] (start (new_ThreadPool 2))))))
   = [Waiting, Waiting]"
proof -
  let ?es = "[Step 0, Step 1, Add ''a'', Step 1, Step 1, Step 1]"
  let ?p = "\<lparr>m_size = 2, m_tasks = [], m_is_stop = False, m_workers = [Waiting, Waiting]\<rparr>"
  have "replicate 2 At_Loop = [At_Loop, At_Loop :: string worker]" by (simp add: numeral_2_eq_2)
  then have e: "run_pool ?es (start (new_ThreadPool 2)) = ([''a''], ?p)"
    by (simp add: start_def new_ThreadPool_def step_worker_def MainFunction_step_def take_task_def pool_addTask_def)
  with thread_pool_calls_each_once [OF e, of "[Step 0, Step 1]"] show ?thesis by simp
qed

end
