(* ===== verification/Coctx.thy ===== *)
theory Coctx
  imports Memory
begin

text \<open>
  The switch of contexts: \<open>coroutine/coctx.h\<close>, and the part of \<open>Coroutine::setCallBack\<close> that fills a context
  in \<open>coroutine/coroutine.cc\<close>. The inline assembly is a list of instructions of a machine with the sixteen
  general registers and a memory of bytes; flags, and the addresses of the instructions
  themselves, play no part. \<open>rip\<close> is where the machine continues after the last \<open>ret\<close>.
\<close>

unbundle bit_operations_syntax

section \<open>The machine\<close>

type_synonym byte_memory = "64 word \<Rightarrow> 8 word"

definition load64 :: "byte_memory \<Rightarrow> 64 word \<Rightarrow> 64 word" where
  "load64 m a = word_of_int (horner_sum uint 256 (map (\<lambda>i. m (a + word_of_nat i)) [0..<8]))"

definition store64 :: "64 word \<Rightarrow> 64 word \<Rightarrow> byte_memory \<Rightarrow> byte_memory" where
  "store64 a v m = (\<lambda>x. if x - a < 8 then word_of_int (uint v div 256 ^ unat (x - a)) else m x)"

text \<open>Eight bytes at \<open>a\<close> and eight bytes at \<open>b\<close> have none in common.\<close>

definition far :: "64 word \<Rightarrow> 64 word \<Rightarrow> bool" where
  "far a b \<longleftrightarrow> 8 \<le> a - b \<and> 8 \<le> b - a"

datatype reg = RAX | RBX | RCX | RDX | RSI | RDI | RBP | RSP
  | R8 | R9 | R10 | R11 | R12 | R13 | R14 | R15

text \<open>
  \<open>leaq disp(base),dst\<close>, \<open>movq src,disp(base)\<close>, \<open>movq disp(base),dst\<close>, \<open>xorq src,dst\<close>, \<open>pushq disp(base)\<close>
  and \<open>ret\<close>.
\<close>

datatype instr = Leaq int reg reg | Store reg int reg | Load int reg reg | Xorq reg reg | Pushq int reg | Ret

record cpu =
  regs :: "reg \<Rightarrow> 64 word"
  rip :: "64 word"
  mem :: byte_memory

definition set_reg :: "reg \<Rightarrow> 64 word \<Rightarrow> cpu \<Rightarrow> cpu" where
  "set_reg r v s = s\<lparr>regs := (regs s)(r := v)\<rparr>"

definition address :: "int \<Rightarrow> reg \<Rightarrow> cpu \<Rightarrow> 64 word" where
  "address disp base s = regs s base + word_of_int disp"

fun exec_instr :: "instr \<Rightarrow> cpu \<Rightarrow> cpu" where
  "exec_instr (Leaq disp base dst) s = set_reg dst (address disp base s) s"
| "exec_instr (Store src disp base) s = s\<lparr>mem := store64 (address disp base s) (regs s src) (mem s)\<rparr>"
| "exec_instr (Load disp base dst) s = set_reg dst (load64 (mem s) (address disp base s)) s"
| "exec_instr (Xorq src dst) s = set_reg dst (regs s dst XOR regs s src) s"
| "exec_instr (Pushq disp base) s =
     (let v = load64 (mem s) (address disp base s); sp = regs s RSP - 8
      in (set_reg RSP sp s)\<lparr>mem := store64 sp v (mem s)\<rparr>)"
| "exec_instr Ret s = (set_reg RSP (regs s RSP + 8) s)\<lparr>rip := load64 (mem s) (regs s RSP)\<rparr>"

section \<open>The code\<close>

definition kRBP :: nat where "kRBP = 6"
definition kRDI :: nat where "kRDI = 7"
definition kRSI :: nat where "kRSI = 8"
definition kRETAddr :: nat where "kRETAddr = 9"
definition kRSP :: nat where "kRSP = 13"

text \<open>\<open>struct coctx\<close> is fourteen words; \<open>coctx_reg A k\<close> is the address of \<open>regs[k]\<close>.\<close>

definition coctx_size :: nat where
  "coctx_size = 14 * 8"

definition coctx_reg :: "64 word \<Rightarrow> nat \<Rightarrow> 64 word" where
  "coctx_reg A k = A + word_of_nat (8 * k)"

definition coctx_swap_asm :: "instr list" where
  "coctx_swap_asm =
    [Leaq 0 RSP RAX,
     Store RAX 104 RDI,
     Store RBX 96 RDI,
     Store RCX 88 RDI,
     Store RDX 80 RDI,
     Load 0 RAX RAX,
     Store RAX 72 RDI,
     Store RSI 64 RDI,
     Store RDI 56 RDI,
     Store RBP 48 RDI,
     Store R8 40 RDI,
     Store R9 32 RDI,
     Store R12 24 RDI,
     Store R13 16 RDI,
     Store R14 8 RDI,
     Store R15 0 RDI,
     Xorq RAX RAX,
     Load 48 RSI RBP,
     Load 104 RSI RSP,
     Load 0 RSI R15,
     Load 8 RSI R14,
     Load 16 RSI R13,
     Load 24 RSI R12,
     Load 32 RSI R9,
     Load 40 RSI R8,
     Load 56 RSI RDI,
     Load 80 RSI RDX,
     Load 88 RSI RCX,
     Load 96 RSI RBX,
     Leaq 8 RSP RSP,
     Pushq 72 RSI,
     Load 64 RSI RSI,
     Ret]"

text \<open>The assembly with \<open>old_ctx\<close> in \<open>rdi\<close> and \<open>new_ctx\<close> in \<open>rsi\<close>, as its operands say.\<close>

definition swap_contexts :: "64 word \<Rightarrow> 64 word \<Rightarrow> cpu \<Rightarrow> cpu" where
  "swap_contexts old_ctx new_ctx s = fold exec_instr coctx_swap_asm (set_reg RSI new_ctx (set_reg RDI old_ctx s))"

text \<open>\<open>Coroutine::setCallBack\<close>: the aligned top of the stack, and the context that enters \<open>CoFunction\<close>.\<close>

definition stack_top :: "64 word \<Rightarrow> 64 word \<Rightarrow> 64 word" where
  "stack_top stack_sp stack_size = (stack_sp + stack_size) AND (- 16)"

definition memset_coctx :: "64 word \<Rightarrow> byte_memory \<Rightarrow> byte_memory" where
  "memset_coctx A m = (\<lambda>x. if x - A < word_of_nat coctx_size then 0 else m x)"

definition set_up_context ::
  "64 word \<Rightarrow> 64 word \<Rightarrow> 64 word \<Rightarrow> 64 word \<Rightarrow> 64 word \<Rightarrow> byte_memory \<Rightarrow> byte_memory" where
  "set_up_context A this CoFunction stack_sp stack_size m =
     (let top = stack_top stack_sp stack_size;
          m = memset_coctx A m;
          m = store64 (coctx_reg A kRSP) top m;
          m = store64 (coctx_reg A kRBP) top m;
          m = store64 (coctx_reg A kRETAddr) CoFunction m
      in store64 (coctx_reg A kRDI) this m)"

section \<open>Loads and stores\<close>

lemma horner_digits:
  fixes n :: int
  shows "horner_sum (\<lambda>x. x) 256 (map (\<lambda>i. n div 256 ^ i mod 256) [0..<k]) = n mod 256 ^ k"
proof (induction k arbitrary: n)
  case (Suc k)
  have m: "map (\<lambda>i. n div 256 ^ i mod 256) [0..<Suc k] = n mod 256 # map (\<lambda>i. (n div 256) div 256 ^ i mod 256) [0..<k]"
    by (simp add: map_upt_Suc zdiv_zmult2_eq del: upt_Suc)
  show ?case unfolding m using zmod_zmult2_eq [of "256 ^ k" n 256] by (simp add: Suc.IH)
qed simp

lemma load64_store64_same [simp]: "load64 (store64 a v m) a = v"
proof -
  have "map (\<lambda>i. uint (store64 a v m (a + word_of_nat i))) [0..<8] = map (\<lambda>i. uint v div 256 ^ i mod 256) [0..<8]"
  proof (rule map_cong [OF refl])
    fix i :: nat assume "i \<in> set [0..<8]"
    then have i: "i < 8" by simp
    then have "unat (word_of_nat i :: 64 word) = i" by (simp add: unat_of_nat)
    moreover from i this have "(word_of_nat i :: 64 word) < 8" by (simp add: word_less_nat_alt)
    ultimately show "uint (store64 a v m (a + word_of_nat i)) = uint v div 256 ^ i mod 256"
      by (simp add: store64_def uint_word_of_int take_bit_eq_mod)
  qed
  then have "horner_sum (\<lambda>x. x) 256 (map (\<lambda>i. uint (store64 a v m (a + word_of_nat i))) [0..<8]) = uint v mod 256 ^ 8"
    using horner_digits [of "uint v" 8] by metis
  moreover have "horner_sum uint 256 (map f xs) = horner_sum (\<lambda>x. x) 256 (map (\<lambda>i. uint (f i)) xs)"
    for f :: "nat \<Rightarrow> 8 word" and xs by (induction xs) simp_all
  ultimately have "load64 (store64 a v m) a = word_of_int (uint v mod 256 ^ 8)"
    unfolding load64_def by metis
  moreover have "uint v < 256 ^ 8" using uint_bounded [of v] by simp
  ultimately show ?thesis by simp
qed

lemma load64_cong: "(\<And>i. i < 8 \<Longrightarrow> m (a + word_of_nat i) = m' (a + word_of_nat i)) \<Longrightarrow> load64 m a = load64 m' a"
  unfolding load64_def by (intro arg_cong [where f = word_of_int] arg_cong [where f = "horner_sum uint 256"] map_cong) auto

lemma uint_neg: "x \<noteq> 0 \<Longrightarrow> uint (- x) = 2 ^ 64 - uint x" for x :: "64 word"
  using uint_bounded [of x] by (simp add: uint_word_ariths zmod_zminus1_eq_if unsigned_eq_0_iff)

lemma uint_plus: "uint x + uint i < 2 ^ 64 \<Longrightarrow> uint (x + i) = uint x + uint i" for x i :: "64 word"
  by (simp add: uint_word_ariths)

lemma uint_minus: "uint j \<le> uint x \<Longrightarrow> uint (x - j) = uint x - uint j" for x j :: "64 word"
  by (simp add: uint_sub_if')

lemma word_ge_uint: "numeral n \<le> x \<longleftrightarrow> uint (numeral n :: 64 word) \<le> uint x" for x :: "64 word"
  by (simp add: word_le_def)

text \<open>
  What is \<open>n\<close> away in one direction and \<open>k\<close> in the other is still \<open>n - c\<close> and \<open>k\<close> away after a
  shift of at most \<open>c\<close>, and so it is for two shifts.
\<close>

lemma distance_shift:
  fixes a b :: "64 word"
  assumes "n \<le> uint (a - b)" and "k \<le> uint (b - a)" and "0 < n" and "0 < k" and "uint j \<le> c" and "c \<le> n"
  shows "n - c \<le> uint (a - (b + j))" and "c < n \<Longrightarrow> k \<le> uint (b + j - a)"
proof -
  have nz: "b - a \<noteq> 0" using assms(2,4) by auto
  then have u: "uint (a - b) = 2 ^ 64 - uint (b - a)" using uint_neg [of "b - a"] by simp
  have "uint (a - b - j) = uint (a - b) - uint j" using assms by (intro uint_minus) simp
  then show "n - c \<le> uint (a - (b + j))" using assms by (simp add: diff_diff_add)
  assume "c < n"
  with assms u have "uint (b - a + j) = uint (b - a) + uint j" by (intro uint_plus) simp
  moreover have "b + j - a = b - a + j" by (simp only: diff_add_eq)
  moreover have "k \<le> uint (b - a) + uint j" using assms(2) by (simp add: add_increasing2)
  ultimately show "k \<le> uint (b + j - a)" by metis
qed

lemma far_bytes:
  assumes "far a b" and "i < 8"
  shows "\<not> b + word_of_nat i - a < 8"
proof -
  have "uint (word_of_nat i :: 64 word) \<le> 7" using assms(2) by (simp add: uint_nat unat_of_nat)
  from distance_shift(2) [OF _ _ _ _ this, of 8 a b 8] assms(1) have "8 \<le> uint (b + word_of_nat i - a)"
    by (simp add: far_def word_ge_uint)
  then have "8 \<le> b + word_of_nat i - a" unfolding word_ge_uint by simp
  then show ?thesis by simp
qed

lemma load64_store64_far [simp]: "far a b \<Longrightarrow> load64 (store64 a v m) b = load64 m b"
  by (rule load64_cong) (simp add: store64_def far_bytes)


text \<open>Two contexts, or a context and the eight bytes at a stack pointer, have no byte in common.\<close>

definition ctx_apart :: "64 word \<Rightarrow> 64 word \<Rightarrow> bool" where
  "ctx_apart A B \<longleftrightarrow> 112 \<le> A - B \<and> 112 \<le> B - A"

definition slot_apart :: "64 word \<Rightarrow> 64 word \<Rightarrow> bool" where
  "slot_apart p A \<longleftrightarrow> 8 \<le> A - p \<and> 112 \<le> p - A"

lemma far_same:
  "far (A + numeral i) (A + numeral j) \<longleftrightarrow> far (numeral i) (numeral j)"
  "far (A + numeral i) A \<longleftrightarrow> far (numeral i) 0" "far A (A + numeral j) \<longleftrightarrow> far 0 (numeral j)"
  by (simp_all add: far_def)

lemma ctx_apart_far:
  assumes "ctx_apart A B" and "i \<le> 104" and "j \<le> 104"
  shows "far (A + i) (B + j)"
proof -
  have u: "uint i \<le> 104" "uint j \<le> 104" using assms(2,3) by (simp_all add: word_le_def)
  have "112 \<le> uint (A - B)" "112 \<le> uint (B - A)" using assms(1) by (simp_all add: ctx_apart_def word_ge_uint)
  from distance_shift [OF this _ _ u(2)] have "8 \<le> uint (A - (B + j))" "112 \<le> uint (B + j - A)" by simp_all
  from distance_shift [OF this(2,1) _ _ u(1)] have "8 \<le> uint (B + j - (A + i))" "8 \<le> uint (A + i - (B + j))" by simp_all
  then show ?thesis by (simp add: far_def word_ge_uint)
qed

lemma slot_apart_far:
  assumes "slot_apart p A" and "j \<le> 104"
  shows "far p (A + j)"
proof -
  have u: "uint j \<le> 104" using assms(2) by (simp add: word_le_def)
  have "112 \<le> uint (p - A)" "8 \<le> uint (A - p)" using assms(1) by (simp_all add: slot_apart_def word_ge_uint)
  from distance_shift [OF this _ _ u] show ?thesis by (simp add: far_def word_ge_uint)
qed


section \<open>What the switch does\<close>

text \<open>The words of a context, as the assembly reads and writes them.\<close>

definition save_context :: "64 word \<Rightarrow> (reg \<Rightarrow> 64 word) \<Rightarrow> 64 word \<Rightarrow> byte_memory \<Rightarrow> byte_memory" where
  "save_context A r ret =
     store64 A (r R15) \<circ> store64 (A + 8) (r R14) \<circ> store64 (A + 16) (r R13) \<circ> store64 (A + 24) (r R12) \<circ>
     store64 (A + 32) (r R9) \<circ> store64 (A + 40) (r R8) \<circ> store64 (A + 48) (r RBP) \<circ> store64 (A + 56) (r RDI) \<circ>
     store64 (A + 64) (r RSI) \<circ> store64 (A + 72) ret \<circ> store64 (A + 80) (r RDX) \<circ> store64 (A + 88) (r RCX) \<circ>
     store64 (A + 96) (r RBX) \<circ> store64 (A + 104) (r RSP)"

lemmas far_simps [simp] =
  far_same far_def [of "numeral i" "numeral j" for i j] far_def [of 0 "numeral j" for j] far_def [of "numeral i" 0 for i]

lemma load64_save_context:
  "load64 (save_context A r ret m) A = r R15" "load64 (save_context A r ret m) (A + 8) = r R14"
  "load64 (save_context A r ret m) (A + 16) = r R13" "load64 (save_context A r ret m) (A + 24) = r R12"
  "load64 (save_context A r ret m) (A + 32) = r R9" "load64 (save_context A r ret m) (A + 40) = r R8"
  "load64 (save_context A r ret m) (A + 48) = r RBP" "load64 (save_context A r ret m) (A + 56) = r RDI"
  "load64 (save_context A r ret m) (A + 64) = r RSI" "load64 (save_context A r ret m) (A + 72) = ret"
  "load64 (save_context A r ret m) (A + 80) = r RDX" "load64 (save_context A r ret m) (A + 88) = r RCX"
  "load64 (save_context A r ret m) (A + 96) = r RBX" "load64 (save_context A r ret m) (A + 104) = r RSP"
  by (simp_all add: save_context_def)


lemma load64_save_context_apart:
  assumes "ctx_apart A B"
  shows "load64 (save_context A r ret m) B = load64 m B"
    "k \<le> 104 \<Longrightarrow> load64 (save_context A r ret m) (B + k) = load64 m (B + k)"
proof -
  have f: "far (A + i) (B + k)" if "i \<le> 104" "k \<le> 104" for i k using assms that by (rule ctx_apart_far)
  have f0: "far A (B + k)" if "k \<le> 104" for k using f [of 0 k] that by simp
  show r: "load64 (save_context A r ret m) (B + k) = load64 m (B + k)" if "k \<le> 104" for k
    using that by (simp add: save_context_def f f0)
  from r [of 0] show "load64 (save_context A r ret m) B = load64 m B" by simp
qed

text \<open>
  The whole switch: the old context gets the registers with the word on top of the stack as the
  address of return; the new one gives its registers, its address of return goes on its stack
  and is taken from there.
\<close>

lemma save_part:
  assumes "slot_apart (regs s RSP) A" and "regs s RDI = A"
  shows "fold exec_instr (take 17 coctx_swap_asm) s =
    s\<lparr>regs := (regs s)(RAX := 0), mem := save_context A (regs s) (load64 (mem s) (regs s RSP)) (mem s)\<rparr>"
proof -
  have f: "far (A + k) (regs s RSP)" if "k \<le> 104" for k
    using slot_apart_far [OF assms(1) that] by (simp add: far_def)
  show ?thesis
    by (simp add: coctx_swap_asm_def set_reg_def address_def save_context_def f assms(2) fun_eq_iff)
qed

lemma swap_contexts_effect:
  assumes "ctx_apart A B" and "slot_apart (regs s RSP) A" and "slot_apart (load64 (mem s) (B + 104)) B"
  shows "swap_contexts A B s =
    (let m = save_context A ((regs s)(RDI := A, RSI := B)) (load64 (mem s) (regs s RSP)) (mem s);
         sp = load64 (mem s) (B + 104)
     in \<lparr>regs = (\<lambda>r. case r of
            RAX \<Rightarrow> 0 | RBX \<Rightarrow> load64 m (B + 96) | RCX \<Rightarrow> load64 m (B + 88) | RDX \<Rightarrow> load64 m (B + 80)
          | RSI \<Rightarrow> load64 m (B + 64) | RDI \<Rightarrow> load64 m (B + 56) | RBP \<Rightarrow> load64 m (B + 48) | RSP \<Rightarrow> sp + 8
          | R8 \<Rightarrow> load64 m (B + 40) | R9 \<Rightarrow> load64 m (B + 32) | R12 \<Rightarrow> load64 m (B + 24) | R13 \<Rightarrow> load64 m (B + 16)
          | R14 \<Rightarrow> load64 m (B + 8) | R15 \<Rightarrow> load64 m B | r \<Rightarrow> regs s r),
         rip = load64 m (B + 72), mem = store64 sp (load64 m (B + 72)) m\<rparr>)"
proof -
  let ?s = "set_reg RSI B (set_reg RDI A s)"
  let ?m = "save_context A ((regs s)(RDI := A, RSI := B)) (load64 (mem s) (regs s RSP)) (mem s)"
  have asm: "coctx_swap_asm = take 17 coctx_swap_asm @ drop 17 coctx_swap_asm" by simp
  have 1: "fold exec_instr (take 17 coctx_swap_asm) ?s = ?s\<lparr>regs := (regs ?s)(RAX := 0), mem := ?m\<rparr>"
    using save_part [of ?s A] assms(2) by (simp add: set_reg_def)
  have sp: "load64 ?m (B + 104) = load64 (mem s) (B + 104)" using load64_save_context_apart(2) [OF assms(1)] by simp
  have f: "far (load64 (mem s) (B + 104)) (B + 64)" using slot_apart_far [OF assms(3)] by simp
  have "swap_contexts A B s = fold exec_instr (drop 17 coctx_swap_asm) (?s\<lparr>regs := (regs ?s)(RAX := 0), mem := ?m\<rparr>)"
    unfolding swap_contexts_def by (subst asm) (simp only: fold_append comp_def 1)
  also have "\<dots> = \<lparr>regs = (\<lambda>r. case r of
            RAX \<Rightarrow> 0 | RBX \<Rightarrow> load64 ?m (B + 96) | RCX \<Rightarrow> load64 ?m (B + 88) | RDX \<Rightarrow> load64 ?m (B + 80)
          | RSI \<Rightarrow> load64 ?m (B + 64) | RDI \<Rightarrow> load64 ?m (B + 56) | RBP \<Rightarrow> load64 ?m (B + 48)
          | RSP \<Rightarrow> load64 (mem s) (B + 104) + 8
          | R8 \<Rightarrow> load64 ?m (B + 40) | R9 \<Rightarrow> load64 ?m (B + 32) | R12 \<Rightarrow> load64 ?m (B + 24) | R13 \<Rightarrow> load64 ?m (B + 16)
          | R14 \<Rightarrow> load64 ?m (B + 8) | R15 \<Rightarrow> load64 ?m B | r \<Rightarrow> regs s r),
         rip = load64 ?m (B + 72), mem = store64 (load64 (mem s) (B + 104)) (load64 ?m (B + 72)) ?m\<rparr>"
    using sp f by (simp add: coctx_swap_asm_def set_reg_def address_def Let_def fun_eq_iff split: reg.split)
  finally show ?thesis by (simp only: Let_def)
qed


text \<open>A context whose bytes are kept is read as it was written.\<close>

definition context_kept :: "64 word \<Rightarrow> byte_memory \<Rightarrow> byte_memory \<Rightarrow> bool" where
  "context_kept A m m' \<longleftrightarrow> (\<forall>k < coctx_size. m' (A + word_of_nat k) = m (A + word_of_nat k))"

lemma context_kept_load64:
  assumes "context_kept A m m'" and "j \<le> 104"
  shows "load64 m' (A + word_of_nat j) = load64 m (A + word_of_nat j)"
proof (rule load64_cong)
  fix i :: nat assume "i < 8"
  with assms have "m' (A + word_of_nat (j + i)) = m (A + word_of_nat (j + i))"
    by (simp add: context_kept_def coctx_size_def del: of_nat_add)
  then show "m' (A + word_of_nat j + word_of_nat i) = m (A + word_of_nat j + word_of_nat i)" by (simp add: add.assoc)
qed

lemma context_kept_loads:
  assumes "context_kept A m m'"
  shows "load64 m' A = load64 m A" "load64 m' (A + 8) = load64 m (A + 8)" "load64 m' (A + 16) = load64 m (A + 16)"
    "load64 m' (A + 24) = load64 m (A + 24)" "load64 m' (A + 32) = load64 m (A + 32)"
    "load64 m' (A + 40) = load64 m (A + 40)" "load64 m' (A + 48) = load64 m (A + 48)"
    "load64 m' (A + 56) = load64 m (A + 56)" "load64 m' (A + 64) = load64 m (A + 64)"
    "load64 m' (A + 72) = load64 m (A + 72)" "load64 m' (A + 80) = load64 m (A + 80)"
    "load64 m' (A + 88) = load64 m (A + 88)" "load64 m' (A + 96) = load64 m (A + 96)"
    "load64 m' (A + 104) = load64 m (A + 104)"
  using context_kept_load64 [OF assms, of 0] context_kept_load64 [OF assms, of 8] context_kept_load64 [OF assms, of 16]
    context_kept_load64 [OF assms, of 24] context_kept_load64 [OF assms, of 32] context_kept_load64 [OF assms, of 40]
    context_kept_load64 [OF assms, of 48] context_kept_load64 [OF assms, of 56] context_kept_load64 [OF assms, of 64]
    context_kept_load64 [OF assms, of 72] context_kept_load64 [OF assms, of 80] context_kept_load64 [OF assms, of 88]
    context_kept_load64 [OF assms, of 96] context_kept_load64 [OF assms, of 104]
  by simp_all

text \<open>The state a context describes, and the state that is read from it.\<close>

lemma swap_back:
  assumes "ctx_apart A C" and "slot_apart (regs s2 RSP) C" and "slot_apart (r RSP) A"
    and "context_kept A (save_context A r ret m) (mem s2)"
  shows "rip (swap_contexts C A s2) = ret" "regs (swap_contexts C A s2) RSP = r RSP + 8"
    "k \<notin> {RAX, RSP, R10, R11} \<Longrightarrow> regs (swap_contexts C A s2) k = r k"
proof -
  note kept = context_kept_loads [OF assms(4), unfolded load64_save_context]
  have ca: "ctx_apart C A" using assms(1) by (simp add: ctx_apart_def)
  note effect = swap_contexts_effect [OF ca assms(2), unfolded kept, OF assms(3), unfolded Let_def
      load64_save_context_apart(1) [OF ca] load64_save_context_apart(2) [OF ca]]
  show "rip (swap_contexts C A s2) = ret" "regs (swap_contexts C A s2) RSP = r RSP + 8"
    "k \<notin> {RAX, RSP, R10, R11} \<Longrightarrow> regs (swap_contexts C A s2) k = r k"
    using load64_save_context_apart [OF ca] kept by (simp_all add: effect split: reg.split)
qed


lemma slot_bytes:
  assumes "slot_apart p A" and "k < 112"
  shows "\<not> A + word_of_nat k - p < 8"
proof -
  have u: "uint (word_of_nat k :: 64 word) \<le> 111" using assms(2) by (simp add: uint_nat unat_of_nat)
  have "112 \<le> uint (p - A)" "8 \<le> uint (A - p)" using assms(1) by (simp_all add: slot_apart_def word_ge_uint)
  from distance_shift(2) [OF this _ _ u] have "8 \<le> uint (A + word_of_nat k - p)" by simp
  then have "8 \<le> A + word_of_nat k - p" unfolding word_ge_uint by simp
  then show ?thesis by simp
qed

lemma context_kept_store: "slot_apart p A \<Longrightarrow> context_kept A m (store64 p v m)"
  by (simp add: context_kept_def store64_def coctx_size_def slot_bytes)

lemma context_kept_trans: "context_kept A m m' \<Longrightarrow> context_kept A m' m'' \<Longrightarrow> context_kept A m m''"
  by (simp add: context_kept_def)

lemma load64_memset_coctx:
  assumes "k \<le> 104"
  shows "load64 (memset_coctx A m) (A + word_of_nat k) = 0"
proof -
  have "memset_coctx A m (A + word_of_nat k + word_of_nat i) = 0" if "i < 8" for i
  proof -
    have "(word_of_nat (k + i) :: 64 word) < word_of_nat coctx_size"
      using assms that by (simp add: word_less_nat_alt unat_of_nat coctx_size_def del: of_nat_add)
    then show ?thesis by (simp add: memset_coctx_def add.assoc)
  qed
  then have "map (\<lambda>i. memset_coctx A m (A + word_of_nat k + word_of_nat i)) [0..<8] = map (\<lambda>i. 0) [0..<8]"
    by (intro map_cong [OF refl]) simp
  then have "load64 (memset_coctx A m) (A + word_of_nat k) = load64 (\<lambda>_. 0) 0" unfolding load64_def by metis
  also have "\<dots> = 0" by (simp add: load64_def horner_sum_simps(2) upt_rec)
  finally show ?thesis .
qed

lemma load64_set_up_context:
  fixes A this fn sp sz m
  defines "m' \<equiv> set_up_context A this fn sp sz m"
  shows "load64 m' A = 0" "load64 m' (A + 8) = 0" "load64 m' (A + 16) = 0" "load64 m' (A + 24) = 0"
    "load64 m' (A + 32) = 0" "load64 m' (A + 40) = 0" "load64 m' (A + 48) = stack_top sp sz"
    "load64 m' (A + 56) = this" "load64 m' (A + 64) = 0" "load64 m' (A + 72) = fn" "load64 m' (A + 80) = 0"
    "load64 m' (A + 88) = 0" "load64 m' (A + 96) = 0" "load64 m' (A + 104) = stack_top sp sz"
  using load64_memset_coctx [of 0 A m] load64_memset_coctx [of 8 A m] load64_memset_coctx [of 16 A m]
    load64_memset_coctx [of 24 A m] load64_memset_coctx [of 32 A m] load64_memset_coctx [of 40 A m]
    load64_memset_coctx [of 64 A m] load64_memset_coctx [of 80 A m]
    load64_memset_coctx [of 88 A m] load64_memset_coctx [of 96 A m]
  by (simp_all add: m'_def set_up_context_def coctx_reg_def kRSP_def kRBP_def kRETAddr_def kRDI_def Let_def)

lemma stack_top_aligned:
  assumes "16 dvd a" and "16 dvd n"
  shows "stack_top (word_of_int a) (word_of_int n) = word_of_int (a + n)"
proof -
  obtain k where k: "a + n = 16 * k" using assms by (meson dvd_add dvdE)
  have "word_of_int a + word_of_int n = (word_of_int (16 * k) :: 64 word)" by (simp add: k flip: of_int_add)
  also have "\<dots> = push_bit 4 (word_of_int k)" by (simp add: push_bit_eq_mult)
  finally have "stack_top (word_of_int a) (word_of_int n) = push_bit 4 (word_of_int k) AND push_bit 4 (- 1)"
    by (simp add: stack_top_def push_bit_eq_mult)
  also have "\<dots> = push_bit 4 (word_of_int k)" by (simp only: push_bit_and [symmetric] and.right_neutral)
  finally show ?thesis by (simp add: k push_bit_eq_mult)
qed

lemma store64_other: "\<not> x - a < 8 \<Longrightarrow> store64 a v m x = m x"
  by (simp add: store64_def)

lemma save_context_other:
  assumes "\<not> x - A < 112"
  shows "save_context A r ret m x = m x"
proof -
  have d: "112 \<le> uint (x - A)" using assms by (simp add: word_less_def)
  have "\<not> x - (A + k) < 8" if "k \<le> 104" for k
  proof -
    have k: "uint k \<le> 104" using that by (simp add: word_le_def)
    with d have "8 \<le> uint (x - A - k)" by (simp add: uint_minus)
    then have "8 \<le> x - A - k" by (simp add: word_ge_uint)
    then show ?thesis by (simp add: diff_diff_add)
  qed
  from this [of 0] this show ?thesis by (simp add: save_context_def store64_other)
qed

text \<open>The first switch into a context that \<open>setCallBack\<close> has prepared.\<close>

lemma first_switch:
  fixes sp sz :: "64 word"
  defines "t \<equiv> stack_top sp sz"
  assumes "ctx_apart M C" and "slot_apart (regs s RSP) M" and "slot_apart t C"
    and m: "context_kept C (set_up_context C this fn sp sz m) (mem s)"
  shows "rip (swap_contexts M C s) = fn" "regs (swap_contexts M C s) RDI = this"
    "regs (swap_contexts M C s) RSP = t + 8" "regs (swap_contexts M C s) RBP = t"
    "load64 (mem (swap_contexts M C s)) t = fn"
    "\<not> x - M < 112 \<Longrightarrow> \<not> x - t < 8 \<Longrightarrow> mem (swap_contexts M C s) x = mem s x"
proof -
  note kept = context_kept_loads [OF m, unfolded load64_set_up_context, folded t_def]
  have "slot_apart (load64 (mem s) (C + 104)) C" using assms(4) kept by simp
  from swap_contexts_effect [OF assms(2,3) this] show "rip (swap_contexts M C s) = fn"
    "regs (swap_contexts M C s) RDI = this" "regs (swap_contexts M C s) RSP = t + 8"
    "regs (swap_contexts M C s) RBP = t" "load64 (mem (swap_contexts M C s)) t = fn"
    "\<not> x - M < 112 \<Longrightarrow> \<not> x - t < 8 \<Longrightarrow> mem (swap_contexts M C s) x = mem s x"
    by (simp_all add: Let_def load64_save_context_apart [OF assms(2)] kept save_context_other store64_other)
qed

section \<open>Properties\<close>

text \<open>
  C10: A context that is left and whose 112 bytes are not written is entered again where it was
  left: the switch back continues at the word that was on top of the stack, with the stack
  pointer behind that word and every register but \<open>rax\<close>, \<open>r10\<close> and \<open>r11\<close>, which the callee may
  change, as it was, whatever ran in between.
\<close>

theorem context_switch_roundtrip:
  assumes "ctx_apart A B" and "slot_apart (regs s RSP) A" and "slot_apart (load64 (mem s) (B + 104)) B"
    and "slot_apart (load64 (mem s) (B + 104)) A"
    and "context_kept A (mem (swap_contexts A B s)) (mem s2)" and "ctx_apart A C" and "slot_apart (regs s2 RSP) C"
  shows "rip (swap_contexts C A s2) = load64 (mem s) (regs s RSP) \<and>
    regs (swap_contexts C A s2) RSP = regs s RSP + 8 \<and>
    (\<forall>k. k \<notin> {RAX, RSP, R10, R11} \<longrightarrow> regs (swap_contexts C A s2) k = ((regs s)(RDI := A, RSI := B)) k)"
proof -
  let ?r = "(regs s)(RDI := A, RSI := B)"
  let ?m = "save_context A ?r (load64 (mem s) (regs s RSP)) (mem s)"
  have "context_kept A ?m (mem (swap_contexts A B s))"
    by (simp add: swap_contexts_effect [OF assms(1-3)] Let_def context_kept_store [OF assms(4)])
  then have "context_kept A ?m (mem s2)" using assms(5) by (rule context_kept_trans)
  from swap_back [OF assms(6,7) _ this] assms(2) show ?thesis by auto
qed

definition example_cpu :: cpu where
  "example_cpu = \<lparr>regs = (\<lambda>r. if r = RSP then 32768 else if r = RBX then 7 else 0), rip = 0, mem = (\<lambda>_. 0)\<rparr>"

lemma context_switch_roundtrip_witness:
  "regs (swap_contexts 8192 4096 (swap_contexts 4096 8192 example_cpu)) RBX = 7 \<and>
   regs (swap_contexts 8192 4096 (swap_contexts 4096 8192 example_cpu)) RSP = 32776"
proof -
  let ?s = "swap_contexts 4096 8192 example_cpu"
  have z: "load64 (\<lambda>_. 0) a = 0" for a by (simp add: load64_def horner_sum_simps(2) upt_rec)
  have e: "regs example_cpu RSP = 32768" "regs example_cpu RBX = 7" "mem example_cpu = (\<lambda>_. 0)" by (simp_all add: example_cpu_def)
  have a: "ctx_apart 4096 8192" "slot_apart (regs example_cpu RSP) 4096"
    "slot_apart (load64 (mem example_cpu) (8192 + 104)) 8192" "slot_apart (load64 (mem example_cpu) (8192 + 104)) 4096"
    by (simp_all add: ctx_apart_def slot_apart_def e z)
  have "regs ?s RSP = 8" using swap_contexts_effect [OF a(1-3)] by (simp add: e z Let_def)
  with context_switch_roundtrip [OF a, of ?s 8192] a(1) e show ?thesis
    by (simp add: context_kept_def slot_apart_def)
qed

text \<open>
  C11: A coroutine whose stack is a block of the pool begins in \<open>CoFunction\<close> with its own address as
  the argument, and the switch writes nothing but the context it leaves and the eight bytes
  behind the block: the first ones of the next block, or, for the last block, bytes that
  \<open>malloc\<close> did not give. They hold the address of \<open>CoFunction\<close> afterwards.
\<close>

theorem coroutine_starts_past_its_block:
  assumes "memory_wf pool" and "getBlock pool = (Some a, pool')"
    and "16 dvd m_start pool" and "16 dvd m_block_size pool"
    and "context_kept C (set_up_context C this fn (word_of_int a) (word_of_int (m_block_size pool)) m) (mem s)"
    and "ctx_apart M C" and "slot_apart (regs s RSP) M" and "slot_apart (word_of_int (a + m_block_size pool)) C"
  shows "(let s' = swap_contexts M C s; behind = a + m_block_size pool in
    rip s' = fn \<and> regs s' RDI = this \<and> regs s' RSP = word_of_int behind + 8 \<and>
    load64 (mem s') (word_of_int behind) = fn \<and>
    (\<forall>x. x - M < 112 \<or> x - word_of_int behind < 8 \<or> mem s' x = mem s x) \<and>
    (\<exists>i. i < length (m_blocks pool) \<and> a = block_addr pool i \<and> behind = block_addr pool (Suc i) \<and>
       (Suc i = length (m_blocks pool) \<longrightarrow> behind = m_end pool + 1)))"
proof -
  from assms(2) obtain i where i: "first_free (m_blocks pool) = Some i" "a = block_addr pool i"
    by (auto simp: getBlock_def block_addr_def split: option.splits)
  with first_free_Some have l: "i < length (m_blocks pool)" by blast
  have "16 dvd a" using assms(3,4) by (simp add: i(2) block_addr_def)
  then have top: "stack_top (word_of_int a) (word_of_int (m_block_size pool)) = word_of_int (a + m_block_size pool)"
    using assms(4) by (rule stack_top_aligned)
  note first_switch = first_switch [OF assms(6,7) _ assms(5), unfolded top, OF assms(8)]
  have b: "a + m_block_size pool = block_addr pool (Suc i)" by (simp add: i(2) block_addr_def algebra_simps)
  moreover have "Suc i = length (m_blocks pool) \<Longrightarrow> block_addr pool (Suc i) = m_end pool + 1"
    using assms(1) by (simp add: memory_wf_def block_addr_def)
  ultimately show ?thesis using first_switch l i(2) by (auto simp: Let_def)
qed

definition example_pool :: memory where
  "example_pool = \<lparr>m_block_size = 128, m_block_count = 2, m_size = 256, m_start = 65536, m_end = 65791,
     m_ref_counts = 0, m_blocks = [False, False]\<rparr>"

lemma coroutine_starts_past_its_block_witness:
  "load64 (mem (swap_contexts 8192 4096
     (example_cpu\<lparr>mem := set_up_context 4096 4096 77 65536 128 (\<lambda>_. 0)\<rparr>))) 65664 = 77"
proof -
  have "getBlock example_pool = (Some 65536, example_pool\<lparr>m_blocks := [True, False], m_ref_counts := 1\<rparr>)"
    "memory_wf example_pool" by (simp_all add: getBlock_def example_pool_def memory_wf_def)
  from coroutine_starts_past_its_block [OF this(2,1), of 4096 4096 77 "\<lambda>_. 0"
      "example_cpu\<lparr>mem := set_up_context 4096 4096 77 65536 128 (\<lambda>_. 0)\<rparr>" 8192]
  show ?thesis
    by (simp add: example_pool_def context_kept_def ctx_apart_def slot_apart_def Let_def) (simp add: example_cpu_def)
qed

end
