(* ===== verification/Io_Thread_Start.thy ===== *)
theory Io_Thread_Start
  imports Io_Thread
begin

text \<open>
  How an IO thread begins and ends: the constructor and destructor of \<open>IOThread\<close>, \<open>IOThread::main\<close> and the
  post of \<open>IOThreadPool::start\<close> in \<open>net/tcp/io_thread.cc\<close>, as steps of two threads that meet at two
  semaphores. Io_Thread has the pool in the state this leads to. What the loop does between its beginning
  and its end is not looked at here: only \<open>m_is_looping\<close> and \<open>m_stop_flag\<close> matter.
\<close>

section \<open>The code\<close>

datatype semaphore = Sem nat | Destroyed_Sem

text \<open>Using a semaphore that is destroyed is undefined; \<open>None\<close> is a wait that blocks.\<close>

fun sem_post :: "semaphore \<Rightarrow> semaphore res" where
  "sem_post (Sem n) = Inr (Sem (Suc n))"
| "sem_post Destroyed_Sem = Inl Indeterminate_Value"

fun sem_wait :: "semaphore \<Rightarrow> semaphore option res" where
  "sem_wait (Sem 0) = Inr None"
| "sem_wait (Sem (Suc n)) = Inr (Some (Sem n))"
| "sem_wait Destroyed_Sem = Inl Indeterminate_Value"

text \<open>Where the owner of the thread and the thread itself stand.\<close>

datatype owner_pc = In_Wait_Init | In_Destroy_Init | Constructed | In_Join | Deleted
datatype main_pc = At_Begin | At_Post_Init | At_Wait_Start | At_Destroy_Start | At_Loop_Call | In_Loop | Returned_Main

record 'cb io_handshake =
  owner :: owner_pc
  main :: main_pc
  m_init_semaphore :: semaphore
  m_start_semaphore :: semaphore
  m_reactor_ptr :: "'cb reactor option"
  m_tid :: int
  posted :: bool

text \<open>After \<open>sem_init\<close> and \<open>pthread_create\<close> in the constructor.\<close>

definition IOThread_created :: "'cb io_handshake" where
  "IOThread_created =
     \<lparr>owner = In_Wait_Init, main = At_Begin, m_init_semaphore = Sem 0, m_start_semaphore = Sem 0,
      m_reactor_ptr = None, m_tid = -1, posted = False\<rparr>"

text \<open>
  One step of the constructor, and the call of \<open>start\<close> for this thread, which the owner makes at most
  once; \<open>None\<close> means that it blocks.
\<close>

definition constructor_step :: "'cb io_handshake \<Rightarrow> 'cb io_handshake option res" where
  "constructor_step h =
     (case owner h of
        In_Wait_Init \<Rightarrow> bindE (sem_wait (m_init_semaphore h)) (\<lambda>w. Inr (map_option (\<lambda>s.
          h\<lparr>owner := In_Destroy_Init, m_init_semaphore := s\<rparr>) w))
      | In_Destroy_Init \<Rightarrow> Inr (Some (h\<lparr>owner := Constructed, m_init_semaphore := Destroyed_Sem\<rparr>))
      | _ \<Rightarrow> Inr None)"

definition start_post :: "'cb io_handshake \<Rightarrow> 'cb io_handshake res" where
  "start_post h = bindE (sem_post (m_start_semaphore h)) (\<lambda>s. Inr (h\<lparr>m_start_semaphore := s, posted := True\<rparr>))"

text \<open>The destructor: \<open>stop\<close>, then \<open>pthread_join\<close>, which waits for the end of \<open>main\<close>.\<close>

definition destructor_stop :: "'cb io_handshake \<Rightarrow> 'cb io_handshake res" where
  "destructor_stop h =
     (case m_reactor_ptr h of
        None \<Rightarrow> Inl Null_Pointer
      | Some r \<Rightarrow> Inr (h\<lparr>m_reactor_ptr := Some (stop r), owner := In_Join\<rparr>))"

definition destructor_join :: "'cb io_handshake \<Rightarrow> 'cb io_handshake option" where
  "destructor_join h = (if main h = Returned_Main then Some (h\<lparr>owner := Deleted, m_reactor_ptr := None\<rparr>) else None)"

text \<open>
  One step of \<open>main\<close>: \<open>r0\<close> is the reactor that \<open>new\<close> gives, \<open>tid\<close> the result of \<open>gettid\<close>. \<open>loop\<close> begins by
  setting both flags and ends when it sees the stop flag.
\<close>

definition main_step :: "'cb reactor \<Rightarrow> int \<Rightarrow> 'cb io_handshake \<Rightarrow> 'cb io_handshake option res" where
  "main_step r0 tid h =
     (case main h of
        At_Begin \<Rightarrow> Inr (Some (h\<lparr>m_reactor_ptr := Some (setReactorType SubReactor r0), m_tid := tid, main := At_Post_Init\<rparr>))
      | At_Post_Init \<Rightarrow> bindE (sem_post (m_init_semaphore h)) (\<lambda>s.
          Inr (Some (h\<lparr>m_init_semaphore := s, main := At_Wait_Start\<rparr>)))
      | At_Wait_Start \<Rightarrow> bindE (sem_wait (m_start_semaphore h)) (\<lambda>w. Inr (map_option (\<lambda>s.
          h\<lparr>m_start_semaphore := s, main := At_Destroy_Start\<rparr>) w))
      | At_Destroy_Start \<Rightarrow> Inr (Some (h\<lparr>m_start_semaphore := Destroyed_Sem, main := At_Loop_Call\<rparr>))
      | At_Loop_Call \<Rightarrow>
          (case m_reactor_ptr h of
             None \<Rightarrow> Inl Null_Pointer
           | Some r \<Rightarrow> Inr (Some (if m_is_looping r then h\<lparr>main := Returned_Main\<rparr>
               else h\<lparr>m_reactor_ptr := Some (r\<lparr>m_is_looping := True, m_stop_flag := False\<rparr>), main := In_Loop\<rparr>)))
      | In_Loop \<Rightarrow>
          (case m_reactor_ptr h of
             None \<Rightarrow> Inl Null_Pointer
           | Some r \<Rightarrow> Inr (if m_stop_flag r
               then Some (h\<lparr>m_reactor_ptr := Some (r\<lparr>m_is_looping := False\<rparr>), main := Returned_Main\<rparr>) else None))
      | Returned_Main \<Rightarrow> Inr None)"

section \<open>Schedules\<close>

inductive io_step :: "'cb reactor \<Rightarrow> int \<Rightarrow> 'cb io_handshake \<Rightarrow> 'cb io_handshake \<Rightarrow> bool" for r0 tid where
  ctor: "constructor_step h = Inr (Some h') \<Longrightarrow> io_step r0 tid h h'"
| start: "owner h = Constructed \<Longrightarrow> \<not> posted h \<Longrightarrow> start_post h = Inr h' \<Longrightarrow> io_step r0 tid h h'"
| dtor: "owner h = Constructed \<Longrightarrow> destructor_stop h = Inr h' \<Longrightarrow> io_step r0 tid h h'"
| join: "owner h = In_Join \<Longrightarrow> destructor_join h = Some h' \<Longrightarrow> io_step r0 tid h h'"
| main: "owner h \<noteq> Deleted \<Longrightarrow> main_step r0 tid h = Inr (Some h') \<Longrightarrow> io_step r0 tid h h'"

inductive_cases io_stepE: "io_step r0 tid h h'"

definition io_reach :: "'cb reactor \<Rightarrow> int \<Rightarrow> 'cb io_handshake \<Rightarrow> bool" where
  "io_reach r0 tid h \<longleftrightarrow> (io_step r0 tid)\<^sup>*\<^sup>* IOThread_created h"

text \<open>
  What ties the two threads together: the reactor is there from the second step of \<open>main\<close> on, the
  semaphores are counted, and the loop runs only after \<open>start\<close>.
\<close>

definition owner_inv :: "'cb io_handshake \<Rightarrow> bool" where
  "owner_inv h \<longleftrightarrow>
     (case owner h of
        In_Wait_Init \<Rightarrow> main h \<in> {At_Begin, At_Post_Init, At_Wait_Start} \<and> \<not> posted h \<and>
          m_init_semaphore h = Sem (if main h = At_Wait_Start then 1 else 0)
      | In_Destroy_Init \<Rightarrow> main h = At_Wait_Start \<and> \<not> posted h \<and> m_init_semaphore h = Sem 0
      | Constructed \<Rightarrow> main h \<notin> {At_Begin, At_Post_Init, Returned_Main}
      | In_Join \<Rightarrow> main h \<notin> {At_Begin, At_Post_Init}
      | Deleted \<Rightarrow> main h = Returned_Main)"

definition main_inv :: "'cb io_handshake \<Rightarrow> bool" where
  "main_inv h \<longleftrightarrow>
     (case main h of
        At_Destroy_Start \<Rightarrow> posted h \<and> m_start_semaphore h = Sem 0
      | At_Loop_Call \<Rightarrow> posted h \<and> m_start_semaphore h = Destroyed_Sem
      | In_Loop \<Rightarrow> posted h \<and> m_start_semaphore h = Destroyed_Sem
      | Returned_Main \<Rightarrow> posted h \<and> m_start_semaphore h = Destroyed_Sem
      | _ \<Rightarrow> m_start_semaphore h = Sem (if posted h then 1 else 0))"

definition reactor_inv :: "int \<Rightarrow> 'cb io_handshake \<Rightarrow> bool" where
  "reactor_inv tid h \<longleftrightarrow>
     (if main h = At_Begin then m_reactor_ptr h = None
      else owner h \<noteq> Deleted \<longrightarrow> (case m_reactor_ptr h of None \<Rightarrow> False
        | Some r \<Rightarrow> m_tid h = tid \<and> m_reactor_type r = SubReactor \<and> (m_is_looping r \<longleftrightarrow> main h = In_Loop) \<and>
            (owner h \<noteq> In_Join \<longrightarrow> \<not> m_stop_flag r)))"

definition io_inv :: "int \<Rightarrow> 'cb io_handshake \<Rightarrow> bool" where
  "io_inv tid h \<longleftrightarrow> owner_inv h \<and> main_inv h \<and> reactor_inv tid h"

lemmas io_inv_defs = io_inv_def owner_inv_def main_inv_def reactor_inv_def

lemma stop_flags:
  "m_is_looping (stop r) = m_is_looping r" "m_reactor_type (stop r) = m_reactor_type r"
  "m_stop_flag (stop r) \<longleftrightarrow> m_stop_flag r \<or> m_is_looping r"
  by (simp_all add: stop_def wakeup_def)

lemma sem_wait_Some: "sem_wait s = Inr (Some s') \<longleftrightarrow> (\<exists>n. s = Sem (Suc n) \<and> s' = Sem n)"
  by (cases s rule: sem_wait.cases) auto

lemma io_inv_created: "io_inv tid IOThread_created"
  by (simp add: io_inv_defs IOThread_created_def)

lemma io_inv_constructor: "io_inv tid h \<Longrightarrow> constructor_step h = Inr (Some h') \<Longrightarrow> io_inv tid h'"
  by (auto simp: io_inv_defs constructor_step_def bindE_eq_Inr sem_wait_Some split: owner_pc.splits main_pc.splits option.splits if_splits)

lemma io_inv_start: "io_inv tid h \<Longrightarrow> owner h = Constructed \<Longrightarrow> \<not> posted h \<Longrightarrow> start_post h = Inr h' \<Longrightarrow> io_inv tid h'"
  by (auto simp: io_inv_defs start_post_def bindE_eq_Inr split: main_pc.splits option.splits if_splits)

lemma io_inv_dtor: "io_inv tid h \<Longrightarrow> owner h = Constructed \<Longrightarrow> destructor_stop h = Inr h' \<Longrightarrow> io_inv tid h'"
  by (auto simp: io_inv_defs destructor_stop_def stop_flags split: main_pc.splits option.splits if_splits)

lemma io_inv_join: "io_inv tid h \<Longrightarrow> owner h = In_Join \<Longrightarrow> destructor_join h = Some h' \<Longrightarrow> io_inv tid h'"
  by (auto simp: io_inv_defs destructor_join_def split: main_pc.splits option.splits if_splits)

lemma io_inv_main:
  assumes "io_inv tid h" and "owner h \<noteq> Deleted" and "main_step r0 tid h = Inr (Some h')"
    and "\<not> m_is_looping r0" and "\<not> m_stop_flag r0"
  shows "io_inv tid h'"
  using assms
  by (cases "main h"; cases "owner h")
    (auto simp: io_inv_defs main_step_def bindE_eq_Inr sem_wait_Some setReactorType_def split: option.splits if_splits)

lemma io_inv_step:
  assumes "io_step r0 tid h h'" and "io_inv tid h" and "\<not> m_is_looping r0" and "\<not> m_stop_flag r0"
  shows "io_inv tid h'"
  using assms(1)
  by (cases rule: io_stepE) (use assms(2-4) in \<open>auto intro: io_inv_constructor io_inv_start io_inv_dtor io_inv_join io_inv_main\<close>)

lemma io_reach_inv:
  assumes "io_reach r0 tid h" and "\<not> m_is_looping r0" and "\<not> m_stop_flag r0"
  shows "io_inv tid h"
  using assms(1) unfolding io_reach_def
proof (induction rule: rtranclp_induct)
  case base
  then show ?case by (rule io_inv_created)
next
  case (step h h')
  from io_inv_step [OF step(2,3) assms(2,3)] show ?case .
qed

lemma io_reach_created: "io_reach r0 tid IOThread_created"
  by (simp add: io_reach_def)

lemma io_reach_step: "io_reach r0 tid h \<Longrightarrow> io_step r0 tid h h' \<Longrightarrow> io_reach r0 tid h'"
  unfolding io_reach_def by (rule rtranclp.rtrancl_into_rtrancl)

section \<open>The end of a thread\<close>

text \<open>The stop that came too early: it has left no trace, and the loop, once entered, goes on.\<close>

definition stop_missed :: "'cb io_handshake \<Rightarrow> bool" where
  "stop_missed h \<longleftrightarrow> owner h = In_Join \<and> main h \<noteq> Returned_Main \<and>
     (case m_reactor_ptr h of None \<Rightarrow> False | Some r \<Rightarrow> \<not> m_stop_flag r \<and> (m_is_looping r \<longleftrightarrow> main h = In_Loop))"

lemma stop_missed_main:
  assumes "stop_missed h" and "main_step r0 tid h = Inr (Some h')" and "main h \<noteq> At_Begin"
  shows "stop_missed h'" "main h' \<noteq> At_Begin"
  using assms
  by (cases "main h"; auto simp: stop_missed_def main_step_def bindE_eq_Inr sem_wait_Some split: option.splits if_splits)+

lemma stop_missed_steps:
  assumes "(io_step r0 tid)\<^sup>*\<^sup>* h h'" and "stop_missed h" and "main h \<noteq> At_Begin"
  shows "stop_missed h' \<and> main h' \<noteq> At_Begin"
  using assms(1)
proof (induction rule: rtranclp_induct)
  case base
  with assms(2,3) show ?case by simp
next
  case (step h1 h2)
  then have "owner h1 = In_Join" "main h1 \<noteq> Returned_Main" by (simp_all add: stop_missed_def)
  with step(2) have "main_step r0 tid h1 = Inr (Some h2)"
    by (cases rule: io_stepE) (auto simp: constructor_step_def destructor_join_def)
  with step(3) stop_missed_main show ?case by blast
qed

section \<open>Properties\<close>

text \<open>
  C23: However the two threads are scheduled, no step of the start of an IO thread uses a semaphore
  that is destroyed or a reactor that is not there; the constructor never blocks for good, and
  when it has returned, the thread has its number and a sub reactor that does not stop, which
  loops only after \<open>start\<close>.
\<close>

theorem io_thread_starts_in_order:
  assumes "io_reach r0 tid h" and "\<not> m_is_looping r0" and "\<not> m_stop_flag r0"
  shows "(\<forall>e. constructor_step h \<noteq> Inl e \<and> (owner h \<noteq> Deleted \<longrightarrow> main_step r0 tid h \<noteq> Inl e) \<and>
      (owner h = Constructed \<longrightarrow> destructor_stop h \<noteq> Inl e \<and> (\<not> posted h \<longrightarrow> start_post h \<noteq> Inl e))) \<and>
    (owner h \<in> {In_Wait_Init, In_Destroy_Init} \<longrightarrow> (\<exists>h'. io_step r0 tid h h')) \<and>
    (owner h = Constructed \<longrightarrow> (\<exists>r. m_reactor_ptr h = Some r \<and> m_reactor_type r = SubReactor \<and>
      \<not> m_stop_flag r \<and> m_tid h = tid \<and> (m_is_looping r \<longrightarrow> posted h)))"
proof -
  note inv = io_reach_inv [OF assms, unfolded io_inv_defs]
  have "constructor_step h \<noteq> Inl e" "owner h \<noteq> Deleted \<Longrightarrow> main_step r0 tid h \<noteq> Inl e"
    "owner h = Constructed \<Longrightarrow> destructor_stop h \<noteq> Inl e"
    "owner h = Constructed \<Longrightarrow> \<not> posted h \<Longrightarrow> start_post h \<noteq> Inl e" for e
    using inv by (cases "main h"; cases "owner h";
      auto simp: constructor_step_def main_step_def destructor_stop_def start_post_def split: option.splits)+
  moreover have "\<exists>h'. io_step r0 tid h h'" if "owner h \<in> {In_Wait_Init, In_Destroy_Init}"
  proof (cases "main h = At_Wait_Start")
    case True
    with inv that have "\<exists>h'. constructor_step h = Inr (Some h')" by (auto simp: constructor_step_def)
    then show ?thesis by (blast intro: io_step.ctor)
  next
    case False
    with inv that obtain h' where "main_step r0 tid h = Inr (Some h')" by (auto simp: main_step_def)
    moreover have "owner h \<noteq> Deleted" using that by auto
    ultimately show ?thesis by (blast intro: io_step.main)
  qed
  moreover have "owner h = Constructed \<Longrightarrow> \<exists>r. m_reactor_ptr h = Some r \<and> m_reactor_type r = SubReactor \<and>
      \<not> m_stop_flag r \<and> m_tid h = tid \<and> (m_is_looping r \<longrightarrow> posted h)"
    using inv by (cases "main h") (auto split: option.splits)
  ultimately show ?thesis by blast
qed

text \<open>
  C24: The destructor of an IO thread can return exactly when it was called while the thread was in its
  loop. Called before that, between the constructor and the loop, whether \<open>start\<close> has been called or not,
  \<open>stop\<close> does nothing, the loop clears the flag anyway, and \<open>pthread_join\<close> waits for ever.
\<close>

theorem io_thread_destructor_returns:
  assumes "io_reach r0 tid h" and "\<not> m_is_looping r0" and "\<not> m_stop_flag r0"
    and "owner h = Constructed" and "destructor_stop h = Inr h1"
  shows "(\<exists>h2. (io_step r0 tid)\<^sup>*\<^sup>* h1 h2 \<and> owner h2 = Deleted) \<longleftrightarrow> main h = In_Loop"
proof -
  note inv = io_reach_inv [OF assms(1-3), unfolded io_inv_defs]
  from assms(5) obtain r where r: "m_reactor_ptr h = Some r"
    "h1 = h\<lparr>m_reactor_ptr := Some (stop r), owner := In_Join\<rparr>"
    by (auto simp: destructor_stop_def split: option.splits)
  have m: "main h \<notin> {At_Begin, Returned_Main}" using inv assms(4) by auto
  with inv assms(4) r(1) have f: "\<not> m_stop_flag r" "m_is_looping r \<longleftrightarrow> main h = In_Loop" by auto
  show ?thesis
  proof
    assume "main h = In_Loop"
    define h2 where "h2 = h1\<lparr>m_reactor_ptr := Some ((stop r)\<lparr>m_is_looping := False\<rparr>), main := Returned_Main\<rparr>"
    define h3 where "h3 = h2\<lparr>owner := Deleted, m_reactor_ptr := None\<rparr>"
    have "main_step r0 tid h1 = Inr (Some h2)"
      using \<open>main h = In_Loop\<close> f r by (simp add: main_step_def stop_flags h2_def)
    moreover have "owner h1 \<noteq> Deleted" "owner h2 = In_Join" "destructor_join h2 = Some h3"
      using r(2) by (simp_all add: destructor_join_def h2_def h3_def)
    ultimately have "io_step r0 tid h1 h2" "io_step r0 tid h2 h3"
      using io_step.main [of h1] io_step.join [of h2] by blast+
    then have "(io_step r0 tid)\<^sup>*\<^sup>* h1 h3" by (rule converse_rtranclp_into_rtranclp [OF _ r_into_rtranclp])
    moreover have "owner h3 = Deleted" by (simp add: h3_def)
    ultimately show "\<exists>h2. (io_step r0 tid)\<^sup>*\<^sup>* h1 h2 \<and> owner h2 = Deleted" by blast
  next
    assume ends: "\<exists>h2. (io_step r0 tid)\<^sup>*\<^sup>* h1 h2 \<and> owner h2 = Deleted"
    show "main h = In_Loop"
    proof (rule ccontr)
      assume "main h \<noteq> In_Loop"
      with f m r(2) have "stop_missed h1" "main h1 \<noteq> At_Begin" by (simp_all add: stop_missed_def stop_flags)
      moreover from ends obtain h2 where "(io_step r0 tid)\<^sup>*\<^sup>* h1 h2" "owner h2 = Deleted" by blast
      ultimately show False using stop_missed_steps [of r0 tid h1 h2] by (simp add: stop_missed_def)
    qed
  qed
qed


text \<open>The thread that has just been constructed: the owner is back, the thread waits for \<open>start\<close>.\<close>

definition example_r0 :: "string reactor" where
  "example_r0 = new_Reactor (\<lambda>fd. 0 \<le> fd) 5"

definition example_constructed :: "string io_handshake" where
  "example_constructed = IOThread_created
     \<lparr>owner := Constructed, main := At_Wait_Start, m_init_semaphore := Destroyed_Sem,
      m_reactor_ptr := Some (setReactorType SubReactor example_r0), m_tid := 44\<rparr>"

lemma example_r0_flags: "\<not> m_is_looping example_r0" "\<not> m_stop_flag example_r0"
  by (simp_all add: example_r0_def new_Reactor_def addWakeupFd_def epoll_ctl_def)

lemma example_constructed_reach: "io_reach example_r0 44 example_constructed"
proof -
  define a1 where "a1 = IOThread_created\<lparr>m_reactor_ptr := Some (setReactorType SubReactor example_r0), m_tid := 44, main := At_Post_Init\<rparr>"
  define a2 where "a2 = a1\<lparr>m_init_semaphore := Sem 1, main := At_Wait_Start\<rparr>"
  define a3 where "a3 = a2\<lparr>owner := In_Destroy_Init, m_init_semaphore := Sem 0\<rparr>"
  have "io_step example_r0 44 IOThread_created a1" "io_step example_r0 44 a1 a2"
    by (rule io_step.main; simp add: a2_def a1_def IOThread_created_def main_step_def)+
  moreover have "io_step example_r0 44 a2 a3" "io_step example_r0 44 a3 example_constructed"
    by (rule io_step.ctor; simp add: a3_def a2_def a1_def IOThread_created_def constructor_step_def example_constructed_def)+
  ultimately show ?thesis using io_reach_created io_reach_step by metis
qed

lemma io_thread_starts_in_order_witness:
  "\<exists>r. m_reactor_ptr example_constructed = Some r \<and> m_reactor_type r = SubReactor \<and> m_tid example_constructed = 44"
  using io_thread_starts_in_order [OF example_constructed_reach example_r0_flags]
  by (auto simp: example_constructed_def)

lemma io_thread_destructor_returns_witness:
  "\<exists>h1. destructor_stop example_constructed = Inr h1 \<and>
     \<not> (\<exists>h2. (io_step example_r0 44)\<^sup>*\<^sup>* h1 h2 \<and> owner h2 = Deleted)"
proof -
  obtain h1 where h1: "destructor_stop example_constructed = Inr h1"
    by (simp add: destructor_stop_def example_constructed_def)
  have "owner example_constructed = Constructed" "main example_constructed \<noteq> In_Loop"
    by (simp_all add: example_constructed_def)
  with io_thread_destructor_returns [OF example_constructed_reach example_r0_flags _ h1] h1 show ?thesis by blast
qed

end
