(* ===== verification/Idle_Connection.thy ===== *)
theory Idle_Connection
  imports Tcp_Server
begin

text \<open>
  What becomes of a connection that says nothing: the time wheel (\<open>net/tcp/tcp_connection_time_wheel.cc\<close>),
  the slots and their callbacks (\<open>net/tcp/abstract_slot.h\<close>, \<open>TcpConnection::registerToTimeWheel\<close>), the tasks of
  the main reactor and the coroutine of the connection, put together.
\<close>

section \<open>The code\<close>

text \<open>
  \<open>~AbstractSlot\<close> with the callback of \<open>registerToTimeWheel\<close>, for one entry of the clients: the connection is
  there as long as the server holds it, and then it is shut down; its weak reference to the slot is empty
  from then on.
\<close>

definition slot_destroyed :: "nat list \<Rightarrow> int \<times> tcp_connection option \<Rightarrow> tcp_connection option \<times> (int \<times> conn_action) list" where
  "slot_destroyed dropped e =
     (case e of (fd, conn) \<Rightarrow>
      case conn of
        None \<Rightarrow> (None, [])
      | Some c \<Rightarrow>
          (case m_weak_slot c of
             None \<Rightarrow> (Some c, [])
           | Some sl \<Rightarrow>
               if sl \<in> set dropped then
                 (case shutdownConnection c of (c, acts) \<Rightarrow> (Some (c\<lparr>m_weak_slot := None\<rparr>), map (Pair fd) acts))
               else (Some c, [])))"

text \<open>A task of the main reactor, with the descriptors it acts on.\<close>

definition run_main_task ::
  "server_task \<Rightarrow> ('msg, 'w) tcp_server \<Rightarrow> (('msg, 'w) tcp_server \<times> (int \<times> conn_action) list) res" where
  "run_main_task t s =
     bindE (run_server_task t s) (\<lambda>(s, dropped).
     Inr (s\<lparr>m_clients := map (\<lambda>e. (fst e, fst (slot_destroyed dropped e))) (m_clients s)\<rparr>,
          concat (map (\<lambda>e. snd (slot_destroyed dropped e)) (m_clients s))))"

section \<open>The life of a server\<close>

text \<open>
  The main reactor runs tasks; beside them connections come, and coroutines move in the IO threads:
  \<open>Client fd c\<close> is what either leaves under a descriptor.
\<close>

datatype main_event = Task server_task | Client int tcp_connection

fun run_main ::
  "main_event list \<Rightarrow> ('msg, 'w) tcp_server \<Rightarrow> (('msg, 'w) tcp_server \<times> (int \<times> conn_action) list list) res" where
  "run_main [] s = Inr (s, [])"
| "run_main (Task t # evs) s =
     bindE (run_main_task t s) (\<lambda>(s, a). bindE (run_main evs s) (\<lambda>(s, as). Inr (s, a # as)))"
| "run_main (Client fd c # evs) s =
     bindE (run_main evs (s\<lparr>m_clients := map_put fd (Some c) (m_clients s)\<rparr>)) (\<lambda>(s, as). Inr (s, [] # as))"

definition turns :: "main_event list \<Rightarrow> nat" where
  "turns evs = length (filter (\<lambda>ev. ev = Task Wheel_Loop) evs)"

lemma turns_simps [simp]: "turns [] = 0" "turns (Task Wheel_Loop # evs) = Suc (turns evs)"
  "ev \<noteq> Task Wheel_Loop \<Longrightarrow> turns (ev # evs) = turns evs"
  by (simp_all add: turns_def)

text \<open>Nothing is heard of the connection of a descriptor and a slot.\<close>

definition silent :: "int \<Rightarrow> nat \<Rightarrow> main_event list \<Rightarrow> bool" where
  "silent fd sl evs \<longleftrightarrow> Task (Fresh_Task sl) \<notin> set evs \<and> (\<forall>c. Client fd c \<notin> set evs)"

lemma silent_Cons [simp]:
  "silent fd sl (ev # evs) \<longleftrightarrow> ev \<noteq> Task (Fresh_Task sl) \<and> (\<forall>c. ev \<noteq> Client fd c) \<and> silent fd sl evs"
  by (auto simp: silent_def)

lemma map_get_map_entries: "map_get (map (\<lambda>e. (fst e, f e)) m) k = map_option (\<lambda>v. f (k, v)) (map_get m k)"
  by (induction m) (auto simp: map_get_def)

text \<open>The actions of a task on a descriptor are those of its connection.\<close>

lemma actions_of_entry:
  assumes "map_wf m" and "map_get m fd = Some v"
  shows "(fd, a) \<in> set (concat (map (\<lambda>e. snd (slot_destroyed dropped e)) m)) \<longleftrightarrow>
    (fd, a) \<in> set (snd (slot_destroyed dropped (fd, v)))"
proof -
  have fst: "fst p = fst e" if "p \<in> set (snd (slot_destroyed dropped e))" for p e
    using that by (auto simp: slot_destroyed_def split: prod.splits option.splits if_splits)
  have e: "(fd, w) \<in> set m \<longleftrightarrow> w = v" for w
    using map_of_eq_Some_iff [of m fd w] assms by (auto simp: map_wf_def map_get_def dest: eq_key_imp_eq_value)
  show ?thesis
  proof
    assume "(fd, a) \<in> set (concat (map (\<lambda>e. snd (slot_destroyed dropped e)) m))"
    then obtain e where "e \<in> set m" "(fd, a) \<in> set (snd (slot_destroyed dropped e))" by auto
    with fst [OF this(2)] e [of "snd e"] show "(fd, a) \<in> set (snd (slot_destroyed dropped (fd, v)))"
      by (cases e) auto
  next
    assume "(fd, a) \<in> set (snd (slot_destroyed dropped (fd, v)))"
    with e [of v] show "(fd, a) \<in> set (concat (map (\<lambda>e. snd (slot_destroyed dropped e)) m))" by force
  qed
qed


lemma slot_destroyed_none [simp]: "slot_destroyed [] e = (snd e, [])"
  by (auto simp: slot_destroyed_def split: prod.splits option.splits)

lemma map_wf_entries: "map_wf (map (\<lambda>e. (fst e, f e)) m) = map_wf m"
  by (simp add: map_wf_def comp_def)

text \<open>One task, seen from one open connection.\<close>

lemma run_main_task_step:
  assumes ne: "m_wheel (m_time_wheel s) \<noteq> []" and wf: "map_wf (m_clients s)"
    and c: "map_get (m_clients s) fd = Some (Some c)" "m_state c \<noteq> Closed"
  obtains s' a dropped where "run_main_task t s = Inr (s', a)" "m_wheel (m_time_wheel s') \<noteq> []" "map_wf (m_clients s')"
    "map_get (m_clients s') fd = Some (fst (slot_destroyed dropped (fd, Some c)))"
    "\<And>x. (fd, x) \<in> set a \<longleftrightarrow> (fd, x) \<in> set (snd (slot_destroyed dropped (fd, Some c)))"
    "t = Wheel_Loop \<Longrightarrow> loopFunc (m_time_wheel s) = Inr (m_time_wheel s', dropped)"
    "\<And>n. t = Fresh_Task n \<Longrightarrow> fresh n (m_time_wheel s) = Inr (m_time_wheel s')"
    "t \<noteq> Wheel_Loop \<Longrightarrow> dropped = []"
    "t \<noteq> Wheel_Loop \<Longrightarrow> (\<And>n. t \<noteq> Fresh_Task n) \<Longrightarrow> m_time_wheel s' = m_time_wheel s"
proof -
  have cl: "map_get (m_clients (ClearClientTimerFunc s)) fd = Some (Some c)" "map_wf (m_clients (ClearClientTimerFunc s))"
    using server_clears_closed_connections [of s fd] c wf by (simp_all add: map_wf_def)
  obtain s1 dropped where s1: "run_server_task t s = Inr (s1, dropped)" "m_wheel (m_time_wheel s1) \<noteq> []"
    "map_wf (m_clients s1)" "map_get (m_clients s1) fd = Some (Some c)"
    "t = Wheel_Loop \<Longrightarrow> loopFunc (m_time_wheel s) = Inr (m_time_wheel s1, dropped)"
    "\<And>n. t = Fresh_Task n \<Longrightarrow> fresh n (m_time_wheel s) = Inr (m_time_wheel s1)"
    "t \<noteq> Wheel_Loop \<Longrightarrow> dropped = []"
    "t \<noteq> Wheel_Loop \<Longrightarrow> (\<And>n. t \<noteq> Fresh_Task n) \<Longrightarrow> m_time_wheel s1 = m_time_wheel s"
  proof (cases t)
    case Wheel_Loop
    from loopFunc_not_Nil [OF ne] obtain w f where w: "loopFunc (m_time_wheel s) = Inr (w, f)" by blast
    with Wheel_Loop c(1) wf loopFunc_keeps_buckets [OF w] show ?thesis
      by (intro that [of "s\<lparr>m_time_wheel := w\<rparr>" f]) (simp_all add: run_server_task_def)
  next
    case (Fresh_Task n)
    from ne obtain w where w: "fresh n (m_time_wheel s) = Inr w" by (simp add: fresh_def)
    with Fresh_Task c(1) wf fresh_keeps_buckets [OF w] show ?thesis
      by (intro that [of "s\<lparr>m_time_wheel := w\<rparr>" "[]"]) (simp_all add: run_server_task_def)
  next
    case Clear_Clients
    with cl ne show ?thesis
      by (intro that [of "ClearClientTimerFunc s" "[]"]) (simp_all add: run_server_task_def ClearClientTimerFunc_def)
  next
    case (Resume_Task n)
    with ne wf c show ?thesis by (intro that [of s "[]"]) (simp_all add: run_server_task_def)
  next
    case Log_Loop
    with ne wf c show ?thesis by (intro that [of s "[]"]) (simp_all add: run_server_task_def)
  qed
  let ?s = "s1\<lparr>m_clients := map (\<lambda>e. (fst e, fst (slot_destroyed dropped e))) (m_clients s1)\<rparr>"
  let ?a = "concat (map (\<lambda>e. snd (slot_destroyed dropped e)) (m_clients s1))"
  show ?thesis
  proof (rule that [of ?s ?a dropped])
    show "run_main_task t s = Inr (?s, ?a)" by (simp add: run_main_task_def s1(1))
    show "map_get (m_clients ?s) fd = Some (fst (slot_destroyed dropped (fd, Some c)))"
      by (simp add: map_get_map_entries s1(4))
    show "(fd, x) \<in> set ?a \<longleftrightarrow> (fd, x) \<in> set (snd (slot_destroyed dropped (fd, Some c)))" for x
      using s1(3,4) by (rule actions_of_entry)
  qed (use s1 in \<open>simp_all add: map_wf_entries\<close>)
qed

text \<open>A connection that has lost its slot is left alone.\<close>

lemma run_main_without_slot:
  assumes "m_wheel (m_time_wheel s) \<noteq> []" and "map_wf (m_clients s)"
    and "map_get (m_clients s) fd = Some (Some c)" "m_state c \<noteq> Closed" "m_weak_slot c = None"
    and "\<forall>c. Client fd c \<notin> set evs"
  shows "returns (run_main evs s) (\<lambda>(s', as). length as = length evs \<and> map_get (m_clients s') fd = Some (Some c) \<and>
    map_wf (m_clients s') \<and> (\<forall>i < length as. \<forall>x. (fd, x) \<notin> set (as ! i)))"
  using assms
proof (induction evs arbitrary: s)
  case Nil
  then show ?case by simp
next
  case (Cons ev evs)
  show ?case
  proof (cases ev)
    case (Task t)
    from run_main_task_step [OF Cons.prems(1-4), of t] obtain s1 a dropped where
      s1: "run_main_task t s = Inr (s1, a)" "m_wheel (m_time_wheel s1) \<noteq> []" "map_wf (m_clients s1)"
      "map_get (m_clients s1) fd = Some (fst (slot_destroyed dropped (fd, Some c)))"
      "\<And>x. (fd, x) \<in> set a \<longleftrightarrow> (fd, x) \<in> set (snd (slot_destroyed dropped (fd, Some c)))" by metis
    have "slot_destroyed dropped (fd, Some c) = (Some c, [])" using Cons.prems(5) by (simp add: slot_destroyed_def)
    with s1 Cons.IH [OF s1(2,3)] Cons.prems(4-6) have "returns (run_main evs s1) (\<lambda>(s', as).
        length as = length evs \<and> map_get (m_clients s') fd = Some (Some c) \<and>
        map_wf (m_clients s') \<and> (\<forall>i < length as. \<forall>x. (fd, x) \<notin> set (as ! i)))" "\<forall>x. (fd, x) \<notin> set a" by simp_all
    with s1(1) show ?thesis by (auto simp: Task nth_Cons elim!: returns_mono split: nat.splits)
  next
    case (Client fd' c')
    let ?s = "s\<lparr>m_clients := map_put fd' (Some c') (m_clients s)\<rparr>"
    have "map_get (m_clients ?s) fd = Some (Some c)" "map_wf (m_clients ?s)"
      using Client Cons.prems(2,3,6) by (auto simp: map_get_put map_wf_put)
    with Cons.IH [of ?s] Cons.prems(1,4-6) show ?thesis
      by (auto simp: Client nth_Cons elim!: returns_mono split: nat.splits)
  qed
qed


definition shut_at :: "nat \<Rightarrow> main_event list \<Rightarrow> int \<Rightarrow> (int \<times> conn_action) list list \<Rightarrow> bool" where
  "shut_at k evs fd as \<longleftrightarrow> length as = length evs \<and>
     (\<forall>i < length evs. \<forall>x. (fd, x) \<in> set (as ! i) \<longleftrightarrow>
        x = Shutdown_Fd \<and> evs ! i = Task Wheel_Loop \<and> turns (take i evs) = k)"

lemma shut_at_quiet:
  assumes "shut_at k evs fd as" and "ev \<noteq> Task Wheel_Loop" and "\<And>x. (fd, x) \<notin> set a"
  shows "shut_at k (ev # evs) fd (a # as)"
  using assms by (auto simp: shut_at_def nth_Cons split: nat.splits)

lemma shut_at_turn:
  assumes "shut_at k evs fd as" and "\<And>x. (fd, x) \<notin> set a"
  shows "shut_at (Suc k) (Task Wheel_Loop # evs) fd (a # as)"
  using assms by (auto simp: shut_at_def nth_Cons split: nat.splits)

lemma shut_at_now:
  assumes "length as = length evs" and "\<forall>i < length as. \<forall>x. (fd, x) \<notin> set (as ! i)"
    and "\<And>x. (fd, x) \<in> set a \<longleftrightarrow> x = Shutdown_Fd"
  shows "shut_at 0 (Task Wheel_Loop # evs) fd (a # as)"
  using assms by (auto simp: shut_at_def nth_Cons split: nat.splits)

definition half_closed :: "tcp_connection \<Rightarrow> tcp_connection" where
  "half_closed c = c\<lparr>m_state := HalfClosing, m_weak_slot := None\<rparr>"

text \<open>From bucket \<open>k\<close> on, without a word, a connection is shut down by turn \<open>k + 1\<close> of the wheel.\<close>

lemma run_main_slot_at:
  assumes "slot_at sl k (m_time_wheel s)" and "map_wf (m_clients s)" and "map_get (m_clients s) fd = Some (Some c)"
    and "m_state c = Connected" and "m_weak_slot c = Some sl" and "silent fd sl evs"
  shows "returns (run_main evs s) (\<lambda>(s', as). shut_at k evs fd as \<and> map_wf (m_clients s') \<and>
    map_get (m_clients s') fd = Some (Some (if k < turns evs then half_closed c else c)))"
  using assms
proof (induction evs arbitrary: s k)
  case Nil
  then show ?case by (simp add: shut_at_def)
next
  case (Cons ev evs)
  have ne: "m_wheel (m_time_wheel s) \<noteq> []" using Cons.prems(1) by (auto simp: slot_at_def)
  have si: "silent fd sl evs" using Cons.prems(6) by simp
  show ?case
  proof (cases ev)
    case (Client fd' c')
    let ?s = "s\<lparr>m_clients := map_put fd' (Some c') (m_clients s)\<rparr>"
    have "map_get (m_clients ?s) fd = Some (Some c)" "map_wf (m_clients ?s)" "slot_at sl k (m_time_wheel ?s)"
      using Client Cons.prems by (auto simp: map_get_put map_wf_put)
    from Cons.IH [OF this(3,2,1) Cons.prems(4,5) si] show ?thesis
      by (auto simp: Client shut_at_quiet elim!: returns_mono)
  next
    case (Task t)
    have "m_state c \<noteq> Closed" using Cons.prems(4) by simp
    from run_main_task_step [OF ne Cons.prems(2,3) this, of t] obtain s1 a dropped where
      s1: "run_main_task t s = Inr (s1, a)" "m_wheel (m_time_wheel s1) \<noteq> []" "map_wf (m_clients s1)"
      "map_get (m_clients s1) fd = Some (fst (slot_destroyed dropped (fd, Some c)))"
      "\<And>x. (fd, x) \<in> set a \<longleftrightarrow> (fd, x) \<in> set (snd (slot_destroyed dropped (fd, Some c)))"
      and w: "t = Wheel_Loop \<Longrightarrow> loopFunc (m_time_wheel s) = Inr (m_time_wheel s1, dropped)"
      "\<And>n. t = Fresh_Task n \<Longrightarrow> fresh n (m_time_wheel s) = Inr (m_time_wheel s1)"
      "t \<noteq> Wheel_Loop \<Longrightarrow> dropped = []"
      "t \<noteq> Wheel_Loop \<Longrightarrow> (\<And>n. t \<noteq> Fresh_Task n) \<Longrightarrow> m_time_wheel s1 = m_time_wheel s" by metis
    have quiet: "slot_destroyed dropped (fd, Some c) = (Some c, [])" if "sl \<notin> set dropped"
      using Cons.prems(5) that by (simp add: slot_destroyed_def)
    show ?thesis
    proof (cases "t = Wheel_Loop")
      case True
      show ?thesis
      proof (cases k)
        case 0
        with loopFunc_slot_at_0 [OF w(1)] True Cons.prems(1) have "sl \<in> set dropped" by simp
        with Cons.prems(4,5) have d: "slot_destroyed dropped (fd, Some c) = (Some (half_closed c), [(fd, Shutdown_Fd)])"
          by (simp add: slot_destroyed_def shutdownConnection_def setState_def half_closed_def)
        have "m_state (half_closed c) \<noteq> Closed" "m_weak_slot (half_closed c) = None" by (simp_all add: half_closed_def)
        from run_main_without_slot [OF s1(2,3) _ this, of fd evs] s1(4) d si
        have "returns (run_main evs s1) (\<lambda>(s', as). length as = length evs \<and>
            map_get (m_clients s') fd = Some (Some (half_closed c)) \<and> map_wf (m_clients s') \<and>
            (\<forall>i < length as. \<forall>x. (fd, x) \<notin> set (as ! i)))" by (simp add: silent_def)
        then show ?thesis using s1(1,5) by (auto simp: Task True 0 d shut_at_now elim!: returns_mono)
      next
        case (Suc k')
        with loopFunc_slot_at_Suc [OF w(1)] True Cons.prems(1)
        have k': "slot_at sl k' (m_time_wheel s1)" "sl \<notin> set dropped" by simp_all
        with s1(4) quiet have "map_get (m_clients s1) fd = Some (Some c)" by simp
        from Cons.IH [OF k'(1) s1(3) this Cons.prems(4,5) si] s1(1,5) quiet [OF k'(2)] show ?thesis
          by (auto simp: Task True Suc shut_at_turn elim!: returns_mono)
      qed
    next
      case False
      then have d: "slot_destroyed dropped (fd, Some c) = (Some c, [])" using w(3) by simp
      have sl: "slot_at sl k (m_time_wheel s1)"
      proof (cases "\<exists>n. t = Fresh_Task n")
        case True
        then obtain n where "t = Fresh_Task n" by blast
        with fresh_other_slot_at [OF w(2)] Cons.prems(1,6) Task show ?thesis by auto
      next
        case no_fresh: False
        with w(4) False Cons.prems(1) show ?thesis by auto
      qed
      have "map_get (m_clients s1) fd = Some (Some c)" using s1(4) d by simp
      from Cons.IH [OF sl s1(3) this Cons.prems(4,5) si] s1(1,5) d False show ?thesis
        by (auto simp: Task shut_at_quiet elim!: returns_mono)
    qed
  qed
qed

section \<open>The coroutine of the connection\<close>

text \<open>After \<open>shutdown\<close>, the read in which the coroutine waits gives nothing, and the coroutine closes and parks.\<close>

lemma shut_connection_closes:
  assumes "m_state c = HalfClosing" and "\<not> m_is_over_time c" and "buffer_wf (m_read_buffer c)"
    and "2 * m_write_index (m_read_buffer c) \<le> INT_MAX"
  shows "returns (conn_input \<lparr>sk_pending = [], sk_events = (Read_Failed, False) # evs\<rparr> c)
    (\<lambda>(e, sk, c', acts). e = Parked \<and> m_state c' = Closed \<and> m_stop c' \<and> acts = [Unregister_Fd, Close_Fd])"
proof -
  from make_room_returns [OF assms(3,4)] obtain b where "make_room (m_read_buffer c) = Inr b" by (auto elim!: returnsE)
  with assms(1,2) show ?thesis
    by (simp add: conn_input_def input_loop.simps input_round_def read_hook_def Let_def clearClient_def setState_def)
qed


section \<open>Properties\<close>

text \<open>
  C22: A connection of which nothing is heard after its slot was freshened is kept as it is for
  \<open>bucket_count - 1\<close> turns of the wheel, whatever the server does for others. By the turn after
  those, and by no other step, its socket is shut down; its coroutine then finds the end of the
  stream, unregisters and closes the descriptor and parks; and the next clearing of clients
  lets the connection go.
\<close>

theorem idle_connection_is_closed:
  assumes "m_wheel (m_time_wheel s) \<noteq> []" and "map_wf (m_clients s)" and "map_get (m_clients s) fd = Some (Some c)"
    and "m_state c = Connected" and "m_weak_slot c = Some sl" and "silent fd sl evs"
    and "\<not> m_is_over_time c" and "buffer_wf (m_read_buffer c)" and "2 * m_write_index (m_read_buffer c) \<le> INT_MAX"
  shows "returns (run_main (Task (Fresh_Task sl) # evs) s) (\<lambda>(s', as).
    let n = length (m_wheel (m_time_wheel s)) in
    shut_at (n - 1) evs fd (tl as) \<and>
    (if turns evs < n then map_get (m_clients s') fd = Some (Some c)
     else \<exists>c'. map_get (m_clients s') fd = Some (Some c') \<and>
       returns (conn_input \<lparr>sk_pending = [], sk_events = [(Read_Failed, False)]\<rparr> c') (\<lambda>(e, sk, c2, acts).
         e = Parked \<and> acts = [Unregister_Fd, Close_Fd] \<and>
         returns (run_main [Client fd c2, Task Clear_Clients] s') (\<lambda>(s2, _). map_get (m_clients s2) fd = Some None))))"
proof -
  from assms(1) obtain w where w: "fresh sl (m_time_wheel s) = Inr w" by (simp add: fresh_def)
  let ?s = "s\<lparr>m_time_wheel := w\<rparr>" and ?n = "length (m_wheel (m_time_wheel s))"
  have f: "run_main_task (Fresh_Task sl) s = Inr (?s, [])"
    by (simp add: run_main_task_def run_server_task_def w comp_def case_prod_unfold)
  from fresh_slot_at [OF w] have "slot_at sl (?n - 1) (m_time_wheel ?s)" by simp
  moreover have "map_wf (m_clients ?s)" "map_get (m_clients ?s) fd = Some (Some c)" using assms(2,3) by simp_all
  moreover have "?n - 1 < turns evs \<longleftrightarrow> \<not> turns evs < ?n" using assms(1) by (cases ?n) auto
  ultimately have main: "returns (run_main evs ?s) (\<lambda>(s', as).
      shut_at (?n - 1) evs fd as \<and> map_wf (m_clients s') \<and>
      map_get (m_clients s') fd = Some (Some (if turns evs < ?n then c else half_closed c)))"
    using run_main_slot_at [of sl "?n - 1" ?s fd c evs] assms(4-6) by (simp split: if_split_asm)
  have clear: "returns (run_main [Client fd c2, Task Clear_Clients] s') (\<lambda>(s2, _). map_get (m_clients s2) fd = Some None)"
    if "m_state c2 = Closed" "map_wf (m_clients s')" for c2 and s' :: "('a, 'b) tcp_server"
    using that server_clears_closed_connections [of "s'\<lparr>m_clients := map_put fd (Some c2) (m_clients s')\<rparr>" fd]
    by (simp add: run_main_task_def run_server_task_def map_get_map_entries map_get_put slot_destroyed_def)
  have "returns (conn_input \<lparr>sk_pending = [], sk_events = [(Read_Failed, False)]\<rparr> (half_closed c)) (\<lambda>(e, sk, c2, acts).
      e = Parked \<and> acts = [Unregister_Fd, Close_Fd] \<and>
      returns (run_main [Client fd c2, Task Clear_Clients] s') (\<lambda>(s2, _). map_get (m_clients s2) fd = Some None))"
    if "map_wf (m_clients s')" for s' :: "('a, 'b) tcp_server"
    using shut_connection_closes [of "half_closed c" "[]"] assms(7-9) clear [OF _ that]
    by (auto simp: half_closed_def elim!: returns_mono)
  with main f show ?thesis by (auto simp: Let_def elim!: returns_mono)
qed


definition example_idle :: "(string, nat) tcp_server" where
  "example_idle = example_server\<lparr>m_clients := [(20, Some (new_server_connection Http_Protocal 1))]\<rparr>"

lemma idle_connection_is_closed_witness:
  "returns (run_main (Task (Fresh_Task 1) # replicate 6 (Task Wheel_Loop)) example_idle) (\<lambda>(s', as).
     (20, Shutdown_Fd) \<in> set (tl as ! 5) \<and> (\<exists>c'. map_get (m_clients s') 20 = Some (Some c') \<and>
       returns (conn_input \<lparr>sk_pending = [], sk_events = [(Read_Failed, False)]\<rparr> c') (\<lambda>(e, sk, c2, acts).
         e = Parked \<and> acts = [Unregister_Fd, Close_Fd])))"
proof -
  let ?c = "new_server_connection Http_Protocal 1" and ?evs = "replicate 6 (Task Wheel_Loop)"
  have l: "length (m_wheel (m_time_wheel example_idle)) = 6"
    by (simp add: example_idle_def example_server_def new_TcpTimeWheel_def)
  have s: "m_wheel (m_time_wheel example_idle) \<noteq> []" "map_wf (m_clients example_idle)"
    "map_get (m_clients example_idle) 20 = Some (Some ?c)"
    using l by (auto simp: example_idle_def map_wf_def map_get_def)
  have c: "m_state ?c = Connected" "m_weak_slot ?c = Some 1" "silent 20 1 ?evs" "\<not> m_is_over_time ?c"
    "buffer_wf (m_read_buffer ?c)" "2 * m_write_index (m_read_buffer ?c) \<le> INT_MAX"
    by (simp_all add: new_server_connection_def silent_def buffer_wf_def INT_MAX_def)
  have t: "turns ?evs = 6" "turns (replicate 5 (Task Wheel_Loop)) = 5" by (simp_all add: turns_def)
  show ?thesis using idle_connection_is_closed [OF s c]
    by (elim returns_mono) (auto simp: l t shut_at_def Let_def elim!: returns_mono)
qed

end
