(* ===== verification/Client_Descriptors.thy ===== *)
theory Client_Descriptors
  imports Tcp_Client
begin

text \<open>
  The descriptors of a client, in the table of its process: \<open>TcpClient::TcpClient\<close>, \<open>~TcpClient\<close>, \<open>resetFd\<close> and
  the code behind \<open>err_deal\<close> in \<open>net/tcp/tcp_client.cc\<close>, and the \<open>close\<close> of \<open>TcpConnection::clearClient\<close>. The
  client and its connection each keep the number of the socket. As POSIX says, \<open>socket\<close> gives the lowest
  number that is free. Tcp_Client has the rest of the client, with these steps as the actions \<open>Reset_Fd\<close>
  and \<open>Close_Fd\<close>.
\<close>

section \<open>The code\<close>

datatype fd_owner = Client_Socket | Stranger nat

type_synonym fd_table = "fd_owner option list"

fun lowest_free :: "fd_table \<Rightarrow> nat" where
  "lowest_free [] = 0"
| "lowest_free (None # t) = 0"
| "lowest_free (Some _ # t) = Suc (lowest_free t)"

text \<open>A system call that opens a descriptor, and \<open>close\<close>, with whose descriptor it was.\<close>

definition open_fd :: "fd_owner \<Rightarrow> fd_table \<Rightarrow> nat \<times> fd_table" where
  "open_fd o1 t =
     (let fd = lowest_free t
      in (fd, if fd < length t then t[fd := Some o1] else t @ [Some o1]))"

definition owner_of :: "nat \<Rightarrow> fd_table \<Rightarrow> fd_owner option" where
  "owner_of fd t = (if fd < length t then t ! fd else None)"

definition close_fd :: "nat \<Rightarrow> fd_table \<Rightarrow> fd_owner option \<times> fd_table" where
  "close_fd fd t = (owner_of fd t, t[fd := None])"

record client_fds =
  fd_table :: fd_table
  m_fd :: nat
  conn_fd :: nat

text \<open>The constructor gives its socket to the connection.\<close>

definition client_open :: "fd_table \<Rightarrow> client_fds" where
  "client_open t = (case open_fd Client_Socket t of (fd, t) \<Rightarrow> \<lparr>fd_table = t, m_fd = fd, conn_fd = fd\<rparr>)"

text \<open>
  \<open>resetFd\<close>, which is also what happens at \<open>err_deal\<close>: what the other threads of the process open and close
  between \<open>close\<close> and \<open>socket\<close> is the function \<open>meanwhile\<close>. The first result is whose descriptor was closed.
\<close>

definition client_resetFd :: "(fd_table \<Rightarrow> fd_table) \<Rightarrow> client_fds \<Rightarrow> fd_owner option \<times> client_fds" where
  "client_resetFd meanwhile c =
     (case close_fd (m_fd c) (fd_table c) of (o1, t) \<Rightarrow>
      case open_fd Client_Socket (meanwhile t) of (fd, t) \<Rightarrow> (o1, c\<lparr>fd_table := t, m_fd := fd\<rparr>))"

definition clearClient_fd :: "client_fds \<Rightarrow> fd_owner option \<times> client_fds" where
  "clearClient_fd c = (case close_fd (conn_fd c) (fd_table c) of (o1, t) \<Rightarrow> (o1, c\<lparr>fd_table := t\<rparr>))"

definition delete_TcpClient :: "client_fds \<Rightarrow> fd_owner option \<times> client_fds" where
  "delete_TcpClient c =
     (if m_fd c > 0 then (case close_fd (m_fd c) (fd_table c) of (o1, t) \<Rightarrow> (o1, c\<lparr>fd_table := t\<rparr>))
      else (None, c))"

section \<open>Tables\<close>

lemma lowest_free_le: "lowest_free t \<le> length t"
  by (induction t rule: lowest_free.induct) auto

lemma owner_of_lowest_free: "owner_of (lowest_free t) t = None"
  by (induction t rule: lowest_free.induct) (auto simp: owner_of_def)

lemma below_lowest_free: "j < lowest_free t \<Longrightarrow> owner_of j t \<noteq> None"
proof (induction t arbitrary: j rule: lowest_free.induct)
  case (3 x t)
  have "owner_of (Suc i) (Some x # t) = owner_of i t" "owner_of 0 (Some x # t) = Some x" for i
    by (simp_all add: owner_of_def)
  with 3 show ?case by (cases j) auto
qed simp_all

lemma lowest_free_eq:
  assumes "owner_of n t = None" and "\<And>j. j < n \<Longrightarrow> owner_of j t \<noteq> None"
  shows "lowest_free t = n"
  using assms owner_of_lowest_free [of t] below_lowest_free [of n t] by (metis nat_neq_iff)

lemma owner_of_open_fd:
  "open_fd o1 t = (fd, t') \<Longrightarrow> owner_of j t' = (if j = fd then Some o1 else owner_of j t)"
  using lowest_free_le [of t]
  by (auto simp: open_fd_def owner_of_def Let_def nth_append split: if_splits)

lemma owner_of_close: "owner_of j (t[fd := None]) = (if j = fd then None else owner_of j t)"
  by (auto simp: owner_of_def)

lemma lowest_free_close:
  "lowest_free (t[fd := None]) = fd \<longleftrightarrow> (\<forall>j < fd. owner_of j t \<noteq> None)"
proof
  assume l: "lowest_free (t[fd := None]) = fd"
  show "\<forall>j < fd. owner_of j t \<noteq> None"
  proof (intro allI impI)
    fix j assume "j < fd"
    with l below_lowest_free [of j "t[fd := None]"] show "owner_of j t \<noteq> None" by (simp add: owner_of_close)
  qed
next
  assume "\<forall>j < fd. owner_of j t \<noteq> None"
  then show "lowest_free (t[fd := None]) = fd" by (intro lowest_free_eq) (auto simp: owner_of_close)
qed

section \<open>Properties\<close>

text \<open>
  \<open>resetFd\<close> does not tell the connection the number of the new socket. When nothing else opens or closes
  a descriptor meanwhile, the two still agree exactly if every lower number is taken; otherwise the
  connection is left with a number that is not open.
\<close>

theorem reset_keeps_connection_socket:
  assumes "owner_of (m_fd c) (fd_table c) = Some Client_Socket" and "conn_fd c = m_fd c"
  shows "case client_resetFd id c of (closed, c') \<Rightarrow>
    closed = Some Client_Socket \<and> owner_of (m_fd c') (fd_table c') = Some Client_Socket \<and>
    (if \<forall>j < m_fd c. owner_of j (fd_table c) \<noteq> None then m_fd c' = conn_fd c' \<and> fd_table c' = fd_table c
     else m_fd c' < conn_fd c' \<and> owner_of (conn_fd c') (fd_table c') = None)"
proof -
  let ?f = "m_fd c" and ?t = "fd_table c"
  have l: "?f < length ?t" "?t ! ?f = Some Client_Socket" using assms(1) by (auto simp: owner_of_def split: if_splits)
  obtain fd t where o1: "open_fd Client_Socket (?t[?f := None]) = (fd, t)" by fastforce
  then have fd: "fd = lowest_free (?t[?f := None])" by (simp add: open_fd_def Let_def)
  have "fd \<le> ?f" using below_lowest_free [of ?f "?t[?f := None]"] fd by (force simp: owner_of_close)
  moreover have "fd = ?f \<Longrightarrow> t = ?t"
    using o1 fd l by (auto simp: open_fd_def Let_def) (metis list_update_id)
  moreover have "owner_of j t = (if j = fd then Some Client_Socket else owner_of j (?t[?f := None]))" for j
    by (rule owner_of_open_fd [OF o1])
  ultimately show ?thesis
    using assms fd lowest_free_close [of ?t ?f]
    by (auto simp: client_resetFd_def close_fd_def o1 owner_of_close)
qed



text \<open>Without the stranger, every socket of a client is closed once.\<close>

lemma client_closes_its_socket:
  assumes "0 < lowest_free t"
  shows "delete_TcpClient (client_open t) =
    (Some Client_Socket, (client_open t)\<lparr>fd_table := (fd_table (client_open t))[lowest_free t := None]\<rparr>)"
proof -
  obtain fd t' where o1: "open_fd Client_Socket t = (fd, t')" by fastforce
  then have "fd = lowest_free t" by (simp add: open_fd_def Let_def)
  with owner_of_open_fd [OF o1, of fd] o1 assms show ?thesis
    by (simp add: client_open_def delete_TcpClient_def close_fd_def)
qed

definition example_fds :: client_fds where
  "example_fds = client_open [Some (Stranger 0), Some (Stranger 0), Some (Stranger 0)]"

lemma example_fds_open:
  "m_fd example_fds = 3" "conn_fd example_fds = 3"
  "fd_table example_fds = [Some (Stranger 0), Some (Stranger 0), Some (Stranger 0), Some Client_Socket]"
  by (simp_all add: example_fds_def client_open_def open_fd_def)

lemma below_3: "j < (3 :: nat) \<longleftrightarrow> j = 0 \<or> j = 1 \<or> j = 2"
  by auto

lemma reset_keeps_connection_socket_witness:
  "m_fd (snd (client_resetFd id example_fds)) = conn_fd (snd (client_resetFd id example_fds)) \<and>
   (case client_resetFd id (example_fds\<lparr>fd_table := (fd_table example_fds)[1 := None]\<rparr>) of (_, c) \<Rightarrow> m_fd c < conn_fd c)"
  using reset_keeps_connection_socket [of example_fds]
    reset_keeps_connection_socket [of "example_fds\<lparr>fd_table := (fd_table example_fds)[1 := None]\<rparr>"]
  by (simp add: example_fds_open owner_of_def below_3 split: prod.splits if_splits)


end
