(* ===== verification/Test_Servers.thy ===== *)
theory Test_Servers
  imports Start Rpc_Round Http_Round
begin

text \<open>
  The programs of \<open>testcases\<close> that use the framework: the servlets and the \<open>main\<close> of \<open>test_http_server.cc\<close>, the
  service and the \<open>main\<close> of \<open>test_flconcpb_server.cc\<close>, and the client of \<open>test_flconcpb_server_client.cc\<close>. The
  messages of \<open>test_flconcpb_server.proto\<close> are records; how protobuf prints and parses them is an argument.
\<close>

section \<open>The servlets\<close>

definition html :: "string \<Rightarrow> string" where
  "html text = ''<html><body><h1>Welcome to TinyRPC, just enjoy it!</h1><p>'' @ text @ ''</p></body></html>''"

text \<open>\<open>char buf[512]; sprintf(buf, html, text.c_str())\<close> and \<open>std::string(buf)\<close>.\<close>

definition html_page :: "string \<Rightarrow> string res" where
  "html_page text = (let t = html (c_str text) in bindE (sprintf_512 t) (\<lambda>_. Inr t))"

text \<open>
  \<open>formatString\<close> without arguments, where every conversion but \<open>%%\<close> reads an argument that is not there; \<open>log_on\<close>
  says whether lines of level DEBUG are logged.
\<close>

fun formatString :: "string \<Rightarrow> string res" where
  "formatString [] = Inr []"
| "formatString [c] = (if c = CHR ''%'' then Inl Indeterminate_Value else Inr [c])"
| "formatString (c # d # cs) =
     (if c = CHR ''%'' then (if d = CHR ''%'' then bindE (formatString cs) (\<lambda>s. Inr (c # s)) else Inl Indeterminate_Value)
      else bindE (formatString (d # cs)) (\<lambda>s. Inr (c # s)))"

definition AppDebugLog :: "bool \<Rightarrow> string \<Rightarrow> unit res" where
  "AppDebugLog log_on text = (if log_on then bindE (formatString (c_str text)) (\<lambda>_. Inr ()) else Inr ())"

text \<open>The answer as every servlet begins it, and \<open>req->m_query_maps["id"]\<close>.\<close>

definition begin_answer :: "http_response \<Rightarrow> http_response" where
  "begin_answer res = setHttpContentType (setHttpCode res HTTP_OK) ''text/html;charset=utf-8''"

definition query_id :: "http_request \<Rightarrow> string \<times> http_request" where
  "query_id req = (case map_index [] ''id'' (m_query_maps req) of (v, m) \<Rightarrow> (v, req\<lparr>m_query_maps := m\<rparr>))"

definition qps_text :: "string \<Rightarrow> string" where
  "qps_text qid = ''QPSHttpServlet Echo Success!! Your id is,'' @ qid"

definition QPS_handle :: "bool \<Rightarrow> http_request \<Rightarrow> http_response \<Rightarrow> (http_request \<times> http_response) res" where
  "QPS_handle log_on req res =
     (case query_id req of (qid, req) \<Rightarrow>
      bindE (html_page (qps_text qid)) (\<lambda>body.
      let res = setHttpBody (begin_answer res) body
      in bindE (AppDebugLog log_on (qps_text qid)) (\<lambda>_. Inr (req, res))))"

definition QPSHttpServlet :: "bool \<Rightarrow> http_servlet" where
  "QPSHttpServlet log_on = \<lparr>getServletName = ''QPSHttpServlet'', handle = QPS_handle log_on\<rparr>"

record query_age_req =
  q_req_no :: int
  q_id :: int

record query_age_res =
  r_ret_code :: int
  r_res_info :: string
  r_req_no :: int
  r_id :: int
  r_age :: int

definition bad_result_text :: "query_age_res \<Rightarrow> string" where
  "bad_result_text r =
     ''QueryServer rpc server return bad result, ret = '' @ show_int (r_ret_code r) @ '', and res_info = '' @ r_res_info r"

definition success_text :: "query_age_res \<Rightarrow> string" where
  "success_text r = ''Success!! Your age is,'' @ show_int (r_age r) @ '' and Your id is '' @ show_int (r_id r)"

text \<open>
  The two servlets that call the query server: \<open>rpc\<close> is the call of the stub, with the error code of the
  controller and the response as the call leaves them. They differ in the channel, and in that only the
  blocking one logs the text of a bad result.
\<close>

definition age_answer ::
  "bool \<Rightarrow> (query_age_req \<Rightarrow> (int \<times> query_age_res) res) \<Rightarrow> http_request \<Rightarrow> http_response \<Rightarrow>
   (http_request \<times> http_response) res" where
  "age_answer log_bad rpc req res =
     (case query_id req of (qid, req) \<Rightarrow>
      bindE (atoi (c_str qid)) (\<lambda>n.
      bindE (rpc \<lparr>q_req_no = 0, q_id = n\<rparr>) (\<lambda>(error_code, r).
      bindE (if error_code \<noteq> 0 then html_page ''failed to call QueryServer rpc server''
             else if r_ret_code r \<noteq> 0 then
               bindE (AppDebugLog log_bad (bad_result_text r)) (\<lambda>_. html_page (bad_result_text r))
             else html_page (success_text r)) (\<lambda>body.
      Inr (req, setHttpBody (begin_answer res) body)))))"

definition BlockCallHttpServlet :: "bool \<Rightarrow> (query_age_req \<Rightarrow> (int \<times> query_age_res) res) \<Rightarrow> http_servlet" where
  "BlockCallHttpServlet log_on rpc = \<lparr>getServletName = ''BlockCallHttpServlet'', handle = age_answer log_on rpc\<rparr>"

definition NonBlockCallHttpServlet :: "(query_age_req \<Rightarrow> (int \<times> query_age_res) res) \<Rightarrow> http_servlet" where
  "NonBlockCallHttpServlet rpc = \<lparr>getServletName = ''NonBlockCallHttpServlet'', handle = age_answer False rpc\<rparr>"

section \<open>The query service\<close>

record query_name_req =
  nq_req_no :: int
  nq_id :: int
  nq_type :: int

record query_name_res =
  nr_ret_code :: int
  nr_res_info :: string
  nr_req_no :: int
  nr_id :: int
  nr_name :: string

datatype query_msg =
    Age_Req query_age_req | Age_Res query_age_res | Name_Req query_name_req | Name_Res query_name_res

text \<open>
  \<open>QueryServiceImpl\<close>; the state is the counter \<open>i\<close>, which \<open>query_age\<close> moves under its coroutine mutex. Its
  overflow, after \<open>2 ^ 31\<close> calls of a second each, wraps here.
\<close>

definition query_age :: "rpc_controller \<Rightarrow> query_msg \<Rightarrow> query_msg \<Rightarrow> int \<Rightarrow> query_msg \<times> int" where
  "query_age controller request response i =
     (case (request, response) of
        (Age_Req q, Age_Res r) \<Rightarrow>
          (Age_Res (r\<lparr>r_ret_code := 0, r_res_info := ''OK'', r_req_no := q_req_no q, r_id := q_id q, r_age := 100100111\<rparr>),
           wrap32 (i + 1))
      | _ \<Rightarrow> (response, i))"

definition query_name :: "rpc_controller \<Rightarrow> query_msg \<Rightarrow> query_msg \<Rightarrow> int \<Rightarrow> query_msg \<times> int" where
  "query_name controller request response i =
     (case (request, response) of
        (Name_Req q, Name_Res r) \<Rightarrow> (Name_Res (r\<lparr>nr_id := nq_id q, nr_name := ''ikerli''\<rparr>), i)
      | _ \<Rightarrow> (response, i))"

definition empty_age_res :: query_age_res where
  "empty_age_res = \<lparr>r_ret_code = 0, r_res_info = [], r_req_no = 0, r_id = 0, r_age = 0\<rparr>"

definition empty_name_res :: query_name_res where
  "empty_name_res = \<lparr>nr_ret_code = 0, nr_res_info = [], nr_req_no = 0, nr_id = 0, nr_name = []\<rparr>"

text \<open>What protobuf does with the messages, and the descriptor it generates from the service.\<close>

record query_wire =
  print_age_req :: "query_age_req \<Rightarrow> string option"
  parse_age_req :: "string \<Rightarrow> query_age_req option"
  print_age_res :: "query_age_res \<Rightarrow> string option"
  parse_age_res :: "string \<Rightarrow> query_age_res option"
  parse_name_req :: "string \<Rightarrow> query_name_req option"
  print_name_res :: "query_name_res \<Rightarrow> string option"

definition age_method :: "query_wire \<Rightarrow> (query_msg, int) rpc_method" where
  "age_method p =
     \<lparr>request_type_name = ''queryAgeReq'', parse_request = (\<lambda>s. map_option Age_Req (parse_age_req p s)),
      new_response = Age_Res empty_age_res, call_method = query_age,
      serialize_response = (\<lambda>m. case m of Age_Res r \<Rightarrow> print_age_res p r | _ \<Rightarrow> None)\<rparr>"

definition name_method :: "query_wire \<Rightarrow> (query_msg, int) rpc_method" where
  "name_method p =
     \<lparr>request_type_name = ''queryNameReq'', parse_request = (\<lambda>s. map_option Name_Req (parse_name_req p s)),
      new_response = Name_Res empty_name_res, call_method = query_name,
      serialize_response = (\<lambda>m. case m of Name_Res r \<Rightarrow> print_name_res p r | _ \<Rightarrow> None)\<rparr>"

definition QueryServiceImpl :: "query_wire \<Rightarrow> (query_msg, int) rpc_service" where
  "QueryServiceImpl p =
     \<lparr>service_descriptor_name = ''QueryService'',
      find_method = (\<lambda>n. if n = ''query_name'' then Some (name_method p)
                         else if n = ''query_age'' then Some (age_method p) else None)\<rparr>"

section \<open>The programs\<close>

definition http_server_main ::
  "'e xml_api \<Rightarrow> (string \<Rightarrow> 32 word) \<Rightarrow> bool \<Rightarrow> boot \<Rightarrow> 'e option \<Rightarrow> listen_results \<Rightarrow>
   (int \<times> net_address \<times> nat \<times> nat) list \<Rightarrow> bool \<Rightarrow> (query_age_req \<Rightarrow> (int \<times> query_age_res) res) \<Rightarrow>
   (query_age_req \<Rightarrow> (int \<times> query_age_res) res) \<Rightarrow> string list \<Rightarrow> ('msg, 'w) globals \<Rightarrow> ('msg, 'w) globals res" where
  "http_server_main x inet_addr plugin b doc l as log_on rpc async_rpc argv g =
     (if length argv \<noteq> 2 then Inr g
      else
        bindE (InitConfig x inet_addr plugin b (argv ! 1) doc g) (\<lambda>g.
        bindE (REGISTER_HTTP_SERVLET ''/qps'' (QPSHttpServlet log_on) g) (\<lambda>g.
        bindE (REGISTER_HTTP_SERVLET ''/block'' (BlockCallHttpServlet log_on rpc) g) (\<lambda>g.
        bindE (REGISTER_HTTP_SERVLET ''/nonblock'' (NonBlockCallHttpServlet async_rpc) g) (StartRpcServer b l as)))))"

definition flconcpb_server_main ::
  "'e xml_api \<Rightarrow> (string \<Rightarrow> 32 word) \<Rightarrow> bool \<Rightarrow> boot \<Rightarrow> 'e option \<Rightarrow> listen_results \<Rightarrow>
   (int \<times> net_address \<times> nat \<times> nat) list \<Rightarrow> query_wire \<Rightarrow> string list \<Rightarrow> (query_msg, int) globals \<Rightarrow>
   (query_msg, int) globals res" where
  "flconcpb_server_main x inet_addr plugin b doc l as p argv g =
     (if length argv \<noteq> 2 then Inr g
      else
        bindE (InitConfig x inet_addr plugin b (argv ! 1) doc g) (\<lambda>g.
        bindE (REGISTER_SERVICE (QueryServiceImpl p) g) (StartRpcServer b l as)))"

text \<open>\<open>test_client\<close>: the call of the stub is a \<open>CallMethod\<close> on the full name of the method.\<close>

definition test_client ::
  "('m \<Rightarrow> (string \<times> 'm) res) \<Rightarrow> (string \<Rightarrow> 32 word) \<Rightarrow> query_wire \<Rightarrow> client_env \<Rightarrow> 'm \<Rightarrow> run_time option \<Rightarrow> query_age_req \<Rightarrow>
   ('m \<times> query_age_res call_end) res option" where
  "test_client gen inet_addr p env m rt rpc_req =
     CallMethod gen inet_addr (print_age_req p) (parse_age_res p) env
       (IPAddress (IPAddress_of inet_addr ''127.0.0.1'' 39999)) m rt ''QueryService.query_age''
       (SetTimeout 5000 new_RpcController) rpc_req False"

section \<open>What the servlets answer\<close>

lemma formatString_plain: "CHR ''%'' \<notin> set s \<Longrightarrow> formatString s = Inr s"
  by (induction s rule: formatString.induct) auto

lemma length_html: "length (html t) = 76 + length t"
  by (simp add: html_def)

lemma length_qps_text: "length (c_str (qps_text qid)) = 41 + length (c_str qid)"
  by (simp add: qps_text_def c_str_def NUL_def)

text \<open>The page of a servlet that has set code 200, the content type and a body.\<close>

definition ok_page :: "http_request \<Rightarrow> string \<Rightarrow> string" where
  "ok_page req body =
     m_request_version req @ '' 200 OK'' @ [CR, LF]
       @ ''Connection:'' @ connection_of req @ [CR, LF]
       @ ''Content-Length:'' @ show_int (int (length body)) @ [CR, LF]
       @ ''Content-Type:text/html;charset=utf-8'' @ [CR, LF] @ [CR, LF] @ body"

lemma show_200: "show_int 200 = ''200''"
  by code_simp

lemma ok_page_text:
  "response_text (setHttpBody (begin_answer (snd (setCommParam req new_HttpResponse))) body) 200 = ok_page req body"
  "m_response_code (setHttpBody (begin_answer res) body) = Some 200"
  by (simp_all add: setCommParam_response setHttpBody_def begin_answer_def setHttpContentType_def setHttpCode_def
      httpCodeToString_def HTTP_OK_def new_HttpResponse_def response_text_def toHttpString_def ok_page_def less_char_def show_200)


text \<open>What \<open>/qps\<close> makes of its parameter.\<close>

definition qps_outcome :: "bool \<Rightarrow> string \<Rightarrow> string res" where
  "qps_outcome log_on qid =
     (if 395 \<le> length (c_str qid) then Inl Out_Of_Bounds
      else if log_on \<and> isl (formatString (c_str (qps_text qid))) then Inl Indeterminate_Value
      else Inr (html (c_str (qps_text qid))))"

lemma formatString_fault: "formatString s = Inl e \<Longrightarrow> e = Indeterminate_Value"
  by (induction s arbitrary: e rule: formatString.induct) (auto simp: bindE_eq_Inl split: if_splits)

lemma query_id_keeps:
  "fst (query_id req) = (case map_get (m_query_maps req) ''id'' of Some v \<Rightarrow> v | None \<Rightarrow> [])"
  by (simp add: query_id_def map_index_def split: option.split)

lemma setCommParam_queries: "m_query_maps (fst (setCommParam req res)) = m_query_maps req"
  by (simp add: setCommParam_def split: prod.split)

lemma QPS_handle_outcome:
  assumes "fst (query_id req) = qid"
  shows "QPS_handle log_on req res =
    bindE (qps_outcome log_on qid) (\<lambda>body. Inr (snd (query_id req), setHttpBody (begin_answer res) body))"
proof -
  obtain req' where q: "query_id req = (qid, req')" using assms by (cases "query_id req") simp
  show ?thesis
  proof (cases "formatString (c_str (qps_text qid))")
    case (Inl e)
    with formatString_fault [OF Inl] show ?thesis
      by (auto simp: QPS_handle_def q html_page_def sprintf_512_def length_html length_qps_text qps_outcome_def
          AppDebugLog_def Let_def)
  next
    case (Inr t)
    then show ?thesis
      by (auto simp: QPS_handle_def q html_page_def sprintf_512_def length_html length_qps_text qps_outcome_def
          AppDebugLog_def Let_def)
  qed
qed

lemma run_QPS:
  assumes "map_get (m_query_maps req) ''id'' = Some qid"
  shows "handle (QPSHttpServlet log_on) (fst (setCommParam req res)) (snd (setCommParam req res)) =
    bindE (qps_outcome log_on qid) (\<lambda>body.
      Inr (snd (query_id (fst (setCommParam req res))), setHttpBody (begin_answer (snd (setCommParam req res))) body))"
  using assms QPS_handle_outcome [of "fst (setCommParam req res)" qid log_on "snd (setCommParam req res)"]
  by (simp add: QPSHttpServlet_def query_id_keeps setCommParam_queries)

section \<open>Properties\<close>

text \<open>
  The servlet of \<open>/qps\<close> of the test server answers a request with the page that shows its parameter, under
  the request's version, if the parameter is short and harmless. With 395 characters it writes behind
  its buffer of 512; and when DEBUG lines are logged, a parameter with a conversion in it makes the log
  read arguments that nobody passed.
\<close>

theorem qps_request_answered:
  assumes "buffer_wf out" and "m_request_path req \<noteq> []" and "map_get ss (m_request_path req) = Some (QPSHttpServlet log_on)"
    and "map_get (m_query_maps req) ''id'' = Some qid" and "gen m = Inr (no, m')"
    and "m_write_index out + int (length (ok_page req (html (c_str (qps_text qid))))) \<le> WRITE_LIMIT"
  shows "if 395 \<le> length (c_str qid) then http_dispatch gen ss m rt req out = Inl Out_Of_Bounds
    else if log_on \<and> isl (formatString (c_str (qps_text qid))) then http_dispatch gen ss m rt req out = Inl Indeterminate_Value
    else returns (http_dispatch gen ss m rt req out) (\<lambda>(m1, rt', res', out'). m1 = m' \<and> m_msg_no rt' = no \<and>
      m_interface_name rt' = ''QPSHttpServlet'' \<and> buffer_wf out' \<and>
      view out' = view out @ ok_page req (html (''QPSHttpServlet Echo Success!! Your id is,'' @ c_str qid)))"
proof (cases "qps_outcome log_on qid")
  case (Inl e)
  then have "http_dispatch gen ss m rt req out = Inl e"
    using assms(2,3,5) run_QPS [OF assms(4)]
    by (simp add: http_dispatch_def run_servlet_def Let_def case_prod_beta)
  with Inl show ?thesis by (auto simp: qps_outcome_def split: if_splits)
next
  case (Inr body)
  then have b: "body = html (c_str (qps_text qid))" by (auto simp: qps_outcome_def split: if_splits)
  have "c_str (qps_text qid) = ''QPSHttpServlet Echo Success!! Your id is,'' @ c_str qid"
    by (simp add: qps_text_def c_str_def NUL_def)
  moreover let ?sc = "setCommParam req new_HttpResponse"
  have "handle (QPSHttpServlet log_on) (fst ?sc) (snd ?sc) =
      Inr (snd (query_id (fst ?sc)), setHttpBody (begin_answer (snd ?sc)) body)"
    using run_QPS [OF assms(4)] Inr by simp
  note served = returns_dispatch_servlet [where gen = gen and m = m and rt = rt, OF assms(1-3,5) this ok_page_text(2),
      unfolded ok_page_text(1) b, OF assms(6)]
  ultimately have "returns (http_dispatch gen ss m rt req out) (\<lambda>(m1, rt', res', out'). m1 = m' \<and> m_msg_no rt' = no \<and>
      m_interface_name rt' = ''QPSHttpServlet'' \<and> buffer_wf out' \<and>
      view out' = view out @ ok_page req (html (''QPSHttpServlet Echo Success!! Your id is,'' @ c_str qid)))"
    using served by (auto simp: QPSHttpServlet_def elim!: returns_mono)
  with Inr show ?thesis by (auto simp: qps_outcome_def split: if_splits)
qed


definition qps_req :: "string \<Rightarrow> http_request" where
  "qps_req qid = new_HttpRequest\<lparr>m_request_path := ''/qps'', m_request_version := ''HTTP/1.1'', m_query_maps := [(''id'', qid)]\<rparr>"

lemma qps_request_answered_witness:
  "returns (http_dispatch (\<lambda>m. Inr (''7'', m)) [(''/qps'', QPSHttpServlet True)] () new_RunTime (qps_req ''42'') (filled []))
     (\<lambda>(m1, rt', res', out'). m_interface_name rt' = ''QPSHttpServlet'') \<and>
   http_dispatch (\<lambda>m. Inr (''7'', m)) [(''/qps'', QPSHttpServlet True)] () new_RunTime
     (qps_req (replicate 395 CHR ''x'')) (filled []) = Inl Out_Of_Bounds"
proof -
  let ?ss = "[(''/qps'', QPSHttpServlet True)]"
  have q: "m_request_path (qps_req s) \<noteq> []" "map_get ?ss (m_request_path (qps_req s)) = Some (QPSHttpServlet True)"
    "map_get (m_query_maps (qps_req s)) ''id'' = Some s" "connection_of (qps_req s) = []"
    "m_request_version (qps_req s) = ''HTTP/1.1''" for s
    by (simp_all add: qps_req_def map_get_def connection_of_def new_HttpRequest_def)
  have l: "c_str (replicate 395 CHR ''x'') = replicate 395 CHR ''x''" "c_str ''42'' = ''42''"
    by (simp_all add: c_str_def NUL_def takeWhile_replicate)
  have n: "length (show_int (int 119)) = 3" "length (show_int (int 512)) = 3" by code_simp+
  have "m_write_index (filled []) + int (length (ok_page (qps_req s) (html (c_str (qps_text s))))) \<le> WRITE_LIMIT"
    if "s = ''42'' \<or> s = replicate 395 CHR ''x''" for s
    using that n by (auto simp: ok_page_def q length_html length_qps_text l filled_def WRITE_LIMIT_def)
  note qps = qps_request_answered [where gen = "\<lambda>m. Inr (''7'', m)" and m = "()" and rt = new_RunTime,
      OF filled_ok(1) q(1-3) refl this]
  have "\<not> isl (formatString (c_str (qps_text ''42'')))" by code_simp
  with qps [of "''42''"] qps [of "replicate 395 CHR ''x''"] show ?thesis
    by (auto simp: filled_ok INT_MAX_def l elim!: returns_mono)
qed


section \<open>The client and the query server\<close>

definition age_result :: "query_age_req \<Rightarrow> query_age_res" where
  "age_result q = \<lparr>r_ret_code = 0, r_res_info = ''OK'', r_req_no = q_req_no q, r_id = q_id q, r_age = 100100111\<rparr>"

definition age_package :: "string \<Rightarrow> string \<Rightarrow> flconcpb_struct" where
  "age_package no data = new_FlconcPbStruct\<lparr>service_full_name := ''QueryService.query_age'', pb_data := data, msg_req := no\<rparr>"

lemma query_age_lookup:
  assumes "parse_age_req p d = Some q"
  shows "lookup_call (map_get (registerService (QueryServiceImpl p) [])) ''QueryService.query_age'' d =
    Callable (age_method p) ''query_age'' (Age_Req q)"
  using assms
  by (simp add: lookup_call_def registerService_def QueryServiceImpl_def map_get_def age_method_def)

lemma query_age_answer:
  assumes "parse_age_req p d = Some q" and "print_age_res p (age_result q) = Some r"
  shows "answer (lookup_call (map_get (registerService (QueryServiceImpl p) [])) ''QueryService.query_age'' d)
    ''QueryService.query_age'' no i = (0, [], r, wrap32 (i + 1))"
  using assms(2)
  by (simp add: query_age_lookup [OF assms(1)] answer_def age_method_def query_age_def empty_age_res_def age_result_def)

lemma age_package_fits:
  assumes "no \<noteq> []" and "length no \<le> 20" and "NUL \<notin> set no" and "length d \<le> 40"
  shows "pb_fits (age_package no d)" "pb_size (age_package no d) < 128"
  using assms
  by (simp_all add: age_package_def pb_fits_def pb_sized_def pb_size_def new_FlconcPbStruct_def NUL_def WRITE_LIMIT_def
      fits_int_def INT_MIN_def INT_MAX_def)

text \<open>
  C21: The test client and the test server work together: over any protobuf that prints these two messages
  in 40 bytes and reads back what it printed, the server sends the package with the result of
  \<open>query_age\<close> for the request that reaches it, counting the call, and the client, when it is given that
  package, returns with the age, the id it asked for and no error.
\<close>

theorem query_age_works:
  assumes "print_age_req p q = Some d" and "parse_age_req p d = Some q" and "length d \<le> 40"
    and "print_age_res p (age_result q) = Some r" and "parse_age_res p r = Some (age_result q)" and "length r \<le> 40"
    and "gen m = Inr (no, m')" and "no \<noteq> []" and "length no \<le> 20" and "NUL \<notin> set no"
    and "env_connects env = [(0, err, False)]" and "env_writes env = [(Takes k, False)]" and "128 \<le> k"
    and "1 < env_rounds env" and "1 < env_fuel env" and "1 < fuel"
    and "sk_pending (env_socket env) = package (age_package no r)"
  shows "(\<exists>acts rt2 c2.
      main_server_loop (server_dispatch gen2 (registerService (QueryServiceImpl p) [])) ((fuel, [(Takes k, False)]) # rounds)
        \<lparr>sk_pending = package (age_package no d), sk_events = evs\<rparr>
        (((m2, i), rt1), new_server_connection FlconcPb_Protocal slot) =
      map_option (\<lambda>x. bindE x (\<lambda>(sent, acts', e, s, c). Inr (package (age_package no r) @ sent, acts @ acts', e, s, c)))
        (main_server_loop (server_dispatch gen2 (registerService (QueryServiceImpl p) [])) rounds
          \<lparr>sk_pending = [], sk_events = evs\<rparr> (((m2, wrap32 (i + 1)), rt2), c2))) \<and>
    (\<exists>controller acts. test_client gen inet_addr p env m None q =
      Some (Inr (m', Call_Done (package (age_package no d)) controller (age_result q) False acts)) \<and>
      m_error_code controller = 0)"
proof -
  let ?addr = "IPAddress (IPAddress_of inet_addr ''127.0.0.1'' 39999)"
  let ?c = "SetPeerAddr ?addr (SetLocalAddr (local_address inet_addr) (SetTimeout 5000 new_RpcController))"
  have c: "call_number gen m None ?c = Inr (no, SetMsgReq no ?c, m')"
    using assms(7) by (simp add: call_number_def SetPeerAddr_def SetLocalAddr_def SetTimeout_def new_RpcController_def)
  have rep: "age_package no r = answer_struct ''QueryService.query_age'' no (0, [], r, wrap32 (i + 1))"
    by (simp add: age_package_def answer_struct_def new_FlconcPbStruct_def)
  note fits = age_package_fits [OF assms(8-10,3)] age_package_fits [OF assms(8-10,6)]
  have k: "pb_size (age_package no d) \<le> k" "pb_size (age_package no r) \<le> k" using fits assms(13) by simp_all
  note round = call_round [where serialize = "print_age_req p" and parse = "parse_age_res p" and env = env
      and ?gen2.0 = gen2 and rounds = rounds and evs = evs and ?m2.0 = m2 and ?rt1.0 = rt1 and slot = slot and done_set = False,
      OF assms(1) c age_package_def [of no d] fits(1) query_age_answer [OF assms(2,4)] rep fits(3)
         read_at_onceI [OF fits(2)] read_at_onceI [OF fits(4)] k assms(11,12,14-17)]
  have "call_result (parse_age_res p) s cn False acts (age_package no r) = Call_Done s cn (age_result q) False acts"
    for s cn acts
    using assms(5) by (simp add: call_result_def age_package_def new_FlconcPbStruct_def)
  moreover have "m_error_code (SetMsgReq no ?c) = 0"
    by (simp add: SetMsgReq_def SetPeerAddr_def SetLocalAddr_def SetTimeout_def new_RpcController_def)
  ultimately show ?thesis using round by (simp add: test_client_def)
qed


text \<open>A wire on which a message is its id.\<close>

definition id_wire :: query_wire where
  "id_wire =
     \<lparr>print_age_req = (\<lambda>q. Some (show_int (q_id q))),
      parse_age_req = (\<lambda>s. case atoi s of Inr n \<Rightarrow> Some \<lparr>q_req_no = 0, q_id = n\<rparr> | Inl _ \<Rightarrow> None),
      print_age_res = (\<lambda>r. Some (show_int (r_id r))),
      parse_age_res = (\<lambda>s. case atoi s of Inr n \<Rightarrow> Some (age_result \<lparr>q_req_no = 0, q_id = n\<rparr>) | Inl _ \<Rightarrow> None),
      parse_name_req = (\<lambda>_. None), print_name_res = (\<lambda>_. None)\<rparr>"

lemma query_age_works_witness:
  "\<exists>controller acts. test_client (\<lambda>m. Inr (''4217'', m)) (\<lambda>_. 7) id_wire
     ((example_env (package (age_package ''4217'' ''7'')))\<lparr>env_writes := [(Takes 200, False)]\<rparr>) () None \<lparr>q_req_no = 0, q_id = 7\<rparr> =
   Some (Inr ((), Call_Done (package (age_package ''4217'' ''7'')) controller (age_result \<lparr>q_req_no = 0, q_id = 7\<rparr>) False acts)) \<and>
   m_error_code controller = 0"
proof -
  let ?q = "\<lparr>q_req_no = 0, q_id = 7\<rparr>" 
    and ?env = "(example_env (package (age_package ''4217'' ''7'')))\<lparr>env_writes := [(Takes 200, False)]\<rparr>"
  have n: "show_int 7 = ''7''" "atoi ''7'' = Inr 7" by code_simp+
  have w: "print_age_req id_wire ?q = Some ''7''" "parse_age_req id_wire ''7'' = Some ?q" "length ''7'' \<le> 40"
    "print_age_res id_wire (age_result ?q) = Some ''7''" "parse_age_res id_wire ''7'' = Some (age_result ?q)" "length ''7'' \<le> 40"
    by (simp_all add: id_wire_def n age_result_def)
  have e: "env_connects ?env = [(0, Other_Errno, False)]" "env_writes ?env = [(Takes 200, False)]" "128 \<le> (200 :: nat)"
    "1 < env_rounds ?env" "1 < env_fuel ?env" "1 < (2 :: nat)"
    "sk_pending (env_socket ?env) = package (age_package ''4217'' ''7'')"
    by (simp_all add: example_env_def)
  have no: "''4217'' \<noteq> []" "length ''4217'' \<le> 20" "NUL \<notin> set ''4217''" by (simp_all add: NUL_def)
  show ?thesis
    by (rule query_age_works [where gen = "\<lambda>m. Inr (''4217'', m)" and m = "()" and no = "''4217''" and env = ?env,
        OF w refl no e, THEN conjunct2])
qed


section \<open>The programs start\<close>

text \<open>
  With a document that asks for its protocol, each server starts with everything it registers; with
  the other protocol, the first registration is refused and the process ends.
\<close>

theorem http_server_main_registers:
  assumes "InitConfig x inet_addr plugin b (argv ! 1) doc g0 = Inr g" and "gRpcServer g = Some s"
    and "m_http_servlets s = []" and "length argv = 2"
  shows "if m_protocal_type s = Http_Protocal then
      \<exists>s'. http_server_main x inet_addr plugin b doc l as log_on rpc async_rpc argv g0 =
          StartRpcServer b l as (g\<lparr>gRpcServer := Some s'\<rparr>) \<and>
        map_get (m_http_servlets s') = map_of [(''/qps'', QPSHttpServlet log_on),
          (''/block'', BlockCallHttpServlet log_on rpc), (''/nonblock'', NonBlockCallHttpServlet async_rpc)]
    else http_server_main x inet_addr plugin b doc l as log_on rpc async_rpc argv g0 = Inl Process_Exit"
proof -
  define rs where "rs = [(''/qps'', QPSHttpServlet log_on), (''/block'', BlockCallHttpServlet log_on rpc),
    (''/nonblock'', NonBlockCallHttpServlet async_rpc)]"
  let ?s = "s\<lparr>m_http_servlets := register_all rs []\<rparr>"
  have "map_get (register_all rs []) = map_of rs ++ map_get []"
    by (rule map_get_register_all) (simp add: servlets_wf_def map_wf_Nil)
  then have "map_get (m_http_servlets ?s) = map_of rs" by (simp add: map_get_Nil)
  moreover have "http_server_main x inet_addr plugin b doc l as log_on rpc async_rpc argv g0 =
      (if m_protocal_type s = Http_Protocal then StartRpcServer b l as (g\<lparr>gRpcServer := Some ?s\<rparr>) else Inl Process_Exit)"
    using assms by (simp add: http_server_main_def REGISTER_HTTP_SERVLET_def GetServer_def registerHttpServlet_def rs_def)
  ultimately show ?thesis unfolding rs_def by (auto intro: exI [of _ ?s])
qed

theorem flconcpb_server_main_registers:
  assumes "InitConfig x inet_addr plugin b (argv ! 1) doc g0 = Inr g" and "gRpcServer g = Some s" and "length argv = 2"
  shows "flconcpb_server_main x inet_addr plugin b doc l as p argv g0 =
    (if m_protocal_type s = FlconcPb_Protocal then
       StartRpcServer b l as (g\<lparr>gRpcServer := Some (s\<lparr>m_services := registerService (QueryServiceImpl p) (m_services s)\<rparr>)\<rparr>)
     else Inl Process_Exit)"
  using assms by (simp add: flconcpb_server_main_def REGISTER_SERVICE_def GetServer_def server_registerService_def)

end
