(* ===== verification/Connection_Coroutine.thy ===== *)
theory Connection_Coroutine
  imports Coroutine_Pool
begin

text \<open>
  The coroutine of a server connection, from the constructor of \<open>TcpConnection\<close> to its destructor
  (\<open>net/tcp/tcp_connection.cc\<close>), on the pool of \<open>coroutine/coroutine_pool.cc\<close> and one thread.
\<close>

section \<open>The code\<close>

text \<open>
  The constructor takes a coroutine out of the pool and \<open>initServer\<close> sets its callback; \<open>co\<close> and
  \<open>start\<close> are the addresses of a new coroutine and of new memory, if they are needed.
\<close>

definition connection_begins ::
  "nat \<Rightarrow> int \<Rightarrow> 'cb \<Rightarrow> coroutine_pool \<times> 'cb thread \<Rightarrow> (nat \<times> coroutine_pool \<times> 'cb thread) res" where
  "connection_begins co start cb st =
     bindE (getCoroutineInstanse co start st) (\<lambda>(c, p, th). Inr (c, p, snd (setCallBack_cor c cb th)))"

text \<open>The reactor resumes it for the first time, and then once for everything it waits for.\<close>

fun connection_waits :: "nat \<Rightarrow> nat \<Rightarrow> 'cb thread \<Rightarrow> 'cb thread res" where
  "connection_waits c 0 th = Inr th"
| "connection_waits c (Suc n) th = bindE (Yield th) (\<lambda>th. bindE (Resume_cor (Some c) th) (connection_waits c n))"

text \<open>What \<open>input\<close> does when the peer has closed: the coroutine is not to be resumed any more, and yields.\<close>

definition connection_parks :: "'cb thread \<Rightarrow> 'cb thread res" where
  "connection_parks th = (case GetCurrentCoroutine th of (c, th) \<Rightarrow> Yield (setCanResume c False th))"

text \<open>
  The destructor gives the coroutine back. What the pool does not hold itself was the connection's
  alone, and is destroyed with it.
\<close>

definition delete_TcpConnection :: "nat \<Rightarrow> coroutine_pool \<times> 'cb thread \<Rightarrow> (coroutine_pool \<times> 'cb thread) res" where
  "delete_TcpConnection c st =
     bindE (returnCoroutine c st) (\<lambda>(p, th).
     Inr (p, if c \<in> fst ` set (m_free_cors p) then th else delete_Coroutine th))"

text \<open>The server gives its accept coroutine back, too.\<close>

definition delete_TcpServer :: "nat \<Rightarrow> coroutine_pool \<times> 'cb thread \<Rightarrow> (coroutine_pool \<times> 'cb thread) res" where
  "delete_TcpServer accept_cor st = returnCoroutine accept_cor st"

text \<open>One connection: it waits \<open>n\<close> times before its peer closes.\<close>

definition connection_thread :: "nat \<Rightarrow> nat \<Rightarrow> 'cb thread \<Rightarrow> 'cb thread res" where
  "connection_thread c n th =
     bindE (Resume_cor (Some c) th) (\<lambda>th.
     bindE (CoFunction_enter c th) (\<lambda>(cb, th).
     bindE (connection_waits c n th) connection_parks))"

definition connection_life ::
  "nat \<Rightarrow> int \<Rightarrow> 'cb \<Rightarrow> nat \<Rightarrow> coroutine_pool \<times> 'cb thread \<Rightarrow> (coroutine_pool \<times> 'cb thread) res" where
  "connection_life co start cb n st =
     bindE (connection_begins co start cb st) (\<lambda>(c, p, th).
     bindE (connection_thread c n th) (\<lambda>th. delete_TcpConnection c (p, th)))"

fun connection_lives ::
  "(nat \<times> int \<times> 'cb \<times> nat) list \<Rightarrow> coroutine_pool \<times> 'cb thread \<Rightarrow> (coroutine_pool \<times> 'cb thread) res" where
  "connection_lives [] st = Inr st"
| "connection_lives ((co, start, cb, n) # ls) st =
     bindE (connection_life co start cb n st) (connection_lives ls)"

section \<open>The thread\<close>

text \<open>The main coroutine runs; \<open>c\<close> runs and the main one waits for it.\<close>

definition main_runs :: "nat \<Rightarrow> 'cb thread \<Rightarrow> bool" where
  "main_runs main th \<longleftrightarrow> t_main_coroutine th = Some main \<and> t_cur_coroutine th = Some main \<and> m_cpu th = main"

definition cor_runs :: "nat \<Rightarrow> nat \<Rightarrow> 'cb thread \<Rightarrow> bool" where
  "cor_runs main c th \<longleftrightarrow> t_main_coroutine th = Some main \<and> t_cur_coroutine th = Some c \<and> m_cpu th = c \<and> c \<noteq> main \<and>
     m_coctx (coroutines th main) = Suspended \<and> m_can_resume (coroutines th c)"

text \<open>What the life of a connection leaves as it was: the index and the stack of every coroutine, and their number.\<close>

definition same_cors :: "'cb thread \<Rightarrow> 'cb thread \<Rightarrow> bool" where
  "same_cors th th' \<longleftrightarrow> t_coroutine_count th' = t_coroutine_count th \<and>
     (\<forall>x. m_index (coroutines th' x) = m_index (coroutines th x) \<and> m_stack_sp (coroutines th' x) = m_stack_sp (coroutines th x))"

definition in_cofunc :: "'cb thread \<Rightarrow> nat set" where
  "in_cofunc th = {x. m_is_in_cofunc (coroutines th x)}"

lemmas thread_defs = Yield_def Yield_with_def Resume_cor_def coctx_swap_def CoFunction_enter_def setIsInCoFunc_def
  setCanResume_def setCallBack_cor_def GetCurrentCoroutine_def same_cors_def in_cofunc_def set_coroutine_def Let_def

lemma same_cors_refl: "same_cors th th"
  by (simp add: same_cors_def)

lemma same_cors_trans: "same_cors th1 th2 \<Longrightarrow> same_cors th2 th3 \<Longrightarrow> same_cors th1 th3"
  by (simp add: same_cors_def)

lemma waits_step:
  assumes "cor_runs main c th"
  shows "returns (bindE (Yield th) (Resume_cor (Some c)))
    (\<lambda>th'. cor_runs main c th' \<and> same_cors th th' \<and> in_cofunc th' = in_cofunc th)"
  using assms by (auto simp: cor_runs_def thread_defs)

lemma connection_waits_runs:
  assumes "cor_runs main c th"
  shows "returns (connection_waits c n th)
    (\<lambda>th'. cor_runs main c th' \<and> same_cors th th' \<and> in_cofunc th' = in_cofunc th)"
  using assms
proof (induction n arbitrary: th)
  case 0
  then show ?case by (simp add: same_cors_refl)
next
  case (Suc n)
  from waits_step [OF Suc.prems] obtain th1 th2 where
    s: "Yield th = Inr th1" "Resume_cor (Some c) th1 = Inr th2" "cor_runs main c th2" "same_cors th th2"
    "in_cofunc th2 = in_cofunc th"
    by (auto simp: returns_iff bindE_eq_Inr)
  from Suc.IH [OF s(3)] s show ?case by (auto intro: same_cors_trans elim!: returns_mono)
qed

lemma connection_thread_parks:
  assumes "main_runs main th" and "c \<noteq> main" and "c \<notin> in_cofunc th"
  shows "returns (connection_thread c n (snd (setCallBack_cor c cb th)))
    (\<lambda>th'. main_runs main th' \<and> same_cors th th' \<and> in_cofunc th' = insert c (in_cofunc th))"
proof -
  let ?th = "snd (setCallBack_cor c cb th)"
  have "returns (bindE (Resume_cor (Some c) ?th) (CoFunction_enter c))
      (\<lambda>(_, th'). cor_runs main c th' \<and> same_cors th th' \<and> in_cofunc th' = insert c (in_cofunc th))"
    using assms by (auto simp: main_runs_def cor_runs_def thread_defs)
  then obtain th1 th2 x where e: "Resume_cor (Some c) ?th = Inr th1" "CoFunction_enter c th1 = Inr (x, th2)"
    "cor_runs main c th2" "same_cors th th2" "in_cofunc th2 = insert c (in_cofunc th)"
    by (auto simp: returns_iff bindE_eq_Inr)
  from connection_waits_runs [OF e(3), of n] obtain th3 where w: "connection_waits c n th2 = Inr th3"
    "cor_runs main c th3" "same_cors th2 th3" "in_cofunc th3 = in_cofunc th2" by (auto simp: returns_iff)
  have "returns (connection_parks th3) (\<lambda>th'. main_runs main th' \<and> same_cors th3 th' \<and> in_cofunc th' = in_cofunc th3)"
    using w(2) by (auto simp: connection_parks_def main_runs_def cor_runs_def thread_defs)
  with e w show ?thesis
    by (auto simp: connection_thread_def intro: same_cors_trans elim!: returns_mono)
qed

section \<open>The pool\<close>

text \<open>A memory from which nothing is taken gives a block and takes it back.\<close>

definition spare :: "memory \<Rightarrow> bool" where
  "spare m \<longleftrightarrow> memory_wf m \<and> taken m = {} \<and> m_blocks m \<noteq> [] \<and> 0 < m_start m"

lemma spare_block:
  assumes "spare m"
  obtains a m2 m3 where "getBlock m = (Some a, m2)" "0 < a" "hasBlock a m2" "backBlock a m2 = Inr m3" "spare m3"
proof -
  have wf: "memory_wf m" "taken m = {}" "m_blocks m \<noteq> []" "0 < m_start m" using assms by (simp_all add: spare_def)
  have "\<not> m_blocks m ! 0" using wf(2,3) by (auto simp: taken_def)
  with wf(3) have f: "first_free (m_blocks m) = Some 0" by (cases "m_blocks m") auto
  define m2 where "m2 = m\<lparr>m_blocks := (m_blocks m)[0 := True], m_ref_counts := m_ref_counts m + 1\<rparr>"
  have g: "getBlock m = (Some (m_start m), m2)" by (simp add: getBlock_def f m2_def)
  have m2: "m_start m2 = m_start m" "length (m_blocks m2) = length (m_blocks m)" by (simp_all add: m2_def)
  from mem.alloc_Some [OF wf(1) g] wf(2) have t: "memory_wf m2" "taken m2 = {m_start m}" by simp_all
  from mem.release [OF t(1), of "m_start m"] t(2) obtain m3 where
    r: "backBlock (m_start m) m2 = Inr m3" "memory_wf m3" "taken m3 = {}" by (auto simp: returns_iff)
  have b: "m_start m \<le> m_end m2" using block_in_range(2) [OF t(1), of 0] wf(3) t(1) m2
    by (simp add: block_addr_def memory_wf_def)
  then have "m_start m3 = m_start m" "m_blocks m3 \<noteq> []" using r(1) m2 wf(3)
    by (auto simp: backBlock_def Let_def split: if_splits)
  with r wf(4) have "spare m3" by (simp add: spare_def)
  moreover have "hasBlock (m_start m) m2" using b m2 by (simp add: hasBlock_def)
  ultimately show ?thesis using that [OF g] wf(4) r(1) by blast
qed

text \<open>Nobody holds a coroutine of the pool, and the main coroutine, which is not one of them, runs.\<close>

definition cors :: "coroutine_pool \<Rightarrow> nat set" where
  "cors p = fst ` set (m_free_cors p)"

definition pool_idle :: "nat \<Rightarrow> coroutine_pool \<times> 'cb thread \<Rightarrow> bool" where
  "pool_idle main st \<longleftrightarrow> pool_wf st \<and> (case st of (p, th) \<Rightarrow> handed_out p = {} \<and> main_runs main th \<and> main \<notin> cors p)"

lemma pool_wf_same:
  "pool_wf (p, th) \<Longrightarrow> (\<And>x. x \<in> cors p \<Longrightarrow> m_index (coroutines th' x) = m_index (coroutines th x)) \<Longrightarrow> pool_wf (p, th')"
  by (auto simp: pool_wf_def cors_def)

lemma cors_same: "same_pool p p' \<Longrightarrow> cors p' = cors p"
  by (metis cors_def list.set_map same_pool_def)

text \<open>While a coroutine of the pool is free, the connection uses one of them up.\<close>

lemma connection_life_own:
  assumes "pool_idle main (p, th)" and "\<not> cors p \<subseteq> in_cofunc th"
  shows "returns (connection_life co start cb n (p, th)) (\<lambda>(p', th'). pool_idle main (p', th') \<and> same_pool p p' \<and>
    m_memory_pool p' = m_memory_pool p \<and> t_coroutine_count th' = t_coroutine_count th \<and>
    (\<exists>c \<in> cors p - in_cofunc th. in_cofunc th' = insert c (in_cofunc th)))"
proof -
  have wf: "pool_wf (p, th)" "handed_out p = {}" "main_runs main th" "main \<notin> cors p"
    using assms(1) by (simp_all add: pool_idle_def)
  from assms(2) obtain x where x: "x \<in> cors p" "\<not> m_is_in_cofunc (coroutines th x)" by (auto simp: in_cofunc_def)
  with wf(2) have "(x, False) \<in> set (m_free_cors p)"
    by (auto simp: cors_def handed_out_def) (metis (full_types))
  from getCoroutineInstanse_own [OF wf(1) this x(2), of co start] obtain c p1 where
    g: "getCoroutineInstanse co start (p, th) = Inr (c, p1, th)" "pool_wf (p1, th)" "handed_out p1 = {c}"
    "\<not> m_is_in_cofunc (coroutines th c)" "m_memory_pool p1 = m_memory_pool p" "same_pool p p1"
    using wf(2) by auto
  from g(3) have c1: "c \<in> fst ` set (m_free_cors p1)" by (force simp: handed_out_def)
  have c: "c \<in> cors p" "c \<noteq> main" "c \<notin> in_cofunc th"
    using c1 cors_same [OF g(6)] wf(4) g(4) by (auto simp: cors_def in_cofunc_def)
  from connection_thread_parks [OF wf(3) c(2,3), of n cb] obtain th1 where
    t: "connection_thread c n (snd (setCallBack_cor c cb th)) = Inr th1" "main_runs main th1" "same_cors th th1"
    "in_cofunc th1 = insert c (in_cofunc th)" by (auto simp: returns_iff)
  have "pool_wf (p1, th1)" using g(2) t(3) by (intro pool_wf_same [OF g(2)]) (simp add: same_cors_def)
  from returnCoroutine_own [OF this c1] obtain p2 where
    r: "returnCoroutine c (p1, th1) = Inr (p2, th1)" "pool_wf (p2, th1)" "handed_out p2 = {}"
    "m_memory_pool p2 = m_memory_pool p" "same_pool p1 p2" using g(3,5) by auto
  have s: "same_pool p p2" using g(6) r(5) by (simp add: same_pool_def)
  then have "c \<in> fst ` set (m_free_cors p2)" using c(1) cors_same [OF s] by (simp add: cors_def)
  moreover have "pool_idle main (p2, th1)" using r(2,3) t(2) wf(4) cors_same [OF s] by (simp add: pool_idle_def)
  ultimately show ?thesis using g(1) t(1,3,4) r(1,4) c s
    by (auto simp: connection_life_def connection_begins_def delete_TcpConnection_def same_cors_def)
qed

text \<open>
  When none is free, it gets a coroutine of its own, on a block of further memory, which is taken when
  there is none yet; both go with the connection.
\<close>

definition further_ok :: "coroutine_pool \<Rightarrow> bool" where
  "further_ok p \<longleftrightarrow> tl (m_memory_pool p) = [] \<or> (\<exists>m. tl (m_memory_pool p) = [m] \<and> spare m)"

definition sizes_ok :: "coroutine_pool \<Rightarrow> bool" where
  "sizes_ok p \<longleftrightarrow> 0 < m_pool_stack_size p \<and> 0 < m_pool_size p \<and> m_pool_size p * m_pool_stack_size p \<le> INT_MAX"

lemma find_free_none:
  assumes "cors p \<subseteq> in_cofunc th"
  shows "find_free th (take n (m_free_cors p)) = None"
  using assms set_take_subset [of n "m_free_cors p"] by (fastforce simp: find_free_None cors_def in_cofunc_def)

lemma getCoroutineInstanse_further:
  assumes "cors p \<subseteq> in_cofunc th" and "further_ok p" and "sizes_ok p" and "0 < start" and "m_memory_pool p \<noteq> []"
  obtains m a m2 where "spare m" "getBlock m = (Some a, m2)"
    "getCoroutineInstanse co start (p, th) = bindE (new_Coroutine co (m_pool_stack_size p) a th) (\<lambda>th.
       Inr (co, p\<lparr>m_memory_pool := hd (m_memory_pool p) # [m2]\<rparr>, th))"
proof (cases "tl (m_memory_pool p) = []")
  case False
  with assms(2) obtain m where m: "tl (m_memory_pool p) = [m]" "spare m" by (auto simp: further_ok_def)
  from spare_block [OF m(2)] obtain a m2 where g: "getBlock m = (Some a, m2)" by metis
  have "getCoroutineInstanse co start (p, th) = bindE (new_Coroutine co (m_pool_stack_size p) a th) (\<lambda>th.
       Inr (co, p\<lparr>m_memory_pool := hd (m_memory_pool p) # [m2]\<rparr>, th))"
    using find_free_none [OF assms(1)] by (simp add: getCoroutineInstanse_def m g)
  with that m g show thesis by blast
next
  case True
  from assms(3) have sz: "0 < m_pool_stack_size p" "0 < m_pool_size p" "m_pool_size p * m_pool_stack_size p \<le> INT_MAX"
    by (simp_all add: sizes_ok_def)
  with new_Memory_wf [of "m_pool_stack_size p" "m_pool_size p" start] obtain m where
    m: "new_Memory start (m_pool_stack_size p) (m_pool_size p) = Inr m" "memory_wf m" "taken m = {}"
    "length (m_blocks m) = nat (m_pool_size p)" by (auto simp: returns_iff)
  then have "m_start m = start" "m_blocks m \<noteq> []" using sz by (auto simp: new_Memory_def bindE_eq_Inr)
  with m assms(4) have s: "spare m" by (simp add: spare_def)
  from spare_block [OF s] obtain a m2 where g: "getBlock m = (Some a, m2)" by metis
  have e: "m_memory_pool p @ [m2] = hd (m_memory_pool p) # [m2]"
    using assms(5) True by (cases "m_memory_pool p") simp_all
  have "getCoroutineInstanse co start (p, th) = bindE (new_Coroutine co (m_pool_stack_size p) a th) (\<lambda>th.
       Inr (co, p\<lparr>m_memory_pool := hd (m_memory_pool p) # [m2]\<rparr>, th))"
    using find_free_none [OF assms(1)] by (simp add: getCoroutineInstanse_def True m(1) g e)
  with that s g show thesis by blast
qed

lemma new_Coroutine_here:
  assumes "main_runs main th" and "co \<noteq> main" and "0 < a"
  shows "returns (new_Coroutine co sz a th) (\<lambda>th'. main_runs main th' \<and> in_cofunc th' = in_cofunc th - {co} \<and>
    m_index (coroutines th' co) = -1 \<and> m_stack_sp (coroutines th' co) = a \<and>
    t_coroutine_count th' = t_coroutine_count th + 1 \<and>
    (\<forall>x. x \<noteq> co \<longrightarrow> m_index (coroutines th' x) = m_index (coroutines th x)))"
  using assms by (auto simp: new_Coroutine_def main_runs_def ensure_main_def thread_defs blank_coroutine_def)

lemma connection_life_further:
  assumes "pool_idle main (p, th)" and "cors p \<subseteq> in_cofunc th" and "further_ok p" and "sizes_ok p" and "0 < start"
    and "co \<notin> insert main (cors p)"
  shows "returns (connection_life co start cb n (p, th)) (\<lambda>(p', th'). pool_idle main (p', th') \<and> same_pool p p' \<and>
    further_ok p' \<and> length (m_memory_pool p') = 2 \<and> t_coroutine_count th' = t_coroutine_count th \<and>
    cors p \<subseteq> in_cofunc th')"
proof -
  have wf: "pool_wf (p, th)" "handed_out p = {}" "main_runs main th" "main \<notin> cors p" "m_memory_pool p \<noteq> []"
    using assms(1) by (simp_all add: pool_idle_def pool_wf_def)
  from getCoroutineInstanse_further [OF assms(2-5) wf(5)] obtain m a m2 where
    m: "spare m" "getBlock m = (Some a, m2)"
    "getCoroutineInstanse co start (p, th) = bindE (new_Coroutine co (m_pool_stack_size p) a th) (\<lambda>th.
       Inr (co, p\<lparr>m_memory_pool := hd (m_memory_pool p) # [m2]\<rparr>, th))" by metis
  from spare_block [OF m(1)] m(2) obtain m3 where
    b: "0 < a" "hasBlock a m2" "backBlock a m2 = Inr m3" "spare m3" by (metis Pair_inject option.inject)
  from new_Coroutine_here [OF wf(3) _ b(1), of co "m_pool_stack_size p"] assms(6) obtain th1 where
    c: "new_Coroutine co (m_pool_stack_size p) a th = Inr th1" "main_runs main th1" "in_cofunc th1 = in_cofunc th - {co}"
    "m_index (coroutines th1 co) = -1" "m_stack_sp (coroutines th1 co) = a"
    "t_coroutine_count th1 = t_coroutine_count th + 1"
    "\<And>x. x \<noteq> co \<Longrightarrow> m_index (coroutines th1 x) = m_index (coroutines th x)" by (auto simp: returns_iff)
  from connection_thread_parks [OF c(2), of co n cb] assms(6) c(3) obtain th2 where
    t: "connection_thread co n (snd (setCallBack_cor co cb th1)) = Inr th2" "main_runs main th2" "same_cors th1 th2"
    "in_cofunc th2 = insert co (in_cofunc th1)" by (auto simp: returns_iff)
  let ?p = "p\<lparr>m_memory_pool := hd (m_memory_pool p) # [m3]\<rparr>"
  have "m_index (coroutines th2 x) = m_index (coroutines th x)" if "x \<in> cors p" for x
    using c(7) [of x] t(3) assms(6) that by (cases "x = co") (simp_all add: same_cors_def)
  from pool_wf_same [OF wf(1) this] have "pool_wf (?p, th2)" by (simp add: pool_wf_def)
  moreover have "cors ?p = cors p" "handed_out ?p = {}" using wf(2) by (simp_all add: cors_def handed_out_def)
  ultimately have "pool_idle main (?p, delete_Coroutine th2)"
    using wf(4) t(2) by (simp add: pool_idle_def pool_wf_def main_runs_def delete_Coroutine_def)
  moreover have "connection_life co start cb n (p, th) = Inr (?p, delete_Coroutine th2)"
    using m(3) c(1,4,5) t(1,3) b(2,3) assms(6)
    by (simp add: connection_life_def connection_begins_def delete_TcpConnection_def returnCoroutine_def
        same_cors_def cors_def Let_def)
  moreover have "t_coroutine_count (delete_Coroutine th2) = t_coroutine_count th"
    "cors p \<subseteq> in_cofunc (delete_Coroutine th2)"
    using c(3,6) t(3,4) assms(2) by (auto simp: delete_Coroutine_def same_cors_def in_cofunc_def)
  ultimately show ?thesis using b(4) by (simp add: same_pool_def further_ok_def)
qed

section \<open>Properties\<close>

definition lost :: "coroutine_pool \<Rightarrow> 'cb thread \<Rightarrow> nat" where
  "lost p th = card (cors p \<inter> in_cofunc th)"

lemma lost_le: "lost p th \<le> card (cors p)"
  by (auto simp: lost_def cors_def intro!: card_mono)

lemma lost_all: "lost p th = card (cors p) \<longleftrightarrow> cors p \<subseteq> in_cofunc th"
proof -
  have "finite (cors p)" by (simp add: cors_def)
  then have "card (cors p \<inter> in_cofunc th) = card (cors p) \<longleftrightarrow> cors p \<inter> in_cofunc th = cors p"
    by (metis card_subset_eq inf_le1)
  then show ?thesis by (auto simp: lost_def)
qed

lemma lost_insert:
  assumes "c \<in> cors p - in_cofunc th" and "in_cofunc th' = insert c (in_cofunc th)" and "cors p' = cors p"
  shows "lost p' th' = Suc (lost p th)"
proof -
  have "finite (cors p)" by (simp add: cors_def)
  moreover have "cors p \<inter> in_cofunc th' = insert c (cors p \<inter> in_cofunc th)" using assms(1,2) by auto
  ultimately show ?thesis using assms(1,3) by (simp add: lost_def)
qed

definition starts_ok :: "nat \<Rightarrow> coroutine_pool \<Rightarrow> (nat \<times> int \<times> 'cb \<times> nat) list \<Rightarrow> bool" where
  "starts_ok main p ls \<longleftrightarrow> (\<forall>(co, start, cb, n) \<in> set ls. co \<notin> insert main (cors p) \<and> 0 < start)"

lemma connection_lives_lose:
  assumes "pool_idle main (p, th)" and "further_ok p" and "sizes_ok p" and "starts_ok main p ls"
    and "cors p \<subseteq> in_cofunc th \<or> length (m_memory_pool p) = 1"
  shows "returns (connection_lives ls (p, th)) (\<lambda>(p', th'). pool_idle main (p', th') \<and> same_pool p p' \<and>
    t_coroutine_count th' = t_coroutine_count th \<and> lost p' th' = min (card (cors p)) (lost p th + length ls) \<and>
    length (m_memory_pool p') = (if card (cors p) < lost p th + length ls then 2 else length (m_memory_pool p)))"
  using assms
proof (induction ls arbitrary: p th)
  case Nil
  then show ?case using lost_le [of p th] by (simp add: same_pool_def)
next
  case (Cons l ls)
  obtain co start cb n where l: "l = (co, start, cb, n)" by (cases l)
  with Cons.prems(4) have o: "co \<notin> insert main (cors p)" "0 < start" "starts_ok main p ls" by (auto simp: starts_ok_def)
  have next_p: "sizes_ok p1" "starts_ok main p1 ls" "cors p1 = cors p" if "same_pool p p1" for p1
    using that Cons.prems(3) o(3) cors_same [OF that] by (simp_all add: same_pool_def sizes_ok_def starts_ok_def)
  show ?case
  proof (cases "cors p \<subseteq> in_cofunc th")
    case True
    from connection_life_further [OF Cons.prems(1) True Cons.prems(2,3) o(2,1)] obtain p1 th1 where
      r: "connection_life co start cb n (p, th) = Inr (p1, th1)" "pool_idle main (p1, th1)" "same_pool p p1" "further_ok p1"
      "length (m_memory_pool p1) = 2" "t_coroutine_count th1 = t_coroutine_count th" "cors p \<subseteq> in_cofunc th1"
      by (force simp: returns_iff)
    note n = next_p [OF r(3)]
    have "lost p th = card (cors p)" "lost p1 th1 = card (cors p)"
      using lost_all [of p th] lost_all [of p1 th1] True r(7) n(3) by simp_all
    with Cons.IH [OF r(2,4) n(1,2)] r n(3) show ?thesis
      by (auto simp: l same_pool_def elim!: returns_mono)
  next
    case False
    from connection_life_own [OF Cons.prems(1) False] obtain p1 th1 c where
      r: "connection_life co start cb n (p, th) = Inr (p1, th1)" "pool_idle main (p1, th1)" "same_pool p p1"
      "m_memory_pool p1 = m_memory_pool p" "t_coroutine_count th1 = t_coroutine_count th"
      "c \<in> cors p - in_cofunc th" "in_cofunc th1 = insert c (in_cofunc th)"
      by (force simp: returns_iff)
    note n = next_p [OF r(3)]
    have f: "further_ok p1" using Cons.prems(2) by (simp add: further_ok_def r(4))
    have "lost p th < card (cors p)" using lost_all [of p th] lost_le [of p th] False by simp
    with Cons.IH [OF r(2) f n(1,2)] r Cons.prems(5) False n(3) lost_insert [OF r(6,7) n(3)] show ?thesis
      by (auto simp: l same_pool_def elim!: returns_mono)
  qed
qed

text \<open>
  C34: Every connection that its peer closes costs the pool one of its coroutines for ever, although the
  connection gives it back: after as many connections as the pool has coroutines none can be handed out
  again, and each connection from then on is served on one further memory, from which it takes a
  block and to which it returns it. However often a connection waits in between, the thread is
  back in its main coroutine, and no coroutine object is left over.
\<close>

theorem closed_connections_use_up_pool:
  assumes "pool_idle main (p, th)" and "m_memory_pool p = [m0]" and "sizes_ok p" and "starts_ok main p ls"
    and "cors p \<inter> in_cofunc th = {}"
  shows "returns (connection_lives ls (p, th)) (\<lambda>(p', th').
    handed_out p' = {} \<and> m_cpu th' = main \<and> t_coroutine_count th' = t_coroutine_count th \<and>
    lost p' th' = min (nat (m_pool_size p)) (length ls) \<and>
    length (m_memory_pool p') = (if nat (m_pool_size p) < length ls then 2 else 1))"
proof -
  have "card (cors p) = nat (m_pool_size p)"
    using assms(1) distinct_card [of "map fst (m_free_cors p)"] by (simp add: pool_idle_def pool_wf_def cors_def)
  moreover have "lost p th = 0" using assms(5) by (simp add: lost_def)
  ultimately show ?thesis
    using connection_lives_lose [OF assms(1) _ assms(3,4)] assms(2)
    by (auto simp: further_ok_def pool_idle_def main_runs_def elim!: returns_mono)
qed

lemma closed_connections_use_up_pool_witness:
  "returns (connection_lives [(9, 8192, ''a'', 2), (9, 8192, ''b'', 0), (9, 8192, ''c'', 1)]
      (fst example_pool, snd (GetCurrentCoroutine (snd example_pool)))) (\<lambda>(p', th').
    lost p' th' = 2 \<and> length (m_memory_pool p') = 2 \<and> m_cpu th' = 0)"
proof -
  let ?p = "fst example_pool" and ?th = "snd (GetCurrentCoroutine (snd example_pool))"
  have "pool_idle 0 (?p, ?th)"
    by (simp add: pool_idle_def pool_wf_def main_runs_def cors_def handed_out_def example_pool_def setIndex_def new_thread_def
        GetCurrentCoroutine_def new_main_coroutine_def blank_coroutine_def Let_def All_less_Suc numeral_2_eq_2 fun_eq_iff)
  moreover have "m_memory_pool ?p = [hd (m_memory_pool ?p)]" "sizes_ok ?p" "nat (m_pool_size ?p) = 2"
    by (simp_all add: example_pool_def sizes_ok_def INT_MAX_def)
  moreover have "starts_ok 0 ?p [(9, 8192, ''a'', 2), (9, 8192, ''b'', 0), (9, 8192, ''c'', 1)]"
    by (simp add: starts_ok_def cors_def example_pool_def)
  moreover have "cors ?p \<inter> in_cofunc ?th = {}"
    by (simp add: in_cofunc_def cors_def example_pool_def setIndex_def new_thread_def
        GetCurrentCoroutine_def new_main_coroutine_def blank_coroutine_def Let_def)
  ultimately show ?thesis
    using closed_connections_use_up_pool [of 0 ?p ?th "hd (m_memory_pool ?p)" "[(9, 8192, ''a'', 2), (9, 8192, ''b'', 0), (9, 8192, ''c'', 1)]"]
    by (auto elim!: returns_mono)
qed

end
