(* ===== verification/Reactor_Ownership.thy ===== *)
theory Reactor_Ownership
  imports Reactor Timer
begin

text \<open>
  Which reactor a thread calls its own, and the timer of a reactor: constructor, destructor, \<open>GetReactor\<close>,
  \<open>isLoopThread\<close> and \<open>getTimer\<close> of \<open>net/base/reactor.cc\<close>, constructor and destructor of \<open>Timer\<close> in
  \<open>net/base/timer.cc\<close>, and the destructor of \<open>IOThread\<close> in \<open>net/tcp/io_thread.cc\<close> as far as it deletes a
  reactor. Threads and reactors are numbers; the rest of a reactor is that of theory Reactor.
\<close>

section \<open>The code\<close>

record 'cb reactor_object =
  loop_of :: "'cb reactor"
  m_tid :: nat
  m_timer :: "('cb fd_event \<times> timer) option"

record 'cb reactors =
  t_reactor_ptr :: "nat \<Rightarrow> nat option"
  objects :: "nat \<Rightarrow> 'cb reactor_object option"

text \<open>
  The constructor on thread \<open>tid\<close>, at address \<open>self\<close>: \<open>epfd\<close> and \<open>wake_fd\<close> are what \<open>epoll_create\<close> and \<open>eventfd\<close>
  return, \<open>opn\<close> the descriptors that are open after that.
\<close>

definition Reactor_ctor ::
  "nat \<Rightarrow> nat \<Rightarrow> (int \<Rightarrow> bool) \<Rightarrow> int \<Rightarrow> int \<Rightarrow> 'cb reactors \<Rightarrow> 'cb reactors res" where
  "Reactor_ctor tid self opn epfd wake_fd s =
     (if t_reactor_ptr s tid \<noteq> None then Inl Process_Exit
      else if epfd \<le> 0 then Inl Process_Exit
      else if wake_fd \<le> 0 then Inl Process_Exit
      else Inr (s\<lparr>t_reactor_ptr := (t_reactor_ptr s)(tid \<mapsto> self),
                  objects := (objects s)(self \<mapsto> \<lparr>loop_of = new_Reactor opn wake_fd, m_tid = tid, m_timer = None\<rparr>)\<rparr>))"

definition GetReactor ::
  "nat \<Rightarrow> nat \<Rightarrow> (int \<Rightarrow> bool) \<Rightarrow> int \<Rightarrow> int \<Rightarrow> 'cb reactors \<Rightarrow> (nat \<times> 'cb reactors) res" where
  "GetReactor tid self opn epfd wake_fd s =
     (case t_reactor_ptr s tid of
        Some r \<Rightarrow> Inr (r, s)
      | None \<Rightarrow> bindE (Reactor_ctor tid self opn epfd wake_fd s) (\<lambda>s. Inr (self, s)))"

definition isLoopThread :: "nat \<Rightarrow> 'cb reactor_object \<Rightarrow> bool" where
  "isLoopThread tid r \<longleftrightarrow> m_tid r = tid"

text \<open>
  The timer's constructor, on thread \<open>tid\<close>: \<open>fd\<close> is what \<open>timerfd_create\<close> returns, \<open>p\<close> the address of the timer,
  \<open>on_timer\<close> its method \<open>onTimer\<close>.
\<close>

definition new_Timer ::
  "nat \<Rightarrow> nat \<Rightarrow> nat \<Rightarrow> int \<Rightarrow> 'cb \<Rightarrow> 'cb reactor_object \<Rightarrow> ('cb fd_event \<times> timer) \<times> 'cb reactor_object" where
  "new_Timer tid self p fd on_timer r =
     (let e = (new_FdEvent fd)\<lparr>m_reactor := Some self, m_read_callback := Some on_timer\<rparr> in
      case addListenEvents self (isLoopThread tid r) p READ (e, loop_of r) of (e, l) \<Rightarrow>
      ((e, \<lparr>m_pending_events = [], m_expiry = None\<rparr>), r\<lparr>loop_of := l\<rparr>))"

definition getTimer ::
  "nat \<Rightarrow> nat \<Rightarrow> nat \<Rightarrow> int \<Rightarrow> 'cb \<Rightarrow> 'cb reactor_object \<Rightarrow> ('cb fd_event \<times> timer) \<times> 'cb reactor_object" where
  "getTimer tid self p fd on_timer r =
     (case m_timer r of
        Some t \<Rightarrow> (t, r)
      | None \<Rightarrow>
          (case new_Timer tid self p fd on_timer r of (t, r) \<Rightarrow>
           (t, r\<lparr>m_timer := Some t, loop_of := (loop_of r)\<lparr>m_timer_fd := m_fd (fst t)\<rparr>\<rparr>)))"

text \<open>\<open>close\<close>: the kernel forgets a descriptor that is closed.\<close>

definition close_in :: "int \<Rightarrow> 'cb reactor \<Rightarrow> 'cb reactor" where
  "close_in fd l = l\<lparr>m_open := (m_open l)(fd := False), m_epoll := (m_epoll l)(fd := None)\<rparr>"

definition delete_Timer :: "nat \<Rightarrow> nat \<Rightarrow> 'cb fd_event \<times> timer \<Rightarrow> 'cb reactor_object \<Rightarrow> 'cb reactor_object" where
  "delete_Timer tid self t r =
     (case unregisterFromReactor self (isLoopThread tid r) (fst t, loop_of r) of (e, l) \<Rightarrow>
      r\<lparr>loop_of := close_in (m_fd e) l\<rparr>)"

text \<open>
  The destructor, on the thread that deletes: the interest set goes with \<open>m_epfd\<close>. The first result
  is the reactor just before its memory is freed.
\<close>

definition delete_Reactor :: "nat \<Rightarrow> nat \<Rightarrow> 'cb reactors \<Rightarrow> ('cb reactor_object \<times> 'cb reactors) res" where
  "delete_Reactor tid self s =
     (case objects s self of
        None \<Rightarrow> Inl Indeterminate_Value
      | Some r \<Rightarrow>
          let r = r\<lparr>loop_of := (loop_of r)\<lparr>m_epoll := (\<lambda>_. None)\<rparr>\<rparr>;
              r = (case m_timer r of None \<Rightarrow> r | Some t \<Rightarrow> (delete_Timer tid self t r)\<lparr>m_timer := None\<rparr>)
          in Inr (r, s\<lparr>objects := (objects s)(self := None), t_reactor_ptr := (t_reactor_ptr s)(tid := None)\<rparr>))"

section \<open>Properties\<close>

text \<open>A reactor is known to the thread that made it, and to no other.\<close>

definition owned :: "'cb reactors \<Rightarrow> bool" where
  "owned s \<longleftrightarrow> (\<forall>tid r. t_reactor_ptr s tid = Some r \<longrightarrow> (case objects s r of None \<Rightarrow> False | Some o1 \<Rightarrow> m_tid o1 = tid))"

lemma owned_objects:
  assumes "owned s" and "t_reactor_ptr s tid = Some r"
  obtains o1 where "objects s r = Some o1" "m_tid o1 = tid"
  using assms by (fastforce simp: owned_def split: option.splits)

lemma owned_GetReactor:
  assumes "owned s" and "objects s self = None" and "0 < epfd" and "0 < wake_fd"
  shows "returns (GetReactor tid self opn epfd wake_fd s) (\<lambda>(r, s'). owned s' \<and> t_reactor_ptr s' tid = Some r \<and>
    (case objects s' r of None \<Rightarrow> False | Some o1 \<Rightarrow> isLoopThread tid o1) \<and>
    GetReactor tid self' opn' epfd' wake_fd' s' = Inr (r, s'))"
proof (cases "t_reactor_ptr s tid")
  case (Some r)
  obtain o1 where "objects s r = Some o1" "m_tid o1 = tid" by (rule owned_objects [OF assms(1) Some])
  with Some assms(1) show ?thesis by (simp add: GetReactor_def isLoopThread_def)
next
  case None
  let ?s = "s\<lparr>t_reactor_ptr := (t_reactor_ptr s)(tid \<mapsto> self),
    objects := (objects s)(self \<mapsto> \<lparr>loop_of = new_Reactor opn wake_fd, m_tid = tid, m_timer = None\<rparr>)\<rparr>"
  have "owned ?s"
    unfolding owned_def
  proof (intro allI impI)
    fix t r assume r: "t_reactor_ptr ?s t = Some r"
    show "case objects ?s r of None \<Rightarrow> False | Some o1 \<Rightarrow> m_tid o1 = t"
    proof (cases "t = tid")
      case True
      with r show ?thesis by simp
    next
      case False
      with r have "t_reactor_ptr s t = Some r" by simp
      then obtain o1 where "objects s r = Some o1" "m_tid o1 = t" by (rule owned_objects [OF assms(1)])
      with assms(2) show ?thesis by (cases "r = self") simp_all
    qed
  qed
  with None assms(3,4) show ?thesis by (simp add: GetReactor_def Reactor_ctor_def isLoopThread_def)
qed

text \<open>
  A reactor makes its timer once: the descriptor of the timer is registered for reading with the
  reactor, under the number that the loop compares with, and with the timer's own method as the
  callback; the next call gives the same timer and changes nothing. Deleting it leaves no trace
  in the interest set.
\<close>

theorem reactor_timer_registered:
  assumes "m_timer r = None" and "isLoopThread tid r" and "reactor_wf (loop_of r)" and "m_open (loop_of r) fd" and "fd \<noteq> -1"
    and "m_epoll (loop_of r) fd = None"
  shows "case getTimer tid self p fd on_timer r of ((e, t), r') \<Rightarrow>
    m_timer_fd (loop_of r') = fd \<and> m_epoll (loop_of r') = (m_epoll (loop_of r))(fd \<mapsto> (io_flag READ, Data_Ptr p)) \<and>
    handleEvent (io_flag READ) e = Inr (Some on_timer) \<and> reactor_wf (loop_of r') \<and>
    getTimer tid2 self p2 fd2 on_timer2 r' = ((e, t), r') \<and>
    m_epoll (loop_of (delete_Timer tid self (e, t) r')) = m_epoll (loop_of r)"
proof -
  let ?l = "addEventInLoopThread fd (io_flag READ, Data_Ptr p) (loop_of r)"
  have wf: "reactor_wf ?l" "m_epoll ?l = (m_epoll (loop_of r))(fd \<mapsto> (io_flag READ, Data_Ptr p))"
    using reactor_wf_add [OF assms(3), of fd "(io_flag READ, Data_Ptr p)"] assms(4) by simp_all
  have t: "getTimer tid self p fd on_timer r =
      ((\<lparr>m_fd = fd, m_read_callback = Some on_timer, m_write_callback = None, m_listen_events = io_flag READ,
         m_reactor = Some self, m_coroutine = None\<rparr>, \<lparr>m_pending_events = [], m_expiry = None\<rparr>),
       r\<lparr>loop_of := ?l\<lparr>m_timer_fd := fd\<rparr>,
         m_timer := Some (\<lparr>m_fd = fd, m_read_callback = Some on_timer, m_write_callback = None,
           m_listen_events = io_flag READ, m_reactor = Some self, m_coroutine = None\<rparr>, \<lparr>m_pending_events = [], m_expiry = None\<rparr>)\<rparr>)"
    using assms(1,2,5) by (simp add: getTimer_def new_Timer_def new_FdEvent_def addListenEvents_def updateToReactor_def addEvent_def)
  have again: "getTimer tid2 self p2 fd2 on_timer2 r' = (x, r')" if "m_timer r' = Some x" for r' x
    using that by (simp add: getTimer_def)
  have "reactor_wf (?l\<lparr>m_timer_fd := fd\<rparr>)" using wf(1) by (simp add: reactor_wf_def)
  note d = reactor_wf_del [OF this, of fd]
  have "(m_epoll (loop_of r))(fd := None) = m_epoll (loop_of r)" using assms(6) by (simp add: fun_eq_iff)
  with wf d show ?thesis
    using assms(2,5)
    by (simp add: t again handleEvent_def delete_Timer_def unregisterFromReactor_def delEvent_def close_in_def
        isLoopThread_def reactor_wf_def)
qed

text \<open>
  A reactor that is deleted by another thread than its own, as the destructor of an IO thread does,
  takes away the reactor of the deleting thread: that thread's own reactor is still there, but the thread no
  longer knows it, and its next call of \<open>GetReactor\<close> makes a second one, which no loop serves.
\<close>

theorem delete_forgets_own_reactor:
  assumes "owned s" and "t_reactor_ptr s owner = Some main" and "t_reactor_ptr s io = Some sub" and "owner \<noteq> io"
    and "objects s self = None" and "self \<noteq> sub" and "0 < epfd" and "0 < wake_fd"
  shows "returns (delete_Reactor owner sub s) (\<lambda>(_, s').
    objects s' main = objects s main \<and> objects s' main \<noteq> None \<and> objects s' sub = None \<and>
    t_reactor_ptr s' owner = None \<and> t_reactor_ptr s' io = Some sub \<and>
    returns (GetReactor owner self opn epfd wake_fd s') (\<lambda>(r, _). r = self \<and> r \<noteq> main))"
proof -
  obtain o1 o2 where "objects s main = Some o1" "m_tid o1 = owner" "objects s sub = Some o2" "m_tid o2 = io"
    by (metis owned_objects assms(1-3))
  with assms(2-8) show ?thesis
    by (auto simp: delete_Reactor_def GetReactor_def Reactor_ctor_def Let_def split: option.splits)
qed

definition example_object :: "nat reactor_object" where
  "example_object = \<lparr>loop_of = new_Reactor (\<lambda>_. True) 5, m_tid = 1, m_timer = None\<rparr>"

lemma reactor_timer_registered_witness:
  "m_timer_fd (loop_of (snd (getTimer 1 0 40 6 (77 :: nat) example_object))) = 6 \<and>
   m_epoll (loop_of (snd (getTimer 1 0 40 6 77 example_object))) 6 = Some (io_flag READ, Data_Ptr 40)"
proof -
  have "m_timer example_object = None" "isLoopThread 1 example_object" "reactor_wf (loop_of example_object)"
    "m_open (loop_of example_object) 6" "(6 :: int) \<noteq> -1" "m_epoll (loop_of example_object) 6 = None"
    by (simp_all add: example_object_def isLoopThread_def new_Reactor_def addWakeupFd_def epoll_ctl_def reactor_wf_def map_wf_Nil)
  from reactor_timer_registered [OF this, where self = 0 and p = 40 and on_timer = 77] show ?thesis by (simp add: case_prod_unfold)
qed

end
