(* ===== verification/Logger_Thread.thy ===== *)
theory Logger_Thread
  imports Prelude
begin

text \<open>
  The thread of an asynchronous logger and those that push to it and stop it, step by step: the constructor,
  \<open>AsyncLogger::excute\<close>, \<open>push\<close> and \<open>stop\<close> in \<open>comm/log.cc\<close>, with the mutex, the condition variable and
  the semaphore. What a turn writes to which file is in theory Logging; here a batch is what is pushed.
\<close>

section \<open>The code\<close>

text \<open>
  Where the thread stands. It holds the mutex from \<open>Testing\<close>, where it looks at the queue and the flag, to
  \<open>Before_Wait\<close> or \<open>Taking\<close>; \<open>Waiting\<close> has released it, \<open>Awake\<close> has to take it again.
\<close>

datatype excute_pc =
    Cond_Init | Sem_Post | Locking | Testing | Before_Wait | Waiting | Awake | Taking
  | Writing "string list" bool | Ended_Thread | Faulted

record logger_thread =
  pc :: excute_pc
  m_tasks :: "string list list"
  m_stop :: bool
  cond_ready :: bool
  m_semaphore :: nat
  constructed :: bool
  signals :: nat
  written :: "string list list"

definition AsyncLogger_created :: logger_thread where
  "AsyncLogger_created =
     \<lparr>pc = Cond_Init, m_tasks = [], m_stop = False, cond_ready = False, m_semaphore = 0, constructed = False,
      signals = 0, written = []\<rparr>"

definition holds_mutex :: "logger_thread \<Rightarrow> bool" where
  "holds_mutex s \<longleftrightarrow> pc s \<in> {Testing, Before_Wait, Taking}"

text \<open>One step of the thread; \<open>None\<close> when it waits or has ended.\<close>

definition excute_step :: "logger_thread \<Rightarrow> logger_thread option" where
  "excute_step s =
     (case pc s of
        Cond_Init \<Rightarrow> Some (s\<lparr>pc := Sem_Post, cond_ready := True\<rparr>)
      | Sem_Post \<Rightarrow> Some (s\<lparr>pc := Locking, m_semaphore := m_semaphore s + 1\<rparr>)
      | Locking \<Rightarrow> Some (s\<lparr>pc := Testing\<rparr>)
      | Testing \<Rightarrow> Some (s\<lparr>pc := if m_tasks s = [] \<and> \<not> m_stop s then Before_Wait else Taking\<rparr>)
      | Before_Wait \<Rightarrow> Some (s\<lparr>pc := Waiting\<rparr>)
      | Waiting \<Rightarrow> None
      | Awake \<Rightarrow> Some (s\<lparr>pc := Testing\<rparr>)
      | Taking \<Rightarrow>
          (case m_tasks s of
             [] \<Rightarrow> Some (s\<lparr>pc := Faulted\<rparr>)
           | tmp # rest \<Rightarrow> Some (s\<lparr>pc := Writing tmp (m_stop s), m_tasks := rest\<rparr>))
      | Writing tmp is_stop \<Rightarrow>
          Some (s\<lparr>pc := if is_stop then Ended_Thread else Locking, written := written s @ [tmp]\<rparr>)
      | Ended_Thread \<Rightarrow> None
      | Faulted \<Rightarrow> None)"

text \<open>The constructor's \<open>sem_wait\<close>: it blocks until the thread has posted.\<close>

definition constructor_wait :: "logger_thread \<Rightarrow> logger_thread option" where
  "constructor_wait s =
     (if m_semaphore s = 0 then None else Some (s\<lparr>m_semaphore := m_semaphore s - 1, constructed := True\<rparr>))"

text \<open>
  \<open>push\<close> and \<open>stop\<close> up to their signal, which is a step of its own: \<open>push\<close> has the mutex, \<open>stop\<close> does not
  take it. A push waits while the thread holds the mutex.
\<close>

definition push_add :: "string list \<Rightarrow> logger_thread \<Rightarrow> logger_thread option" where
  "push_add buffer s =
     (if buffer = [] then Some s
      else if holds_mutex s then None
      else Some (s\<lparr>m_tasks := m_tasks s @ [buffer], signals := signals s + 1\<rparr>))"

definition stop_set :: "logger_thread \<Rightarrow> logger_thread" where
  "stop_set s = (if \<not> m_stop s then s\<lparr>m_stop := True, signals := signals s + 1\<rparr> else s)"

text \<open>\<open>pthread_cond_signal\<close>: it wakes the thread if that waits, and is forgotten otherwise.\<close>

definition cond_signal :: "logger_thread \<Rightarrow> logger_thread option" where
  "cond_signal s =
     (case signals s of
        0 \<Rightarrow> None
      | Suc n \<Rightarrow> Some (s\<lparr>signals := n, pc := if pc s = Waiting then Awake else pc s\<rparr>))"

section \<open>Schedules\<close>

datatype log_move = Thread | Return_Constructor | Push "string list" | Stop | Signal | Spurious

text \<open>A wait may also end by itself. Nobody has the logger before its constructor has returned.\<close>

definition log_step :: "log_move \<Rightarrow> logger_thread \<Rightarrow> logger_thread option" where
  "log_step mv s =
     (case mv of
        Thread \<Rightarrow> excute_step s
      | Return_Constructor \<Rightarrow> if constructed s then None else constructor_wait s
      | Push b \<Rightarrow> if constructed s then push_add b s else None
      | Stop \<Rightarrow> if constructed s then Some (stop_set s) else None
      | Signal \<Rightarrow> cond_signal s
      | Spurious \<Rightarrow> if pc s = Waiting then Some (s\<lparr>pc := Awake\<rparr>) else None)"

fun log_run :: "log_move list \<Rightarrow> logger_thread \<Rightarrow> logger_thread option" where
  "log_run [] s = Some s"
| "log_run (mv # mvs) s = Option.bind (log_step mv s) (log_run mvs)"

fun pushed_by :: "log_move list \<Rightarrow> string list list" where
  "pushed_by [] = []"
| "pushed_by (Push b # mvs) = (if b = [] then [] else [b]) @ pushed_by mvs"
| "pushed_by (mv # mvs) = pushed_by mvs"

definition in_work :: "logger_thread \<Rightarrow> string list list" where
  "in_work s = (case pc s of Writing tmp _ \<Rightarrow> [tmp] | _ \<Rightarrow> [])"

text \<open>
  What holds in every schedule: the constructor returns only when the condition variable is ready, batches are
  neither lost nor reordered, and a thread that waits although there is a batch has a signal coming.
\<close>

definition thread_inv :: "string list list \<Rightarrow> logger_thread \<Rightarrow> bool" where
  "thread_inv bs s \<longleftrightarrow>
     written s @ in_work s @ m_tasks s = bs \<and>
     (constructed s \<longrightarrow> m_semaphore s = 0) \<and>
     (cond_ready s \<longleftrightarrow> pc s \<noteq> Cond_Init) \<and>
     (pc s \<in> {Cond_Init, Sem_Post} \<longrightarrow> \<not> constructed s \<and> m_semaphore s = 0) \<and>
     (pc s \<notin> {Cond_Init, Sem_Post} \<and> \<not> constructed s \<longrightarrow> m_semaphore s = 1) \<and>
     (\<not> constructed s \<longrightarrow> bs = [] \<and> signals s = 0 \<and> \<not> m_stop s) \<and>
     (pc s = Before_Wait \<longrightarrow> m_tasks s = []) \<and>
     (pc s = Waiting \<and> m_tasks s \<noteq> [] \<longrightarrow> 0 < signals s) \<and>
     (pc s = Taking \<longrightarrow> m_tasks s \<noteq> [] \<or> m_stop s) \<and>
     (pc s \<in> {Faulted, Ended_Thread} \<longrightarrow> m_stop s) \<and>
     (case pc s of Writing tmp is_stop \<Rightarrow> is_stop \<longrightarrow> m_stop s | _ \<Rightarrow> True)"

lemma thread_inv_created: "thread_inv [] AsyncLogger_created"
  by (simp add: thread_inv_def AsyncLogger_created_def in_work_def)

lemma thread_inv_excute: "thread_inv bs s \<Longrightarrow> excute_step s = Some s' \<Longrightarrow> thread_inv bs s'"
  by (cases "pc s") (auto simp: thread_inv_def excute_step_def in_work_def split: list.splits if_splits)

lemma thread_inv_step:
  assumes "thread_inv bs s" and "log_step mv s = Some s'"
  shows "thread_inv (bs @ pushed_by [mv]) s'"
proof (cases mv)
  case Thread
  with assms thread_inv_excute show ?thesis by (simp add: log_step_def)
next
  case (Push b)
  with assms show ?thesis
    by (cases "pc s") (auto simp: thread_inv_def log_step_def push_add_def holds_mutex_def in_work_def split: if_splits)
next
  case Signal
  with assms show ?thesis
    by (cases "pc s") (auto simp: thread_inv_def log_step_def cond_signal_def in_work_def split: nat.splits if_splits)
qed (use assms in \<open>cases "pc s"; auto simp: thread_inv_def log_step_def constructor_wait_def stop_set_def in_work_def
      split: if_splits\<close>)+

lemma pushed_by_Cons: "pushed_by (mv # mvs) = pushed_by [mv] @ pushed_by mvs"
  by (cases mv) simp_all

lemma thread_inv_run:
  "thread_inv bs s \<Longrightarrow> log_run mvs s = Some s' \<Longrightarrow> thread_inv (bs @ pushed_by mvs) s'"
proof (induction mvs arbitrary: bs s)
  case (Cons mv mvs)
  then obtain s1 where "log_step mv s = Some s1" "log_run mvs s1 = Some s'" by (auto simp: bind_eq_Some_conv)
  with Cons.IH [OF thread_inv_step [OF Cons.prems(1)]] show ?case by (simp add: pushed_by_Cons [of mv mvs])
qed simp

section \<open>Properties\<close>

lemma log_run_append: "log_run (mvs @ mvs') s = Option.bind (log_run mvs s) (log_run mvs')"
proof (induction mvs arbitrary: s)
  case (Cons mv mvs)
  then show ?case by (cases "log_step mv s") simp_all
qed simp

lemma log_run_signals:
  "signals s = n \<Longrightarrow> pc s \<noteq> Waiting \<Longrightarrow> log_run (replicate n Signal) s = Some (s\<lparr>signals := 0\<rparr>)"
  by (induction n arbitrary: s) (simp_all add: log_step_def cond_signal_def)

text \<open>
  C29: However the thread of a logger and those that use it are scheduled, what is pushed is written in the
  order in which it was pushed, but for what is in the queue and in work. Nobody uses the
  condition variable before it is ready, and no push is overlooked: as long as a batch is in the queue, the
  thread can move by itself or a signal is on its way that wakes it, unless a stop has ended it.
\<close>

theorem logger_thread_serves:
  assumes "log_run mvs AsyncLogger_created = Some s"
  shows "written s @ in_work s @ m_tasks s = pushed_by mvs \<and> (constructed s \<longrightarrow> cond_ready s) \<and>
    (m_tasks s \<noteq> [] \<longrightarrow> pc s \<noteq> Ended_Thread \<longrightarrow> pc s \<noteq> Faulted \<longrightarrow>
       excute_step s \<noteq> None \<or> (\<exists>s'. cond_signal s = Some s' \<and> pc s' = Awake)) \<and>
    (pc s \<in> {Ended_Thread, Faulted} \<longrightarrow> m_stop s)"
proof -
  have inv: "thread_inv (pushed_by mvs) s" using thread_inv_run [OF thread_inv_created assms] by simp
  then have "excute_step s \<noteq> None \<or> (\<exists>s'. cond_signal s = Some s' \<and> pc s' = Awake)"
    if "m_tasks s \<noteq> []" "pc s \<noteq> Ended_Thread" "pc s \<noteq> Faulted"
    using that by (cases "pc s") (auto simp: thread_inv_def excute_step_def cond_signal_def split: list.splits nat.splits)
  moreover have "constructed s \<Longrightarrow> cond_ready s" using inv by (auto simp: thread_inv_def)
  ultimately show ?thesis using inv by (auto simp: thread_inv_def)
qed

lemma logger_thread_serves_witness:
  "\<exists>s. log_run [Thread, Thread, Return_Constructor, Thread, Thread, Thread, Push [''a''], Signal, Thread, Thread, Thread, Thread]
      AsyncLogger_created = Some s \<and> written s = [[''a'']]"
proof -
  let ?mvs = "[Thread, Thread, Return_Constructor, Thread, Thread, Thread, Push [''a''], Signal, Thread, Thread, Thread, Thread]"
  obtain s where s: "log_run ?mvs AsyncLogger_created = Some s" "in_work s = []" "m_tasks s = []"
    by (simp add: AsyncLogger_created_def log_step_def excute_step_def constructor_wait_def push_add_def holds_mutex_def
        cond_signal_def in_work_def)
  with logger_thread_serves [OF s(1)] show ?thesis by simp
qed

text \<open>
  C27: A stop of a logger that has nothing to write goes wrong either way. If it comes between the test of the
  thread and its wait, which \<open>stop\<close> can do because it does not take the mutex, its signal is lost: the
  thread sleeps for ever, further stops do nothing, and whoever joins it waits for ever. If it comes when the thread
  waits, the thread takes a batch from the empty queue.
\<close>

theorem idle_stop_hangs_or_faults:
  assumes "log_run mvs AsyncLogger_created = Some s" and "pc s = Before_Wait" and "constructed s" and "\<not> m_stop s"
  shows "(\<exists>s'. log_run (Stop # replicate (Suc (signals s)) Signal @ [Thread]) s = Some s' \<and> pc s' = Waiting \<and> m_stop s' \<and>
      (\<forall>mv s''. log_step mv s' = Some s'' \<longrightarrow> s'' = s' \<or> mv = Spurious \<or> (\<exists>b. mv = Push b))) \<and>
    (\<exists>s'. log_run [Thread, Stop, Signal, Thread, Thread, Thread] s = Some s' \<and> pc s' = Faulted)"
proof -
  from thread_inv_run [OF thread_inv_created assms(1)] assms(2) have t: "m_tasks s = []" "m_semaphore s = 0"
    using assms(3) by (simp_all add: thread_inv_def)
  let ?s = "s\<lparr>m_stop := True, signals := Suc (signals s)\<rparr>" and ?e = "s\<lparr>pc := Waiting, m_stop := True, signals := 0\<rparr>"
  have st: "stop_set s = ?s" using assms(4) by (simp add: stop_set_def)
  have "log_run (replicate (Suc (signals s)) Signal) ?s = Some (?s\<lparr>signals := 0\<rparr>)"
    by (rule log_run_signals) (simp_all add: assms(2))
  then have "log_run (Stop # replicate (Suc (signals s)) Signal @ [Thread]) s = Some ?e"
    using assms(2,3) st by (simp add: log_run_append log_step_def excute_step_def del: replicate.simps)
  moreover have "s'' = ?e \<or> mv = Spurious \<or> (\<exists>b. mv = Push b)" if "log_step mv ?e = Some s''" for mv s''
    using that assms(3) by (cases mv) (auto simp: log_step_def excute_step_def cond_signal_def stop_set_def)
  moreover have "\<exists>s'. log_run [Thread, Stop, Signal, Thread, Thread, Thread] s = Some s' \<and> pc s' = Faulted"
    using assms(2-4) t(1) by (simp add: log_step_def excute_step_def stop_set_def cond_signal_def)
  ultimately show ?thesis
    by - (rule conjI, rule exI [of _ ?e], (intro conjI allI impI; simp del: log_run.simps), assumption)
qed

lemma idle_stop_hangs_or_faults_witness:
  "\<exists>s. log_run [Thread, Thread, Return_Constructor, Thread, Thread] AsyncLogger_created = Some s \<and>
    (\<exists>s'. log_run [Stop, Signal, Thread] s = Some s' \<and> pc s' = Waiting \<and> m_stop s')"
proof -
  let ?s = "AsyncLogger_created\<lparr>pc := Before_Wait, cond_ready := True, constructed := True\<rparr>"
  have s: "log_run [Thread, Thread, Return_Constructor, Thread, Thread] AsyncLogger_created = Some ?s"
    by (simp add: AsyncLogger_created_def log_step_def excute_step_def constructor_wait_def)
  from idle_stop_hangs_or_faults [OF s] have "\<exists>s'. log_run [Stop, Signal, Thread] ?s = Some s' \<and> pc s' = Waiting \<and> m_stop s'"
    by (auto simp: AsyncLogger_created_def simp del: log_run.simps)
  with s show ?thesis by blast
qed

end
