(* ===== verification/Test_Coroutine.thy ===== *)
theory Test_Coroutine
  imports Coroutine_Mutex Coroutine
begin

text \<open>
  The program \<open>testcases/test_coroutine.cc\<close>: two coroutines on two threads, which meet at a coroutine mutex.
  The hooks are off, so that a sleep keeps its thread; each step is what a coroutine does between
  two of its sleeps or yields. The headers that the program names are not in the repository; it is modelled over
  those that are.
\<close>

section \<open>The code\<close>

text \<open>
  Where the coroutines stand. \<open>fun1\<close> sleeps with the lock, and after its yield is resumed by nobody; \<open>fun2\<close> ends with
  the lock. The coroutine \<open>cor\<close> has number 1, \<open>cor2\<close> number 2.
\<close>

datatype fun1_pc = Fun1_Begin | Fun1_Sleeps | Fun1_In_Lock | Fun1_Yielded
datatype fun2_pc = Fun2_Begin | Fun2_In_Lock | Fun2_End

record test_state =
  m_coroutine_mutex :: coroutine_mutex
  fun1_at :: fun1_pc
  fun2_at :: fun2_pc
  tasks1 :: "nat list"

text \<open>
  \<open>main\<close> after it has created the coroutines and the second thread. \<open>tasks1\<close> are the resumptions that
  \<open>unlock\<close> has added to the reactor of the first thread, which that thread never runs.
\<close>

definition test_begin :: test_state where
  "test_begin = \<lparr>m_coroutine_mutex = new_CoroutineMutex, fun1_at = Fun1_Begin, fun2_at = Fun2_Begin, tasks1 = []\<rparr>"

definition fun1 :: "test_state \<Rightarrow> test_state option" where
  "fun1 s =
     (case fun1_at s of
        Fun1_Begin \<Rightarrow>
          (case lock False 1 (m_coroutine_mutex s) of (r, m) \<Rightarrow>
           Some (s\<lparr>m_coroutine_mutex := m, fun1_at := if r = Goes_On then Fun1_Sleeps else Fun1_In_Lock\<rparr>))
      | Fun1_Sleeps \<Rightarrow>
          (case unlock False (m_coroutine_mutex s) of (cor, m) \<Rightarrow>
           Some (s\<lparr>m_coroutine_mutex := m, fun1_at := Fun1_Yielded,
                   tasks1 := tasks1 s @ (case cor of None \<Rightarrow> [] | Some c \<Rightarrow> [c])\<rparr>))
      | Fun1_In_Lock \<Rightarrow> None
      | Fun1_Yielded \<Rightarrow> None)"

definition fun2 :: "test_state \<Rightarrow> test_state option" where
  "fun2 s =
     (case fun2_at s of
        Fun2_Begin \<Rightarrow>
          (case lock False 2 (m_coroutine_mutex s) of (r, m) \<Rightarrow>
           Some (s\<lparr>m_coroutine_mutex := m, fun2_at := if r = Goes_On then Fun2_End else Fun2_In_Lock\<rparr>))
      | Fun2_In_Lock \<Rightarrow> None
      | Fun2_End \<Rightarrow> None)"

text \<open>
  \<open>main\<close>: it creates both coroutines on stacks at \<open>sp\<close> and \<open>sp2\<close>, and each thread resumes one of them. The second
  thread shares the coroutines, but has a main coroutine of its own.
\<close>

definition create_test_cors :: "nat \<Rightarrow> int \<Rightarrow> int \<Rightarrow> string thread res" where
  "create_test_cors self sp sp2 =
     bindE (new_Coroutine_cb 1 (128 * 1024) sp ''fun1'' (new_thread self)) (\<lambda>th.
     new_Coroutine_cb 2 (128 * 1024) sp2 ''fun2'' th)"

definition thread1_func :: "string thread \<Rightarrow> string thread res" where
  "thread1_func th = Resume_cor (Some 1) th"

definition thread2_func :: "nat \<Rightarrow> string thread \<Rightarrow> string thread res" where
  "thread2_func self th =
     Resume_cor (Some 2) (snd (GetCurrentCoroutine ((new_thread self)\<lparr>coroutines := coroutines th\<rparr>)))"

lemma test_threads_resume:
  assumes "sp \<noteq> 0" and "sp2 \<noteq> 0" and "self \<notin> {1, 2}" and "self2 \<notin> {1, 2}"
  shows "returns (create_test_cors self sp sp2) (\<lambda>th.
    returns (thread1_func th) (\<lambda>th1. m_cpu th1 = 1 \<and> t_cur_coroutine th1 = Some 1) \<and>
    returns (thread2_func self2 th) (\<lambda>th2. m_cpu th2 = 2 \<and> t_cur_coroutine th2 = Some 2))"
  using assms
  by (simp add: create_test_cors_def thread1_func_def thread2_func_def new_Coroutine_cb_def setCallBack_cor_def ensure_main_def
      new_main_coroutine_def new_thread_def set_coroutine_def blank_coroutine_def Let_def Resume_cor_def coctx_swap_def
      GetCurrentCoroutine_def)

section \<open>Schedules\<close>

text \<open>Either thread moves; \<open>True\<close> is the first.\<close>

fun run_test :: "bool list \<Rightarrow> test_state \<Rightarrow> test_state option" where
  "run_test [] s = Some s"
| "run_test (b # bs) s = Option.bind (if b then fun1 s else fun2 s) (run_test bs)"

definition finished :: "test_state \<Rightarrow> bool" where
  "finished s \<longleftrightarrow> fun1 s = None \<and> fun2 s = None"

lemmas test_defs = fun1_def fun2_def lock_def unlock_def new_CoroutineMutex_def test_begin_def finished_def Let_def

text \<open>The eight states that the program has.\<close>

definition test_inv :: "test_state \<Rightarrow> bool" where
  "test_inv s \<longleftrightarrow>
     (case (fun1_at s, fun2_at s) of
        (Fun1_Begin, Fun2_Begin) \<Rightarrow> s = test_begin
      | (Fun1_Begin, Fun2_End) \<Rightarrow> m_coroutine_mutex s = \<lparr>m_lock = True, m_sleep_cors = []\<rparr> \<and> tasks1 s = []
      | (Fun1_Begin, Fun2_In_Lock) \<Rightarrow> False
      | (Fun1_Sleeps, Fun2_Begin) \<Rightarrow> m_coroutine_mutex s = \<lparr>m_lock = True, m_sleep_cors = []\<rparr> \<and> tasks1 s = []
      | (Fun1_Sleeps, Fun2_In_Lock) \<Rightarrow> m_coroutine_mutex s = \<lparr>m_lock = True, m_sleep_cors = [2]\<rparr> \<and> tasks1 s = []
      | (Fun1_Sleeps, Fun2_End) \<Rightarrow> False
      | (Fun1_In_Lock, Fun2_End) \<Rightarrow> m_coroutine_mutex s = \<lparr>m_lock = True, m_sleep_cors = [1]\<rparr> \<and> tasks1 s = []
      | (Fun1_In_Lock, _) \<Rightarrow> False
      | (Fun1_Yielded, Fun2_Begin) \<Rightarrow> m_coroutine_mutex s = \<lparr>m_lock = False, m_sleep_cors = []\<rparr> \<and> tasks1 s = []
      | (Fun1_Yielded, Fun2_In_Lock) \<Rightarrow> m_coroutine_mutex s = \<lparr>m_lock = False, m_sleep_cors = []\<rparr> \<and> tasks1 s = [2]
      | (Fun1_Yielded, Fun2_End) \<Rightarrow> m_coroutine_mutex s = \<lparr>m_lock = True, m_sleep_cors = []\<rparr> \<and> tasks1 s = [])"

lemma test_inv_fun1: "test_inv s \<Longrightarrow> fun1 s = Some s' \<Longrightarrow> test_inv s'"
  by (cases "fun1_at s"; cases "fun2_at s") (auto simp: test_inv_def test_defs)

lemma test_inv_fun2: "test_inv s \<Longrightarrow> fun2 s = Some s' \<Longrightarrow> test_inv s'"
  by (cases "fun1_at s"; cases "fun2_at s") (auto simp: test_inv_def test_defs)

lemma test_inv_run: "test_inv s \<Longrightarrow> run_test bs s = Some s' \<Longrightarrow> test_inv s'"
  by (induction bs arbitrary: s)
    (auto simp: bind_eq_Some_conv split: if_splits dest: test_inv_fun1 test_inv_fun2)

lemma test_inv_begin: "test_inv test_begin"
  by (simp add: test_inv_def test_defs)

text \<open>
  However the two threads are scheduled, the program ends with a coroutine that waits for ever, or with a lock that
  nobody will release: if \<open>fun2\<close> asks while \<open>fun1\<close> has the lock, it is woken in a reactor that does not run, and the
  lock is free; if it asks before, \<open>fun1\<close> never comes out of \<open>lock\<close>; if it asks after, it keeps the lock.
\<close>

theorem test_coroutine_outcomes:
  assumes "run_test bs test_begin = Some s" and "finished s"
  shows "(fun1_at s = Fun1_Yielded \<and> fun2_at s = Fun2_In_Lock \<and> tasks1 s = [2] \<and> \<not> m_lock (m_coroutine_mutex s)) \<or>
    (fun1_at s = Fun1_In_Lock \<and> fun2_at s = Fun2_End \<and> m_sleep_cors (m_coroutine_mutex s) = [1] \<and> m_lock (m_coroutine_mutex s)) \<or>
    (fun1_at s = Fun1_Yielded \<and> fun2_at s = Fun2_End \<and> m_lock (m_coroutine_mutex s))"
  using test_inv_run [OF test_inv_begin assms(1)] assms(2)
  by (cases "fun1_at s"; cases "fun2_at s") (auto simp: test_inv_def test_defs)

text \<open>All three happen; the sleeps of the program make the first the likely one.\<close>

lemma test_coroutine_all_outcomes:
  "map_option (\<lambda>s. (fun1_at s, fun2_at s)) (run_test [True, False, True] test_begin) = Some (Fun1_Yielded, Fun2_In_Lock)"
  "map_option (\<lambda>s. (fun1_at s, fun2_at s)) (run_test [False, True] test_begin) = Some (Fun1_In_Lock, Fun2_End)"
  "map_option (\<lambda>s. (fun1_at s, fun2_at s)) (run_test [True, True, False] test_begin) = Some (Fun1_Yielded, Fun2_End)"
  by (simp_all add: test_defs)

end
