(* ===== verification/Python_Strings.thy ===== *)
theory Python_Strings
  imports Std_Lib
begin

text \<open>
  The pieces of Python's strings and of \<open>string.Template\<close> that \<open>generator/flconc_generator.py\<close> uses, on ASCII
  text: \<open>find\<close>, slices with negative ends, \<open>replace\<close>, \<open>split\<close>, \<open>capitalize\<close>, \<open>strip\<close> and \<open>safe_substitute\<close>.
\<close>

section \<open>Strings\<close>

definition py_find :: "string \<Rightarrow> string \<Rightarrow> int" where
  "py_find pat s = (case find_str pat s of None \<Rightarrow> -1 | Some i \<Rightarrow> int i)"

text \<open>An end of a slice: a negative one counts from behind, and none leaves the string.\<close>

definition py_index :: "nat \<Rightarrow> int \<Rightarrow> nat" where
  "py_index n i = (if i < 0 then n - nat (- i) else min n (nat i))"

definition py_slice :: "int \<Rightarrow> int \<Rightarrow> string \<Rightarrow> string" where
  "py_slice i j s = take (py_index (length s) j - py_index (length s) i) (drop (py_index (length s) i) s)"

definition py_from :: "int \<Rightarrow> string \<Rightarrow> string" where
  "py_from i s = drop (py_index (length s) i) s"

function py_replace :: "string \<Rightarrow> string \<Rightarrow> string \<Rightarrow> string" where
  "py_replace old new [] = []"
| "py_replace old new (c # cs) =
     (if old \<noteq> [] \<and> take (length old) (c # cs) = old then new @ py_replace old new (drop (length old) (c # cs))
      else c # py_replace old new cs)"
  by pat_completeness auto
termination by (relation "measure (\<lambda>(old, new, s). length s)") auto

fun py_split :: "char \<Rightarrow> string \<Rightarrow> string list" where
  "py_split c [] = [[]]"
| "py_split c (x # xs) =
     (if x = c then [] # py_split c xs
      else (case py_split c xs of [] \<Rightarrow> [[x]] | w # ws \<Rightarrow> (x # w) # ws))"

definition py_islower :: "char \<Rightarrow> bool" where
  "py_islower c \<longleftrightarrow> 97 \<le> (of_char c :: nat) \<and> (of_char c :: nat) \<le> 122"

definition to_lower :: "char \<Rightarrow> char" where
  "to_lower c = (if 65 \<le> (of_char c :: nat) \<and> (of_char c :: nat) \<le> 90 then char_of ((of_char c :: nat) + 32) else c)"

definition py_upper :: "string \<Rightarrow> string" where
  "py_upper s = map to_upper s"

definition py_capitalize :: "string \<Rightarrow> string" where
  "py_capitalize s = (case s of [] \<Rightarrow> [] | c # cs \<Rightarrow> to_upper c # map to_lower cs)"

definition py_space :: "char \<Rightarrow> bool" where
  "py_space c \<longleftrightarrow> is_space c \<or> 28 \<le> (of_char c :: nat) \<and> (of_char c :: nat) \<le> 31"

definition py_strip :: "string \<Rightarrow> string" where
  "py_strip s = rev (dropWhile py_space (rev (dropWhile py_space s)))"

section \<open>Templates\<close>

definition ident_start :: "char \<Rightarrow> bool" where
  "ident_start c \<longleftrightarrow> c = CHR ''_'' \<or> py_islower (to_lower c)"

definition ident_char :: "char \<Rightarrow> bool" where
  "ident_char c \<longleftrightarrow> ident_start c \<or> is_dec c"

text \<open>
  \<open>Template.safe_substitute\<close>: \<open>$name\<close> and \<open>${name}\<close> are replaced where the name is given and kept where it is not, \<open>$$\<close>
  is one \<open>$\<close>, and any other \<open>$\<close> stays.
\<close>

function safe_substitute :: "(string \<times> string) list \<Rightarrow> string \<Rightarrow> string" where
  "safe_substitute m [] = []"
| "safe_substitute m [c] = [c]"
| "safe_substitute m (c # d # t) =
     (if c \<noteq> CHR ''$'' then c # safe_substitute m (d # t)
      else if d = CHR ''$'' then d # safe_substitute m t
      else if ident_start d then
        (let n = takeWhile ident_char (d # t) in
         (case map_of m n of Some v \<Rightarrow> v | None \<Rightarrow> c # n) @ safe_substitute m (dropWhile ident_char t))
      else if d = CHR ''{'' \<and> t \<noteq> [] \<and> ident_start (hd t) \<and> take 1 (dropWhile ident_char t) = ''}'' then
        (let n = takeWhile ident_char t in
         (case map_of m n of Some v \<Rightarrow> v | None \<Rightarrow> c # d # n @ ''}'') @ safe_substitute m (tl (dropWhile ident_char t)))
      else c # safe_substitute m (d # t))"
  by pat_completeness auto
termination
  by (relation "measure (\<lambda>(m, s). length s)")
    (auto simp: less_Suc_eq_le le_SucI length_dropWhile_le intro: le_trans [OF diff_le_self] length_dropWhile_le)

section \<open>Lemmas\<close>

lemma py_find_ge: "-1 \<le> py_find pat s"
  by (simp add: py_find_def split: option.split)

lemma py_find_at: "find_str pat (xs @ pat) = Some (length xs) \<Longrightarrow> find_str pat (xs @ pat @ ys) = Some (length xs)"
proof (induction xs)
  case Nil
  have "take (length pat) (pat @ ys) = pat" by simp
  then show ?case by (cases "pat @ ys") auto
next
  case (Cons x xs)
  have p: "pat \<noteq> []" using Cons.prems by (cases pat) auto
  show ?case
  proof (cases "take (length pat) (x # xs @ pat) = pat")
    case True
    with Cons.prems show ?thesis by simp
  next
    case False
    have "take (length pat) (x # xs @ pat @ ys) = take (length pat) (x # xs @ pat)"
      using take_append [of "length pat" "x # xs @ pat" ys] by simp
    with Cons False p show ?thesis by auto
  qed
qed

end
