(* ===== verification/Generator.thy ===== *)
theory Generator
  imports Python_Strings String_Util
begin

text \<open>
  The generator of service skeletons, \<open>generator/flconc_generator.py\<close>: a Python script that reads the header that
  protoc makes from a service and writes a project from templates. Files are a map from their names; the template
  files, the time, what \<open>getopt\<close> gives, which paths exist and the result of \<open>os.system\<close> are arguments.
\<close>

section \<open>The code\<close>

datatype py_error = Index_Error | Py_Exception string | System_Exit

record interface =
  interface_name :: string
  method_name :: string
  interface_class_name :: string
  request_type :: string
  response_type :: string

record generator =
  out_project_path :: string
  project_name :: string
  proto_file :: string
  proj_path :: string
  made_dirs :: "string list"
  service_name :: string
  method_list :: "string list"
  interface_list :: "interface list"
  class_name :: string
  files :: "string \<Rightarrow> string option"

definition new_Generator :: "(string \<Rightarrow> string option) \<Rightarrow> generator" where
  "new_Generator fs =
     \<lparr>out_project_path = ''./'', project_name = [], proto_file = [], proj_path = [], made_dirs = [], service_name = [],
      method_list = [], interface_list = [], class_name = [], files = fs\<rparr>"

subsection \<open>The command line and the directories\<close>

fun parse_opts :: "(string \<times> string) list \<Rightarrow> generator \<Rightarrow> py_error + generator" where
  "parse_opts [] g = Inr g"
| "parse_opts ((opt, arg) # opts) g =
     (if opt = ''-h'' \<or> opt = ''--help'' then Inl System_Exit
      else if opt = ''-i'' \<or> opt = ''--input'' then parse_opts opts (g\<lparr>proto_file := arg\<rparr>)
      else if opt = ''-o'' \<or> opt = ''--output_path'' then
        (if arg = [] then Inl Index_Error
         else parse_opts opts (g\<lparr>out_project_path := if last arg \<noteq> CHR ''/'' then arg @ ''/'' else arg\<rparr>))
      else Inl (Py_Exception (''invalid options: ['' @ opt @ '': '' @ arg @ '']'')))"

definition parseInput :: "(string \<Rightarrow> bool) \<Rightarrow> (string \<times> string) list \<Rightarrow> generator \<Rightarrow> py_error + generator" where
  "parseInput path_exists opts g =
     bindE (parse_opts opts g) (\<lambda>g.
     if \<not> path_exists (proto_file g) then
       Inl (Py_Exception (''Generate error, not exist protobuf file: '' @ proto_file g))
     else if find_str ''.proto'' (proto_file g) = None then
       Inl (Py_Exception (''Generate error, input file is't standard protobuf file:['' @ proto_file g @ '']''))
     else Inr (g\<lparr>project_name := py_slice 0 (-6) (proto_file g)\<rparr>))"

definition src_path :: "generator \<Rightarrow> string" where
  "src_path g = proj_path g @ ''/'' @ project_name g"

definition dir_list :: "generator \<Rightarrow> string list" where
  "dir_list g =
     [proj_path g, proj_path g @ ''/bin'', proj_path g @ ''/conf'', proj_path g @ ''/log'', proj_path g @ ''/lib'',
      proj_path g @ ''/obj'', proj_path g @ ''/test_client'', proj_path g @ ''/test_client/test_tool'',
      src_path g, src_path g @ ''/interface'', src_path g @ ''/service'', src_path g @ ''/pb'', src_path g @ ''/comm'']"

text \<open>
  The first test has no \<open>else\<close>, so an empty path is then indexed. \<open>mkdir\<close> is called for what does not exist and is
  taken to succeed.
\<close>

definition generate_dir :: "(string \<Rightarrow> bool) \<Rightarrow> generator \<Rightarrow> py_error + generator" where
  "generate_dir path_exists g =
     (if out_project_path g = [] then Inl Index_Error
      else
        let g = g\<lparr>proj_path :=
              if last (out_project_path g) = CHR ''/'' then out_project_path g @ py_strip (project_name g)
              else out_project_path g @ ''./'' @ py_strip (project_name g)\<rparr>
        in Inr (g\<lparr>made_dirs := filter (\<lambda>d. \<not> path_exists d) (dir_list g)\<rparr>))"

subsection \<open>Names\<close>

definition to_camel :: "string \<Rightarrow> string" where
  "to_camel input_s =
     (if py_find ''_'' input_s = -1 then input_s else concat (map py_capitalize (py_split CHR ''_'' input_s)))"

definition to_underline :: "string \<Rightarrow> string" where
  "to_underline input_s =
     py_from 1 (concat (map (\<lambda>s. if py_islower s then [s] else [CHR ''_'', to_lower s]) (to_camel input_s)))"

definition include_pb :: "generator \<Rightarrow> string" where
  "include_pb g = ''#include \"'' @ project_name g @ ''/pb/'' @ project_name g @ ''.pb.h\"''"

definition include_server :: "generator \<Rightarrow> string" where
  "include_server g = ''#include \"'' @ project_name g @ ''/service/'' @ project_name g @ ''.h\"''"

definition include_interfacebase :: "generator \<Rightarrow> string" where
  "include_interfacebase g = ''#include \"'' @ project_name g @ ''/interface/interface.h\"''"

definition include_exception :: "generator \<Rightarrow> string" where
  "include_exception g = ''#include \"'' @ project_name g @ ''/comm/business_exception.h\"''"

subsection \<open>Reading the header\<close>

lemma py_from_shorter:
  assumes "0 < i" and "s \<noteq> []"
  shows "length (py_from i s) < length s"
  using assms by (simp add: py_from_def py_index_def)

text \<open>The loop of \<open>parse_service_name\<close>; what follows a declaration begins one character behind it.\<close>

function parse_methods :: "string \<Rightarrow> string list" where
  "parse_methods origin_text =
     (let i1 = py_find ''virtual void'' origin_text in
      if i1 = -1 then []
      else let i2 = py_find '');'' (py_from i1 origin_text)
           in py_slice i1 (i1 + i2 + 2) origin_text # parse_methods (py_from (i1 + i2 + 3) origin_text))"
  by pat_completeness auto

termination
proof (relation "measure length")
  fix s :: string and i1 i2 :: int
  assume i1: "i1 = py_find ''virtual void'' s" "i1 \<noteq> -1" and i2: "i2 = py_find '');'' (py_from i1 s)"
  from i1 have "s \<noteq> []" by (auto simp: py_find_def)
  moreover have "0 < i1 + i2 + 3"
    using i1 py_find_ge [of "''virtual void''" s] py_find_ge [of "'');''" "py_from i1 s"] i2 by linarith
  ultimately show "(py_from (i1 + i2 + 3) s, s) \<in> measure length" by (simp add: py_from_shorter)
qed simp

declare parse_methods.simps [simp del]

definition parse_service_name :: "string \<Rightarrow> generator \<Rightarrow> generator" where
  "parse_service_name origin_text g =
     (let begin = py_find ''virtual ~'' origin_text;
          i1 = py_find ''~'' (py_from begin origin_text);
          i2 = py_find ''('' (py_from begin origin_text)
      in g\<lparr>service_name := py_slice (begin + i1 + 1) (begin + i2) origin_text,
           method_list := method_list g @ parse_methods (py_from (begin + i2) origin_text)\<rparr>)"

subsection \<open>Writing files\<close>

definition write_file :: "string \<Rightarrow> string \<Rightarrow> generator \<Rightarrow> generator" where
  "write_file name content g = g\<lparr>files := (files g)(name \<mapsto> content)\<rparr>"

definition write_new :: "string \<Rightarrow> string \<Rightarrow> generator \<Rightarrow> generator" where
  "write_new name content g = (if files g name = None then write_file name content g else g)"

text \<open>\<open>tm\<close> is the template with a name, \<open>time\<close> the creation time.\<close>

definition gen_exception :: "(string \<Rightarrow> string) \<Rightarrow> string \<Rightarrow> generator \<Rightarrow> generator" where
  "gen_exception tm time g =
     write_new (src_path g @ ''/comm/business_exception.h'')
       (safe_substitute
         [(''PROJECT_NAME'', project_name g), (''FILE_NAME'', ''business_exception.h''),
          (''HEADER_DEFINE'', py_upper (project_name g) @ ''_COMM_BUSINESSEXCEPTION_H''), (''CREATE_TIME'', time)]
         (tm ''business_exception.h.template'')) g"

text \<open>\<open>pre_content\<close> and \<open>next_content\<close> around the mark \<open>${METHOD}\<close>.\<close>

definition around_method :: "string \<Rightarrow> string \<times> string" where
  "around_method content =
     (let i1 = py_find ''${METHOD}'' content in (py_slice 0 i1 content, py_from (i1 + 9) content))"

definition server_header :: "(string \<Rightarrow> string) \<Rightarrow> string \<Rightarrow> generator \<Rightarrow> string" where
  "server_header tm time g =
     (case around_method (safe_substitute
         [(''HEADER_DEFINE'', py_upper (project_name g) @ ''_SERVICE_'' @ py_upper (project_name g) @ ''_H''),
          (''FILE_NAME'', project_name g @ ''.h''), (''PROJECT_NAME'', project_name g), (''CLASS_NAME'', class_name g),
          (''SERVICE_NAME'', service_name g), (''CREATE_TIME'', time), (''INCLUDE_PB_HEADER'', include_pb g)]
         (tm ''server.h.template'')) of
       (pre_content, next_content) \<Rightarrow>
         pre_content @
         concat (map (\<lambda>each. ''// override from '' @ service_name g @ [CHR 0x0A] @ ''  '' @
                   py_replace ''PROTOBUF_NAMESPACE_ID'' ''google::protobuf'' each @ [CHR 0x0A, CHR 0x0A] @ ''  '')
                 (method_list g)) @
         next_content)"

text \<open>One declaration: the interface it gives, and the body of the method in \<open>server.cc\<close>.\<close>

definition strip_type :: "string \<Rightarrow> string" where
  "strip_type s = py_replace '' '' [] (py_replace [CHR 0x0A] [] s)"

definition gen_method :: "string \<Rightarrow> string \<Rightarrow> py_error + interface \<times> string" where
  "gen_method class each =
     (let tmp = py_replace ''PROTOBUF_NAMESPACE_ID'' ''google::protobuf'' each;
          tmp = py_from (py_find ''void'' tmp) tmp;
          name = py_slice 5 (py_find ''('' tmp) tmp;
          interface_class = to_camel name @ ''Interface'';
          l = py_split CHR '','' tmp
      in if length l < 3 then Inl Index_Error
         else
           let l1 = l ! 1; l2 = l ! 2;
               request = strip_type (py_replace ''const '' [] (py_replace ''*'' [] (py_slice 0 (py_find ''request'' l1 - 1) l1)));
               response = strip_type (py_replace ''*'' [] (py_slice 0 (py_find ''response'' l2 - 1) l2));
               tmp = py_slice 0 5 tmp @ class @ ''::'' @ py_from 5 tmp;
               tmp = py_slice 0 (-1) tmp @ ''{'' @ [CHR 0x0A, CHR 0x0A] @ ''  CALL_RPC_INTERFACE('' @ interface_class @ '');'' @
                     [CHR 0x0A] @ ''}''
           in Inr (\<lparr>interface_name = to_underline name, method_name = name, interface_class_name = interface_class,
                    request_type = request, response_type = response\<rparr>, tmp))"

fun gen_methods :: "string \<Rightarrow> string list \<Rightarrow> py_error + interface list \<times> string" where
  "gen_methods class [] = Inr ([], [])"
| "gen_methods class (each # rest) =
     bindE (gen_method class each) (\<lambda>(i, body).
     bindE (gen_methods class rest) (\<lambda>(is, bodies). Inr (i # is, body @ [CHR 0x0A, CHR 0x0A] @ bodies)))"

definition gen_server :: "(string \<Rightarrow> string) \<Rightarrow> string \<Rightarrow> generator \<Rightarrow> py_error + generator" where
  "gen_server tm time g =
     (let g = g\<lparr>class_name := to_camel (service_name g) @ ''Impl''\<rparr>;
          g = write_file (src_path g @ ''/service/'' @ project_name g @ ''.h'') (server_header tm time g) g
      in case around_method (safe_substitute
            [(''FILE_NAME'', project_name g @ ''.cc''), (''PROJECT_NAME'', project_name g), (''CREATE_TIME'', time),
             (''INCLUDE_PB_HEADER'', include_pb g), (''INCLUDE_BUSINESS_EXCEPTION_HEADER'', include_exception g),
             (''INCLUDE_SERVER_HEADER'', include_server g), (''INCLUDE_INTERFACEBASE_HEADER'', include_interfacebase g)]
            (tm ''server.cc.template'')) of
         (pre_content, next_content) \<Rightarrow>
           bindE (gen_methods (class_name g) (method_list g)) (\<lambda>(is, bodies).
           let include_str = concat (map (\<lambda>each. ''#include \"'' @ project_name g @ ''/interface/'' @ interface_name each @
                               ''.h\"'' @ [CHR 0x0A]) is)
           in Inr (write_file (src_path g @ ''/service/'' @ project_name g @ ''.cc'')
                    (py_replace ''${INCLUDE_SERVICE_HEADER}'' include_str (pre_content @ bodies) @ next_content)
                    (g\<lparr>interface_list := is\<rparr>))))"

definition gen_main :: "(string \<Rightarrow> string) \<Rightarrow> string \<Rightarrow> generator \<Rightarrow> generator" where
  "gen_main tm time g =
     write_new (src_path g @ ''/main.cc'')
       (safe_substitute
         [(''FILE_NAME'', project_name g @ ''.cc''), (''PROJECT_NAME'', project_name g), (''CLASS_NAME'', class_name g),
          (''CREATE_TIME'', time), (''INCLUDE_SERVER_HEADER'', include_server g)]
         (tm ''main.cc.template'')) g"

definition gen_interface_base :: "(string \<Rightarrow> string) \<Rightarrow> string \<Rightarrow> generator \<Rightarrow> generator" where
  "gen_interface_base tm time g =
     write_new (src_path g @ ''/interface/interface.cc'')
       (safe_substitute
         [(''FILE_NAME'', project_name g @ ''.h''), (''PROJECT_NAME'', project_name g), (''CREATE_TIME'', time),
          (''INCLUDE_INTERFACEBASE_HEADER'', include_interfacebase g)]
         (tm ''interface_base.cc.template''))
     (write_new (src_path g @ ''/interface/interface.h'')
       (safe_substitute
         [(''FILE_NAME'', project_name g @ ''.h''), (''PROJECT_NAME'', project_name g), (''CREATE_TIME'', time),
          (''HEADER_DEFINE'', py_upper (project_name g) @ ''_INTERFACE_INTERFACE_H'')]
         (tm ''interface_base.h.template'')) g)"

text \<open>The three files of an interface, each written only when there is none of that name.\<close>

definition interface_path :: "generator \<Rightarrow> interface \<Rightarrow> string \<Rightarrow> string" where
  "interface_path g each ext = src_path g @ ''/interface/'' @ interface_name each @ ext"

definition client_path :: "generator \<Rightarrow> interface \<Rightarrow> string" where
  "client_path g each = proj_path g @ ''/test_client'' @ ''/test_'' @ interface_name each @ ''_client.cc''"

definition interface_header :: "(string \<Rightarrow> string) \<Rightarrow> string \<Rightarrow> generator \<Rightarrow> interface \<Rightarrow> string" where
  "interface_header tm time g each =
     safe_substitute
       [(''PROJECT_NAME'', project_name g), (''INCLUDE_PB_HEADER'', include_pb g),
        (''HEADER_DEFINE'', py_upper (project_name g) @ ''_INTERFACE_'' @ py_upper (interface_name each) @ ''_H''),
        (''CREATE_TIME'', time), (''CLASS_NAME'', interface_class_name each), (''REQUEST_TYPE'', request_type each),
        (''RESPONSE_TYPE'', response_type each), (''FILE_NAME'', interface_name each @ ''.h''),
        (''INCLUDE_INTERFACEBASE_HEADER'', include_interfacebase g)]
       (tm ''interface.h.template'')"

definition interface_source :: "(string \<Rightarrow> string) \<Rightarrow> string \<Rightarrow> generator \<Rightarrow> interface \<Rightarrow> string" where
  "interface_source tm time g each =
     safe_substitute
       [(''PROJECT_NAME'', project_name g), (''INCLUDE_PB_HEADER'', include_pb g),
        (''INCLUDE_INTERFACE_HEADER'', ''#include \"'' @ project_name g @ ''/interface/'' @ interface_name each @ ''.h\"''),
        (''CREATE_TIME'', time), (''CLASS_NAME'', interface_class_name each), (''REQUEST_TYPE'', request_type each),
        (''RESPONSE_TYPE'', response_type each), (''FILE_NAME'', interface_name each @ ''.cc''),
        (''INCLUDE_INTERFACEBASE_HEADER'', include_interfacebase g)]
       (tm ''interface.cc.template'')"

definition interface_client :: "(string \<Rightarrow> string) \<Rightarrow> string \<Rightarrow> generator \<Rightarrow> interface \<Rightarrow> string" where
  "interface_client tm time g each =
     safe_substitute
       [(''INCLUDE_PB_HEADER'', include_pb g), (''CREATE_TIME'', time), (''REQUEST_TYPE'', request_type each),
        (''RESPONSE_TYPE'', response_type each), (''STUBCLASS'', service_name g @ ''_Stub''),
        (''METHOD_NAME'', method_name each), (''FILE_NAME'', ''test_'' @ interface_name each @ ''_client.cc'')]
       (tm ''test_flconc_client.cc.template'')"

definition gen_interface :: "(string \<Rightarrow> string) \<Rightarrow> string \<Rightarrow> interface \<Rightarrow> generator \<Rightarrow> generator" where
  "gen_interface tm time each g =
     write_new (client_path g each) (interface_client tm time g each)
       (write_new (interface_path g each ''.cc'') (interface_source tm time g each)
         (write_new (interface_path g each ''.h'') (interface_header tm time g each) g))"

definition gen_each_interface :: "(string \<Rightarrow> string) \<Rightarrow> string \<Rightarrow> generator \<Rightarrow> generator" where
  "gen_each_interface tm time g = fold (gen_interface tm time) (interface_list g) g"

definition generate_framework_code ::
  "(string \<Rightarrow> string) \<Rightarrow> string \<Rightarrow> string \<Rightarrow> generator \<Rightarrow> py_error + generator" where
  "generate_framework_code tm time pb_text g =
     bindE (gen_server tm time (gen_exception tm time (parse_service_name pb_text g))) (\<lambda>g.
     Inr (gen_each_interface tm time (gen_interface_base tm time (gen_main tm time g))))"

definition gen_pb_files :: "int \<Rightarrow> generator \<Rightarrow> py_error + generator" where
  "gen_pb_files rc g =
     (let target_path = src_path g @ ''/pb/'';
          cmd = ''cp -r '' @ proto_file g @ '' '' @ target_path @ '' && cd '' @ target_path @ '' && protoc --cpp_out=./ '' @ proto_file g
      in if rc \<noteq> 0 then Inl (Py_Exception (''execute cmd failed ['' @ cmd @ '']'')) else Inr g)"

definition gen_makefile :: "(string \<Rightarrow> string) \<Rightarrow> string \<Rightarrow> generator \<Rightarrow> generator" where
  "gen_makefile tm time g =
     write_new (src_path g @ ''/makefile'')
       (safe_substitute [(''PROJECT_NAME'', project_name g), (''CREATE_TIME'', time)] (tm ''makefile.template'')) g"

definition gen_conf_file :: "(string \<Rightarrow> string) \<Rightarrow> string \<Rightarrow> generator \<Rightarrow> generator" where
  "gen_conf_file tm time g =
     write_new (proj_path g @ ''/conf'' @ ''/'' @ project_name g @ ''.xml'')
       (safe_substitute [(''PROJECT_NAME'', project_name g), (''CREATE_TIME'', time)] (tm ''conf.xml.template'')) g"

text \<open>
  \<open>generate_flconc_project\<close> until the first exception, which it prints; the scripts that \<open>gen_run_script\<close> copies with
  \<open>cp\<close>, and the header \<open>pb_text\<close> that protoc writes, are not among the files here.
\<close>

definition generate_flconc_project ::
  "(string \<Rightarrow> string) \<Rightarrow> string \<Rightarrow> (string \<Rightarrow> bool) \<Rightarrow> (string \<times> string) list \<Rightarrow> int \<Rightarrow> string \<Rightarrow> generator \<Rightarrow>
   py_error + generator" where
  "generate_flconc_project tm time path_exists opts rc pb_text g =
     bindE (parseInput path_exists opts g) (\<lambda>g.
     bindE (generate_dir path_exists g) (\<lambda>g.
     bindE (gen_pb_files rc g) (\<lambda>g.
     generate_framework_code tm time pb_text (gen_conf_file tm time (gen_makefile tm time g)))))"

section \<open>Names of methods and files\<close>

definition lower_word :: "string \<Rightarrow> bool" where
  "lower_word w \<longleftrightarrow> w \<noteq> [] \<and> (\<forall>c \<in> set w. py_islower c)"

lemma lower_no_underscore: "py_islower c \<Longrightarrow> c \<noteq> CHR ''_''"
  by (auto simp: py_islower_def)

lemma upper_lower:
  assumes "py_islower c"
  shows "\<not> py_islower (to_upper c)" "to_lower (to_upper c) = c" "to_lower c = c"
proof -
  have n: "97 \<le> (of_char c :: nat)" "(of_char c :: nat) \<le> 122" using assms by (simp_all add: py_islower_def)
  then have u: "(of_char (to_upper c) :: nat) = of_char c - 32" by (simp add: to_upper_def Let_def)
  with n show "\<not> py_islower (to_upper c)" by (simp add: py_islower_def)
  have "65 \<le> (of_char c :: nat) - 32" "(of_char c :: nat) - 32 \<le> 90" "(of_char c :: nat) - 32 + 32 = of_char c"
    using n by linarith+
  then show "to_lower (to_upper c) = c" by (simp only: to_lower_def u simp_thms if_True char_of_char)
  from n show "to_lower c = c" by (simp add: to_lower_def)
qed

lemma py_split_join:
  assumes "ws \<noteq> []" and "\<forall>w \<in> set ws. CHR ''_'' \<notin> set w"
  shows "py_split CHR ''_'' (join ''_'' ws) = ws"
  using assms
proof (induction ws rule: induct_list012)
  case (2 w)
  have "py_split CHR ''_'' w = [w]" if "CHR ''_'' \<notin> set w" for w using that by (induction w) auto
  with 2 show ?case by simp
next
  case (3 w v vs)
  have "py_split CHR ''_'' (w @ ''_'' @ s) = w # py_split CHR ''_'' s" if "CHR ''_'' \<notin> set w" for w s
    using that by (induction w) auto
  with 3 show ?case by simp
qed simp

lemma underline_word:
  assumes "lower_word w"
  shows "concat (map (\<lambda>s. if py_islower s then [s] else [CHR ''_'', to_lower s]) (py_capitalize w)) = CHR ''_'' # w"
proof -
  obtain c cs where w: "w = c # cs" "py_islower c" "\<forall>x \<in> set cs. py_islower x" using assms by (cases w) (auto simp: lower_word_def)
  have "concat (map (\<lambda>s. if py_islower s then [s] else [CHR ''_'', to_lower s]) (map to_lower cs)) = cs"
    using w(3) by (induction cs) (simp_all add: upper_lower)
  with w upper_lower [OF w(2)] show ?thesis by (simp add: py_capitalize_def)
qed

lemma join_underscores: "ws \<noteq> [] \<Longrightarrow> concat (map (\<lambda>w. CHR ''_'' # w) ws) = CHR ''_'' # join ''_'' ws"
  by (induction ws rule: induct_list012) simp_all

lemma py_from_1: "py_from 1 (c # s) = s"
  by (simp add: py_from_def py_index_def)

text \<open>
  The file of an interface is named after its method if the name has at least two words; a name of one word
  loses its first letter.
\<close>

theorem interface_file_names:
  assumes "ws \<noteq> []" and "\<forall>w \<in> set ws. lower_word w"
  shows "to_underline (join ''_'' ws) = (if length ws = 1 then tl (join ''_'' ws) else join ''_'' ws)"
proof (cases "length ws = 1")
  case True
  then obtain w where w: "ws = [w]" by (auto simp: length_Suc_conv)
  then have l: "w \<noteq> []" "\<forall>c \<in> set w. py_islower c" using assms(2) by (simp_all add: lower_word_def)
  then have "find_str ''_'' w = None" using lower_no_underscore by (auto simp: find_char_iff)
  then have "to_camel w = w" by (simp add: to_camel_def py_find_def)
  moreover have "concat (map (\<lambda>s. if py_islower s then [s] else [CHR ''_'', to_lower s]) w) = w"
    using l(2) by (induction w) simp_all
  ultimately show ?thesis using l(1) w py_from_1 by (cases w) (simp_all add: to_underline_def)
next
  case False
  with assms(1) obtain w v vs where ws: "ws = w # v # vs" by (cases ws rule: remdups_adj.cases) auto
  then have "CHR ''_'' \<in> set (join ''_'' ws)" by simp
  then have "find_str ''_'' (join ''_'' ws) \<noteq> None" by (simp add: find_char_iff)
  then have f: "py_find ''_'' (join ''_'' ws) \<noteq> -1" by (auto simp: py_find_def)
  have "\<forall>w \<in> set ws. CHR ''_'' \<notin> set w" using assms(2) lower_no_underscore by (auto simp: lower_word_def)
  with f assms(1) have "to_camel (join ''_'' ws) = concat (map py_capitalize ws)"
    by (simp add: to_camel_def py_split_join)
  moreover have "concat (map (\<lambda>s. if py_islower s then [s] else [CHR ''_'', to_lower s]) (concat (map py_capitalize ws))) =
      concat (map (\<lambda>w. CHR ''_'' # w) ws)"
    using assms(2) by (induction ws) (simp_all add: underline_word)
  ultimately show ?thesis using False assms(1) by (simp add: to_underline_def join_underscores py_from_1)
qed

lemma interface_file_names_witness:
  "to_underline ''query_name'' = ''query_name'' \<and> to_underline ''query'' = ''uery''"
proof -
  have "lower_word ''query'' \<and> lower_word ''name''" by (simp add: lower_word_def py_islower_def)
  with interface_file_names [of "[''query'', ''name'']"] interface_file_names [of "[''query'']"] show ?thesis by simp
qed

section \<open>Reading the declarations\<close>

text \<open>
  A declaration between what comes before it and the one character that is skipped behind it. Neither the
  beginning nor the end of a declaration occurs early.
\<close>

definition decl :: "string \<Rightarrow> string" where
  "decl body = ''virtual void'' @ body @ '');''"

definition decl_ok :: "string \<times> string \<times> char \<Rightarrow> bool" where
  "decl_ok x = (case x of (junk, body, c) \<Rightarrow>
     find_str ''virtual void'' (junk @ ''virtual void'') = Some (length junk) \<and>
     find_str '');'' (decl body) = Some (length (decl body) - 2))"

definition header_text :: "(string \<times> string \<times> char) list \<Rightarrow> string \<Rightarrow> string" where
  "header_text ds rest = concat (map (\<lambda>(junk, body, c). junk @ decl body @ [c]) ds) @ rest"

lemma parse_methods_decl:
  assumes "decl_ok (junk, body, c)"
  shows "parse_methods (junk @ decl body @ c # rest) = decl body # parse_methods rest"
proof -
  let ?s = "junk @ decl body @ c # rest" and ?j = "int (length junk)" and ?n = "int (length (decl body))"
  have n: "14 \<le> length (decl body)" by (simp add: decl_def)
  have "find_str ''virtual void'' (junk @ ''virtual void'' @ body @ '');'' @ c # rest) = Some (length junk)"
    using assms by (intro py_find_at) (simp add: decl_ok_def)
  then have i1: "py_find ''virtual void'' ?s = ?j" by (simp add: py_find_def decl_def)
  have f: "py_from ?j ?s = decl body @ c # rest" by (simp add: py_from_def py_index_def)
  have "find_str '');'' ((''virtual void'' @ body) @ '');'' @ c # rest) = Some (length (''virtual void'' @ body))"
    using assms by (intro py_find_at) (simp add: decl_ok_def decl_def)
  then have i2: "py_find '');'' (decl body @ c # rest) = ?n - 2" by (simp add: py_find_def decl_def)
  have "py_slice ?j (?j + (?n - 2) + 2) ?s = decl body"
    by (simp add: py_slice_def py_index_def nat_add_distrib)
  moreover have "py_from (?j + (?n - 2) + 3) ?s = rest"
  proof -
    have "nat (?j + (?n - 2) + 3) = length junk + (length (decl body) + 1)" by linarith
    then show ?thesis by (simp add: py_from_def py_index_def)
  qed
  ultimately show ?thesis
    by (subst parse_methods.simps) (simp add: i1 f i2 Let_def)
qed

text \<open>
  From a header, the loop of \<open>parse_service_name\<close> takes exactly the declarations that begin with \<open>virtual void\<close>, in
  their order, whatever stands between them.
\<close>

theorem parse_methods_reads:
  assumes "\<forall>d \<in> set ds. decl_ok d" and "find_str ''virtual void'' rest = None"
  shows "parse_methods (header_text ds rest) = map (\<lambda>(junk, body, c). decl body) ds"
  using assms(1)
proof (induction ds)
  case Nil
  with assms(2) show ?case by (subst parse_methods.simps) (simp add: header_text_def py_find_def)
next
  case (Cons d ds)
  obtain junk body c where d: "d = (junk, body, c)" by (cases d)
  have "header_text (d # ds) rest = junk @ decl body @ c # header_text ds rest" by (simp add: header_text_def d)
  with Cons parse_methods_decl [of junk body c "header_text ds rest"] show ?case by (simp add: d)
qed

lemma parse_methods_reads_witness:
  "parse_methods (header_text [(''public: '', '' get(R* c)'', CHR '' ''), (''  '', '' put(R* c)'', CHR '' '')] ''};'') =
     [''virtual void get(R* c));'', ''virtual void put(R* c));'']"
proof -
  have "\<forall>d \<in> set [(''public: '', '' get(R* c)'', CHR '' ''), (''  '', '' put(R* c)'', CHR '' '')]. decl_ok d"
    "find_str ''virtual void'' ''};'' = None"
    by (simp_all add: decl_ok_def decl_def)
  from parse_methods_reads [OF this] show ?thesis by (simp add: decl_def)
qed

section \<open>The files of the interfaces\<close>

text \<open>What a step of the generator leaves alone.\<close>

definition same_project :: "generator \<Rightarrow> generator \<Rightarrow> bool" where
  "same_project g g' \<longleftrightarrow> project_name g' = project_name g \<and> proj_path g' = proj_path g \<and> service_name g' = service_name g"

lemma same_project_paths:
  assumes "same_project g g'"
  shows "interface_path g' i e = interface_path g i e" "client_path g' i = client_path g i"
    "interface_header tm time g' i = interface_header tm time g i"
  using assms
  by (simp_all add: same_project_def interface_path_def client_path_def src_path_def interface_header_def include_pb_def
      include_interfacebase_def)

lemma write_new_files: "files (write_new n c g) = (if files g n = None then (files g)(n \<mapsto> c) else files g)"
  by (simp add: write_new_def write_file_def)

lemma write_new_other: "n' \<noteq> n \<Longrightarrow> files (write_new n c g) n' = files g n'"
  by (simp add: write_new_files)

lemma other_endings:
  "interface_path g i ''.h'' \<noteq> interface_path g j ''.cc''" "interface_path g i ''.h'' \<noteq> client_path g j"
proof -
  have "last (interface_path g i ''.h'') = CHR ''h''" "last (interface_path g j ''.cc'') = CHR ''c''"
    "last (client_path g j) = CHR ''c''" by (simp_all add: interface_path_def client_path_def)
  then show "interface_path g i ''.h'' \<noteq> interface_path g j ''.cc''" "interface_path g i ''.h'' \<noteq> client_path g j" by force+
qed

lemma same_path_iff: "interface_path g i ''.h'' = interface_path g j ''.h'' \<longleftrightarrow> interface_name i = interface_name j"
  by (simp add: interface_path_def)

lemma gen_interface_header_file:
  "same_project g (gen_interface tm time each g)"
  "files (gen_interface tm time each g) (interface_path g i ''.h'') =
     (case files g (interface_path g i ''.h'') of
        Some c \<Rightarrow> Some c
      | None \<Rightarrow> if interface_name i = interface_name each then Some (interface_header tm time g each) else None)"
proof -
  show "same_project g (gen_interface tm time each g)"
    by (simp add: gen_interface_def same_project_def write_new_def write_file_def)
  have "files (gen_interface tm time each g) (interface_path g i ''.h'') =
      files (write_new (interface_path g each ''.h'') (interface_header tm time g each) g) (interface_path g i ''.h'')"
    using other_endings [of g i each] by (simp add: gen_interface_def write_new_other)
  then show "files (gen_interface tm time each g) (interface_path g i ''.h'') =
     (case files g (interface_path g i ''.h'') of
        Some c \<Rightarrow> Some c
      | None \<Rightarrow> if interface_name i = interface_name each then Some (interface_header tm time g each) else None)"
    using same_path_iff [of g i each]
    by (cases "interface_name i = interface_name each") (auto simp: write_new_files split: option.splits)
qed

lemma gen_interfaces_header_file:
  "files (fold (gen_interface tm time) is g) (interface_path g i ''.h'') =
     (case files g (interface_path g i ''.h'') of
        Some c \<Rightarrow> Some c
      | None \<Rightarrow> map_option (interface_header tm time g) (find (\<lambda>j. interface_name j = interface_name i) is))"
proof (induction "is" arbitrary: g)
  case (Cons each "is")
  let ?g = "gen_interface tm time each g"
  note p = same_project_paths [OF gen_interface_header_file(1) [of g tm time each]]
  have h: "interface_header tm time ?g = interface_header tm time g" by (rule ext) (rule p(3))
  from Cons [of ?g] have "files (fold (gen_interface tm time) is ?g) (interface_path g i ''.h'') =
      (case files ?g (interface_path g i ''.h'') of
        Some c \<Rightarrow> Some c
      | None \<Rightarrow> map_option (interface_header tm time g) (find (\<lambda>j. interface_name j = interface_name i) is))"
    by (simp only: p(1) h)
  then show ?case by (auto simp: gen_interface_header_file(2) split: option.splits)
qed (simp split: option.split)


definition one_word_service :: generator where
  "one_word_service = (new_Generator (\<lambda>_. None))\<lparr>interface_list :=
     [\<lparr>interface_name = ''et'', method_name = ''get'', interface_class_name = ''getInterface'', request_type = ''R'', response_type = ''S''\<rparr>,
      \<lparr>interface_name = ''et'', method_name = ''set'', interface_class_name = ''setInterface'', request_type = ''R'', response_type = ''S''\<rparr>]\<rparr>"


text \<open>The list that \<open>gen_server\<close> leaves behind is of that form.\<close>

lemma gen_methods_names:
  "gen_methods class ms = Inr (is, bodies) \<Longrightarrow> j \<in> set is \<Longrightarrow> interface_name j = to_underline (method_name j)"
  by (induction ms arbitrary: "is" bodies)
    (auto simp: bindE_eq_Inr gen_method_def Let_def split: if_splits)

lemma gen_server_names:
  "gen_server tm time g = Inr g' \<Longrightarrow> j \<in> set (interface_list g') \<Longrightarrow> interface_name j = to_underline (method_name j)"
  by (auto simp: gen_server_def Let_def bindE_eq_Inr write_file_def split: prod.splits dest: gen_methods_names)

text \<open>
  The option that the help text names for the output directory is refused, and so is an empty directory; a proto
  file in another directory gives a project name with a slash.
\<close>

lemma generator_options:
  "parse_opts [(''--output'', d)] g = Inl (Py_Exception (''invalid options: [--output: '' @ d @ '']''))"
  "parse_opts [(''-o'', [])] g = Inl Index_Error"
  "map_sum id project_name (parseInput (\<lambda>_. True) [(''-i'', ''api/order.proto'')] g) = Inr ''api/order''"
  by (simp_all add: parseInput_def py_slice_def py_index_def)

end
