(* ===== verification/Spec2Isabelle.thy ===== *)
theory Spec2Isabelle
  imports Rpc_Round Http_Round Start Rpc_Async_Channel Coroutine_Hook Coroutine_Mutex Thread_Pool Coctx
    Io_Thread_Start Idle_Connection Client_Descriptors Test_Servers
    Connection_Coroutine Reactor_Ownership
    Logger_Thread Test_Coroutine Generator
begin

text \<open>
  A model of flconc, a C++ framework for remote procedure calls and HTTP on coroutines.

  The program. A server owns a main reactor, which accepts connections in a coroutine, and a
  pool of IO threads, each with a reactor of its own. The coroutine of a connection, on one of
  these threads, reads into a buffer, decodes requests from it, dispatches them, and writes
  what the dispatcher has encoded into the other buffer. The system calls it makes are hooked:
  where they would block, the coroutine is registered with its reactor and yields. A client
  calls through a channel, which encodes the request, connects, and waits in the same way for
  the reply with its message number. A time wheel closes idle connections, timers run
  callbacks, and the log, the configuration, the database connection and a plain thread pool
  stand beside this.

  The theories, with the sources under \<open>src/flconc\<close>.

  \<^item> Prelude and Std_Lib: faults and the result type, checked \<open>int\<close>, vectors and \<open>memcpy\<close>; the
    pieces of \<open>std::string\<close>, \<open>atoi\<close> and \<open>std::map\<close> that the code uses, the map as the locale
    \<open>ordered_map\<close> with its interpretation on sorted association lists.
  \<^item> Tcp_Buffer (\<open>net/tcp/tcp_buffer\<close>), Net_Byte (\<open>net/base/byte.h\<close>), Abstract_Data and
    Abstract_Codec (\<open>net/base\<close>): the buffer refines a queue of bytes; a codec is a locale whose laws
    the frames of both protocols satisfy.
  \<^item> Msg_Req, Flconcpb_Codec (\<open>net/flconcpb/flconcpb_codec\<close>), String_Util, Http_Define,
    Http_Codec, Http_Dispatcher (\<open>net/http\<close>), Rpc_Controller and Rpc_Dispatcher
    (\<open>net/flconcpb\<close>): encoders, decoders and dispatchers; round trips, the requests that are
    decoded and the answers that are sent, and the inputs on which the decoders misbehave.
  \<^item> Fd_Event, Reactor, Timer, Time_Wheel (\<open>net/base\<close>, \<open>net/tcp\<close>): the interest table of a
    reactor agrees with what its descriptors registered; timers run what is due; an idle
    connection is closed after one turn of the wheel.
  \<^item> Memory, Coctx, Coroutine, Coroutine_Pool, Coroutine_Hook (\<open>coroutine\<close>) and Coroutine_Mutex
    (\<open>net/base/mutex\<close>): stack blocks are disjoint, the assembly of the context switch restores what it
    saved and writes eight bytes behind a fresh stack, yielding returns to the main coroutine, the
    pool hands a coroutine out once, a hook waits for its descriptor; what the coroutine mutex
    promises and what it does not.
  \<^item> Tcp_Connection, Tcp_Client, Io_Thread, Tcp_Server (\<open>net/tcp\<close>), Rpc_Channel and
    Rpc_Async_Channel (\<open>net/flconcpb\<close>): no byte of a connection is lost, doubled or reordered,
    replies find their calls, connections are dealt out to the threads in turn.
  \<^item> Io_Thread_Start, Idle_Connection and Client_Descriptors (\<open>net/tcp\<close>): the two semaphores with which an IO
    thread starts, under every schedule, and the stop that comes too early; an idle connection from its
    slot in the wheel through the shutdown and its coroutine to the clearing of clients; the numbers of
    descriptors that a client closes, which need not be its own any more.
  \<^item> Connection_Coroutine (\<open>net/tcp/tcp_connection.cc\<close> on \<open>coroutine\<close>) and Reactor_Ownership (\<open>net/base\<close>): the
    coroutine of a connection from constructor to destructor, which the pool does not get back; which
    reactor a thread calls its own, and the timer of a reactor, until they are deleted.
  \<^item> Logging, Config, Mysql_Instase, Thread_Pool, Start (\<open>comm\<close>): lines reach the files in
    order while the log is not stopped; a document is read as it says; statements are sent
    once unless the connection is lost; tasks are called once; what a start leaves behind, and what is
    left unwritten when the process ends. Logger_Thread: the thread of a logger, its mutex and condition
    variable under every schedule, and the stop that it does not notice.
  \<^item> Connection_Turn: the turns of a connection's coroutine, \<open>TcpConnection::MainServerLoopCorFunc\<close>. The
    locales \<open>framed_protocol\<close> (messages that \<open>execute\<close> takes out of the read buffer) and
    \<open>answering_dispatcher\<close> (what a dispatcher appends to the write buffer) are joined in
    \<open>answering_server\<close>, in which a session is followed once for both protocols: bursts of requests are
    answered in order, and what is not answered is in the read buffer.
  \<^item> Rpc_Round and Http_Round: the interpretations of \<open>answering_server\<close> on the protobuf and on the HTTP
    codec and dispatcher; sessions of both servers, a call from the channel through the server and
    back, and the requests that are left unanswered because they fill the read buffer exactly.
  \<^item> Test_Servers (\<open>testcases\<close>): the servlets, the query service, the two \<open>main\<close> functions and the client; the
    client and the service work together over any protobuf that reads back what it prints. Test_Coroutine: the
    two coroutines of \<open>test_coroutine.cc\<close> and how they end.
  \<^item> Python_Strings and Generator (\<open>generator/flconc_generator.py\<close>): the script that writes the files of a
    service from templates; the declarations that it reads, the names it makes and the files it keeps.

  How the model stands to the code. A class is a record with the members that its operations
  read, an operation a function on it that returns the new state; a member name is kept where
  it does not clash. Undefined behaviour, uncaught exceptions, failed assertions and \<open>exit\<close> are
  the left summand of \<open>res\<close>. An operation that may suspend its coroutine is split at the yield or
  returns how it ended. What the operating system and libraries answer (results of reads,
  writes and connects, clocks, random bytes, epoll, protobuf messages, XML elements, the
  database client) are arguments: scripts of events, functions, or records of functions. Loops
  that need not end take fuel and return \<open>None\<close> when it is used up; a theorem about them says
  how much is enough, which is one more than the number of packages in the buffer.

  Bounds. \<open>int\<close> is checked at 32 bits. The write buffer grows by half when it is full, in an
  \<open>int\<close>; \<open>WRITE_LIMIT\<close>, 1431655765, is what it may hold before that product overflows. The
  read buffer doubles, so the bytes to come are bounded by half of \<open>INT_MAX\<close>. A client and a
  connection start with 128 bytes: what ends exactly there, or at a doubling of it, is waited on
  although it is complete (\<open>fills\<close>, with fewer than 32 doublings in an \<open>int\<close>), and a burst of less than two
  thirds of the buffer never fills it, whatever came before (\<open>small_burst\<close>).

  Not modelled: the text of log lines that the components write, and null checks of pointers
  that are never null; flags and instruction addresses in \<open>coctx.h\<close>; steps inside a critical section,
  which is one step; the lookup of system calls with \<open>dlsym\<close>; the template files of the generator and the
  scripts it copies.
\<close>

end
